theory Spec2Isabelle
  imports Complex_Main
begin

section \<open>JavaScript values used by the converters\<close>

subsection \<open>Strings\<close>

text \<open>
  A JavaScript string is modelled as a \<^typ>\<open>string\<close>. The case mappings are the ASCII
  ones: every token the converters compare (unit symbols, currency codes, holiday names)
  is ASCII, and a character outside \<open>A-Z\<close>/\<open>a-z\<close> is left alone.
\<close>

definition toLowerChar :: "char \<Rightarrow> char" where
  "toLowerChar c =
     (let n = (of_char c :: nat) in if 65 \<le> n \<and> n \<le> 90 then char_of (n + 32) else c)"

definition toUpperChar :: "char \<Rightarrow> char" where
  "toUpperChar c =
     (let n = (of_char c :: nat) in if 97 \<le> n \<and> n \<le> 122 then char_of (n - 32) else c)"

definition toLowerCase :: "string \<Rightarrow> string" where
  "toLowerCase s = map toLowerChar s"

definition toUpperCase :: "string \<Rightarrow> string" where
  "toUpperCase s = map toUpperChar s"

text \<open>White space as \<open>String.prototype.trim\<close> and the regular expression class \<open>\s\<close>
  see it, within the 8-bit range: TAB, LF, VT, FF, CR, SPACE and NBSP.\<close>

definition isSpace :: "char \<Rightarrow> bool" where
  "isSpace c = (let n = (of_char c :: nat) in (9 \<le> n \<and> n \<le> 13) \<or> n = 32 \<or> n = 160)"

definition isDigit :: "char \<Rightarrow> bool" where
  "isDigit c = (let n = (of_char c :: nat) in 48 \<le> n \<and> n \<le> 57)"

definition trim :: "string \<Rightarrow> string" where
  "trim s = rev (dropWhile isSpace (rev (dropWhile isSpace s)))"

subsection \<open>Property lookup on an object literal\<close>

text \<open>
  \<open>obj[key]\<close> on an object literal finds the literal's own entries first and then the
  members every plain object inherits from \<open>Object.prototype\<close>. An inherited member is
  a function (or, for \<open>__proto__\<close>, the prototype object): it is truthy and has none of
  the fields of the table's entries.
\<close>

definition object_prototype_keys :: "string list" where
  "object_prototype_keys =
     [''constructor'', ''hasOwnProperty'', ''isPrototypeOf'', ''propertyIsEnumerable'',
      ''toLocaleString'', ''toString'', ''valueOf'', ''__defineGetter__'',
      ''__defineSetter__'', ''__lookupGetter__'', ''__lookupSetter__'', ''__proto__'']"

datatype 'a property = Own 'a | Inherited string | Undefined

definition obj_get :: "(string \<times> 'a) list \<Rightarrow> string \<Rightarrow> 'a property" where
  "obj_get obj k =
     (case map_of obj k of
        Some v \<Rightarrow> Own v
      | None \<Rightarrow> if k \<in> set object_prototype_keys then Inherited k else Undefined)"

section \<open>Dates\<close>

text \<open>
  A \<open>Date\<close> is modelled by its local calendar fields: full year, month index 0..11, day
  of the month 1..31 and the milliseconds elapsed since local midnight. The local zone
  has a constant offset (no daylight-saving gaps), and the finite range of \<open>Date\<close> is
  not represented.
\<close>

record jsdate =
  fullYear :: int
  monthIndex :: int
  dayOfMonth :: int
  msOfDay :: int

definition isLeapYear :: "int \<Rightarrow> bool" where
  "isLeapYear y = (y mod 4 = 0 \<and> (y mod 100 \<noteq> 0 \<or> y mod 400 = 0))"

definition daysInMonth :: "int \<Rightarrow> int \<Rightarrow> int" where
  "daysInMonth y m =
     (if m = 1 then (if isLeapYear y then 29 else 28)
      else if m = 3 \<or> m = 5 \<or> m = 8 \<or> m = 10 then 30 else 31)"

text \<open>Day number of a civil date, counted from 1 January 1970 (day 0, a Thursday).\<close>

definition dayNumber :: "int \<Rightarrow> int \<Rightarrow> int \<Rightarrow> int" where
  "dayNumber y m d =
     (let y' = (if m < 2 then y - 1 else y);
          mp = (if m < 2 then m + 10 else m - 2)
      in 365 * y' + y' div 4 - y' div 100 + y' div 400 + (153 * mp + 2) div 5 + d - 1 - 719468)"

text \<open>A day of the month outside the month carries into the neighbouring months, as the
  \<open>Date\<close> constructor and \<open>setHours\<close> do.\<close>

function normDay :: "int \<Rightarrow> int \<Rightarrow> int \<Rightarrow> int \<times> int \<times> int" where
  "normDay y m d =
     (if d < 1 then
        (let y' = (if m = 0 then y - 1 else y); m' = (if m = 0 then 11 else m - 1)
         in normDay y' m' (d + daysInMonth y' m'))
      else if d > daysInMonth y m then
        (let y' = (if m = 11 then y + 1 else y); m' = (if m = 11 then 0 else m + 1)
         in normDay y' m' (d - daysInMonth y m))
      else (y, m, d))"
  by pat_completeness auto
termination
  by (relation "measure (\<lambda>(y, m, d). if d < 1 then nat (1 - d) + 31 else nat d)")
     (auto simp: daysInMonth_def Let_def)

declare normDay.simps [simp del]

text \<open>\<open>new Date(year, monthIndex, day)\<close>: local midnight of that day. A year from 0 to
  99 means 1900 + year.\<close>

definition mkDate :: "int \<Rightarrow> int \<Rightarrow> int \<Rightarrow> jsdate" where
  "mkDate y m d =
     (let yr = (if 0 \<le> y \<and> y \<le> 99 then 1900 + y else y);
          (y', m', d') = normDay (yr + m div 12) (m mod 12) d
      in \<lparr>fullYear = y', monthIndex = m', dayOfMonth = d', msOfDay = 0\<rparr>)"

definition getDay :: "jsdate \<Rightarrow> int" where
  "getDay dt = (dayNumber (fullYear dt) (monthIndex dt) (dayOfMonth dt) + 4) mod 7"

definition timeValue :: "jsdate \<Rightarrow> int" where
  "timeValue dt =
     dayNumber (fullYear dt) (monthIndex dt) (dayOfMonth dt) * 86400000 + msOfDay dt"

definition date_lt :: "jsdate \<Rightarrow> jsdate \<Rightarrow> bool" where
  "date_lt a b = (timeValue a < timeValue b)"

text \<open>\<open>setHours(hours, minutes, 0, 0)\<close>: the time of day is replaced, counted from the
  local midnight of the date's own day; hours beyond 23 or minutes beyond 59 carry.\<close>

definition setHours :: "jsdate \<Rightarrow> int \<Rightarrow> int \<Rightarrow> jsdate" where
  "setHours dt h mi =
     (let t = h * 3600000 + mi * 60000;
          (y', m', d') = normDay (fullYear dt) (monthIndex dt) (dayOfMonth dt + t div 86400000)
      in \<lparr>fullYear = y', monthIndex = m', dayOfMonth = d', msOfDay = t mod 86400000\<rparr>)"

definition getHours :: "jsdate \<Rightarrow> int" where
  "getHours dt = msOfDay dt div 3600000"

definition getMinutes :: "jsdate \<Rightarrow> int" where
  "getMinutes dt = (msOfDay dt mod 3600000) div 60000"

section \<open>Special dates (datetimeHelper.js)\<close>

definition getThanksgiving :: "int \<Rightarrow> jsdate" where
  "getThanksgiving year =
     (let november = mkDate year 10 1;
          firstThursday = 4 - getDay november + (if getDay november = 0 then - 3 else 1)
      in mkDate year 10 (firstThursday + 21))"

text \<open>\<open>getNextThanksgiving\<close> reads the clock itself (\<open>now\<close>).\<close>

definition getNextThanksgiving :: "jsdate \<Rightarrow> int \<Rightarrow> jsdate" where
  "getNextThanksgiving now currentYear =
     (let thanksgiving = getThanksgiving currentYear
      in if date_lt thanksgiving now then getThanksgiving (currentYear + 1) else thanksgiving)"

definition getNextOccurrence :: "jsdate \<Rightarrow> int \<Rightarrow> int \<Rightarrow> jsdate" where
  "getNextOccurrence now month day =
     (let currentYear = fullYear now; date = mkDate currentYear month day
      in if date_lt date now then mkDate (currentYear + 1) month day else date)"

definition specialDates :: "jsdate \<Rightarrow> jsdate \<Rightarrow> (string \<times> jsdate) list" where
  "specialDates now now' =
     (let currentYear = fullYear now in
      [(''christmas'', getNextOccurrence now 11 25),
       (''new year'', mkDate (currentYear + 1) 0 1),
       (''new years'', mkDate (currentYear + 1) 0 1),
       (''halloween'', getNextOccurrence now 9 31),
       (''valentine'', getNextOccurrence now 1 14),
       (''valentines'', getNextOccurrence now 1 14),
       (''thanksgiving'', getNextThanksgiving now' currentYear)])"

text \<open>
  \<open>parseSpecialDates\<close> reads the clock (\<open>now\<close>), and \<open>getNextThanksgiving\<close> reads it
  again (\<open>now'\<close>). The result is the date, \<open>null\<close> (\<open>None\<close>), or the \<open>TypeError\<close> raised
  by \<open>result.toDateString()\<close> when the lookup finds an inherited member instead of a date.
\<close>

definition parseSpecialDates :: "jsdate \<Rightarrow> jsdate \<Rightarrow> string \<Rightarrow> string + jsdate option" where
  "parseSpecialDates now now' dateString =
     (let normalized = trim (toLowerCase dateString)
      in case obj_get (specialDates now now') normalized of
           Own result \<Rightarrow> Inr (Some result)
         | Inherited k \<Rightarrow> Inl ''result.toDateString is not a function''
         | Undefined \<Rightarrow> Inr None)"

text \<open>The rule the documentation of \<open>getThanksgiving\<close> states: the fourth Thursday of
  November is the one Thursday among 22..28 November.\<close>

definition isFourthThursdayOfNovember :: "int \<Rightarrow> jsdate \<Rightarrow> bool" where
  "isFourthThursdayOfNovember year dt =
     (fullYear dt = year \<and> monthIndex dt = 10 \<and> 22 \<le> dayOfMonth dt \<and> dayOfMonth dt \<le> 28
      \<and> getDay dt = 4)"

section \<open>Numbers and values of the unit converter\<close>

text \<open>
  A JavaScript number is an IEEE 754 binary64 value: a finite number, an infinity or
  \<open>NaN\<close>. \<open>Num r\<close> is the finite number of value \<open>r\<close>. Every arithmetic operation and every
  decimal literal yields the exact result rounded to the nearest binary64 value, ties to
  even, and a result beyond the largest finite value is an infinity. Negative zero is
  identified with zero: it differs from zero only in the sign of a quotient by it, and the
  converters never divide by a computed value. The binary64 values are among the rationals,
  so what is proved of \<open>Num x\<close> for every rational \<open>x\<close> holds of every finite number.
\<close>

datatype jsnum = Num rat | PosInf | NegInf | NaN

text \<open>The number of binary digits of a natural number.\<close>

fun bitLength :: "nat \<Rightarrow> nat" where
  "bitLength n = (if n = 0 then 0 else Suc (bitLength (n div 2)))"

declare bitLength.simps [simp del]

text \<open>The binary exponent of a non-zero number: the \<open>e\<close> with \<open>2^e \<le> |r| < 2^(e+1)\<close>
  (\<open>exponentOf_bounds\<close>).\<close>

definition exponentOf :: "rat \<Rightarrow> int" where
  "exponentOf r =
     (let a = \<bar>r\<bar>
      in if 1 \<le> a then int (bitLength (nat \<lfloor>a\<rfloor>)) - 1
         else - int (bitLength (nat (\<lceil>1 / a\<rceil> - 1))))"

definition roundHalfEven :: "rat \<Rightarrow> int" where
  "roundHalfEven x =
     (let f = \<lfloor>x\<rfloor>; d = x - of_int f
      in if d < 1 / 2 then f else if 1 / 2 < d then f + 1 else if even f then f else f + 1)"

text \<open>
  Rounding to binary64: a significand of 53 bits, so the spacing of the values around
  \<open>r\<close> is \<open>2^(e - 52)\<close>, with the exponent no smaller than -1022 (below, the subnormal
  numbers keep the spacing \<open>2^-1074\<close>). The rounded magnitude reaches \<open>2^1024\<close>, and the
  result is infinite, when the exponent is at least 1024 or the significand rounds up to
  \<open>2^53\<close> at exponent 1023.
\<close>

definition round64 :: "rat \<Rightarrow> jsnum" where
  "round64 r =
     (if r = 0 then Num 0
      else
        (let e = max (exponentOf r) (- 1022);
             q = 2 powi (e - 52);
             m = roundHalfEven (r / q)
         in if 1024 \<le> e \<or> (e = 1023 \<and> 2 ^ 53 \<le> \<bar>m\<bar>)
            then (if 0 < r then PosInf else NegInf)
            else Num (of_int m * q)))"

text \<open>A decimal literal of the source, such as \<open>0.3048\<close> or \<open>273.15\<close>.\<close>

definition lit :: "rat \<Rightarrow> jsnum" where
  "lit r = round64 r"

fun jsmul :: "jsnum \<Rightarrow> jsnum \<Rightarrow> jsnum" where
  "jsmul (Num a) (Num b) = round64 (a * b)"
| "jsmul NaN y = NaN"
| "jsmul x NaN = NaN"
| "jsmul (Num a) PosInf = (if a = 0 then NaN else if 0 < a then PosInf else NegInf)"
| "jsmul (Num a) NegInf = (if a = 0 then NaN else if 0 < a then NegInf else PosInf)"
| "jsmul PosInf (Num b) = (if b = 0 then NaN else if 0 < b then PosInf else NegInf)"
| "jsmul NegInf (Num b) = (if b = 0 then NaN else if 0 < b then NegInf else PosInf)"
| "jsmul PosInf PosInf = PosInf"
| "jsmul PosInf NegInf = NegInf"
| "jsmul NegInf PosInf = NegInf"
| "jsmul NegInf NegInf = PosInf"

fun jsdiv :: "jsnum \<Rightarrow> jsnum \<Rightarrow> jsnum" where
  "jsdiv (Num a) (Num b) =
     (if b = 0 then (if a = 0 then NaN else if 0 < a then PosInf else NegInf)
      else round64 (a / b))"
| "jsdiv NaN y = NaN"
| "jsdiv x NaN = NaN"
| "jsdiv (Num a) PosInf = Num 0"
| "jsdiv (Num a) NegInf = Num 0"
| "jsdiv PosInf (Num b) = (if 0 \<le> b then PosInf else NegInf)"
| "jsdiv NegInf (Num b) = (if 0 \<le> b then NegInf else PosInf)"
| "jsdiv PosInf PosInf = NaN"
| "jsdiv PosInf NegInf = NaN"
| "jsdiv NegInf PosInf = NaN"
| "jsdiv NegInf NegInf = NaN"

fun jsadd :: "jsnum \<Rightarrow> jsnum \<Rightarrow> jsnum" where
  "jsadd (Num a) (Num b) = round64 (a + b)"
| "jsadd NaN y = NaN"
| "jsadd x NaN = NaN"
| "jsadd PosInf NegInf = NaN"
| "jsadd NegInf PosInf = NaN"
| "jsadd PosInf y = PosInf"
| "jsadd NegInf y = NegInf"
| "jsadd x PosInf = PosInf"
| "jsadd x NegInf = NegInf"

fun jssub :: "jsnum \<Rightarrow> jsnum \<Rightarrow> jsnum" where
  "jssub (Num a) (Num b) = round64 (a - b)"
| "jssub NaN y = NaN"
| "jssub x NaN = NaN"
| "jssub PosInf PosInf = NaN"
| "jssub NegInf NegInf = NaN"
| "jssub PosInf y = PosInf"
| "jssub NegInf y = NegInf"
| "jssub x PosInf = NegInf"
| "jssub x NegInf = PosInf"

fun truthyNum :: "jsnum \<Rightarrow> bool" where
  "truthyNum (Num a) = (a \<noteq> 0)"
| "truthyNum PosInf = True"
| "truthyNum NegInf = True"
| "truthyNum NaN = False"

text \<open>A unit reaches the library as a string or, after \<open>normalizeUnit\<close> has looked up
  a name that every object inherits, as that inherited member of \<open>Object.prototype\<close>.\<close>

datatype jsval = Str string | Member string

text \<open>The string a value turns into as a property key and inside a template literal.\<close>

fun toKey :: "jsval \<Rightarrow> string" where
  "toKey (Str s) = s"
| "toKey (Member k) =
     (if k = ''__proto__'' then ''[object Object]''
      else if k = ''constructor'' then ''function Object() { [native code] }''
      else ''function '' @ k @ ''() { [native code] }'')"

fun truthyVal :: "jsval \<Rightarrow> bool" where
  "truthyVal (Str s) = (s \<noteq> [])"
| "truthyVal (Member k) = True"

fun truthyProp :: "'a property \<Rightarrow> bool" where
  "truthyProp (Own v) = True"
| "truthyProp (Inherited k) = True"
| "truthyProp Undefined = False"

text \<open>A template literal with numbers in it is kept as its pieces: text, a number
  printed as it is, and a number printed by \<open>toFixed\<close>.\<close>

datatype piece = Txt string | NumText jsnum | Fixed nat jsnum

section \<open>The conversion library (lib/convert-units.js)\<close>

text \<open>The tables hold the decimal literals as the source writes them; read as numbers
  they go through \<open>lit\<close>.\<close>

record unit_data =
  name :: string
  ratio :: "rat option"

definition conversions :: "(string \<times> (string \<times> unit_data) list) list" where
  "conversions =
     [(''length'',
        [(''m'', \<lparr>name = ''meter'', ratio = Some 1\<rparr>),
         (''km'', \<lparr>name = ''kilometer'', ratio = Some 1000\<rparr>),
         (''cm'', \<lparr>name = ''centimeter'', ratio = Some (1 / 100)\<rparr>),
         (''mm'', \<lparr>name = ''millimeter'', ratio = Some (1 / 1000)\<rparr>),
         (''in'', \<lparr>name = ''inch'', ratio = Some (254 / 10000)\<rparr>),
         (''ft'', \<lparr>name = ''foot'', ratio = Some (3048 / 10000)\<rparr>),
         (''yd'', \<lparr>name = ''yard'', ratio = Some (9144 / 10000)\<rparr>),
         (''mi'', \<lparr>name = ''mile'', ratio = Some (1609344 / 1000)\<rparr>)]),
      (''mass'',
        [(''g'', \<lparr>name = ''gram'', ratio = Some 1\<rparr>),
         (''kg'', \<lparr>name = ''kilogram'', ratio = Some 1000\<rparr>),
         (''lb'', \<lparr>name = ''pound'', ratio = Some (453592 / 1000)\<rparr>),
         (''oz'', \<lparr>name = ''ounce'', ratio = Some (283495 / 10000)\<rparr>),
         (''ton'', \<lparr>name = ''ton'', ratio = Some 1000000\<rparr>)]),
      (''volume'',
        [(''l'', \<lparr>name = ''liter'', ratio = Some 1\<rparr>),
         (''ml'', \<lparr>name = ''milliliter'', ratio = Some (1 / 1000)\<rparr>),
         (''gal'', \<lparr>name = ''gallon'', ratio = Some (378541 / 100000)\<rparr>),
         (''qt'', \<lparr>name = ''quart'', ratio = Some (946353 / 1000000)\<rparr>),
         (''pt'', \<lparr>name = ''pint'', ratio = Some (473176 / 1000000)\<rparr>),
         (''cup'', \<lparr>name = ''cup'', ratio = Some (236588 / 1000000)\<rparr>),
         (''fl-oz'', \<lparr>name = ''fluid ounce'', ratio = Some (295735 / 10000000)\<rparr>)]),
      (''temperature'',
        [(''C'', \<lparr>name = ''Celsius'', ratio = None\<rparr>),
         (''F'', \<lparr>name = ''Fahrenheit'', ratio = None\<rparr>),
         (''K'', \<lparr>name = ''Kelvin'', ratio = None\<rparr>),
         (''R'', \<lparr>name = ''Rankine'', ratio = None\<rparr>)]),
      (''time'',
        [(''s'', \<lparr>name = ''second'', ratio = Some 1\<rparr>),
         (''min'', \<lparr>name = ''minute'', ratio = Some 60\<rparr>),
         (''h'', \<lparr>name = ''hour'', ratio = Some 3600\<rparr>),
         (''d'', \<lparr>name = ''day'', ratio = Some 86400\<rparr>),
         (''week'', \<lparr>name = ''week'', ratio = Some 604800\<rparr>),
         (''month'', \<lparr>name = ''month'', ratio = Some 2629746\<rparr>),
         (''year'', \<lparr>name = ''year'', ratio = Some 31556952\<rparr>)]),
      (''area'',
        [(''m2'', \<lparr>name = ''square meter'', ratio = Some 1\<rparr>),
         (''km2'', \<lparr>name = ''square kilometer'', ratio = Some 1000000\<rparr>),
         (''cm2'', \<lparr>name = ''square centimeter'', ratio = Some (1 / 10000)\<rparr>),
         (''in2'', \<lparr>name = ''square inch'', ratio = Some (64516 / 100000000)\<rparr>),
         (''ft2'', \<lparr>name = ''square foot'', ratio = Some (92903 / 1000000)\<rparr>),
         (''yd2'', \<lparr>name = ''square yard'', ratio = Some (836127 / 1000000)\<rparr>),
         (''mi2'', \<lparr>name = ''square mile'', ratio = Some (258998811 / 100)\<rparr>),
         (''acre'', \<lparr>name = ''acre'', ratio = Some (404686 / 100)\<rparr>),
         (''hectare'', \<lparr>name = ''hectare'', ratio = Some 10000\<rparr>)])]"

text \<open>\<open>celsius\<close> of \<open>convertTemperature\<close>: the first \<open>switch\<close>.\<close>

definition toCelsius :: "jsnum \<Rightarrow> jsval \<Rightarrow> string + jsnum" where
  "toCelsius v from =
     (if from = Str ''C'' then Inr v
      else if from = Str ''F'' then Inr (jsdiv (jsmul (jssub v (Num 32)) (Num 5)) (Num 9))
      else if from = Str ''K'' then Inr (jssub v (lit (27315 / 100)))
      else if from = Str ''R'' then
        Inr (jsdiv (jsmul (jssub v (lit (49167 / 100))) (Num 5)) (Num 9))
      else Inl (''Unknown temperature unit: '' @ toKey from))"

definition convertTemperature :: "jsnum \<Rightarrow> jsval \<Rightarrow> jsval \<Rightarrow> string + jsnum" where
  "convertTemperature v from to =
     (if from = to then Inr v
      else case toCelsius v from of
        Inl e \<Rightarrow> Inl e
      | Inr celsius \<Rightarrow>
          if to = Str ''C'' then Inr celsius
          else if to = Str ''F'' then Inr (jsadd (jsdiv (jsmul celsius (Num 9)) (Num 5)) (Num 32))
          else if to = Str ''K'' then Inr (jsadd celsius (lit (27315 / 100)))
          else if to = Str ''R'' then
            Inr (jsadd (jsdiv (jsmul celsius (Num 9)) (Num 5)) (lit (49167 / 100)))
          else Inl (''Unknown temperature unit: '' @ toKey to))"

fun findMeasureIn :: "(string \<times> (string \<times> unit_data) list) list \<Rightarrow> jsval \<Rightarrow> string option" where
  "findMeasureIn [] u = None"
| "findMeasureIn ((m, units) # rest) u =
     (if truthyProp (obj_get units (toKey u)) then Some m else findMeasureIn rest u)"

definition findMeasure :: "jsval \<Rightarrow> string option" where
  "findMeasure u = findMeasureIn conversions u"

text \<open>\<open>data.ratio\<close> as an operand: the number the table's decimal literal denotes for
  an own entry; \<open>undefined\<close>, hence \<open>NaN\<close>, where the entry has no ratio or is an
  inherited member.\<close>

fun ratioOf :: "unit_data property \<Rightarrow> jsnum" where
  "ratioOf (Own d) = (case ratio d of Some r \<Rightarrow> lit r | None \<Rightarrow> NaN)"
| "ratioOf _ = NaN"

text \<open>\<open>convert(value).from(fromUnit).to(toUnit)\<close>; \<open>Inl\<close> is the message of the error
  thrown.\<close>

definition convert_to :: "jsnum \<Rightarrow> jsval \<Rightarrow> jsval \<Rightarrow> string + jsnum" where
  "convert_to value fromUnit toUnit =
     (let this_value = (if truthyNum value then value else Num 0) in
      if \<not> truthyVal fromUnit then Inl ''Must specify from unit before to unit''
      else case findMeasure fromUnit of
        None \<Rightarrow> Inl (''Unknown unit: '' @ toKey fromUnit)
      | Some m \<Rightarrow>
          if m = ''temperature'' then convertTemperature this_value fromUnit toUnit
          else (case map_of conversions m of
             None \<Rightarrow> Inl ''Cannot read properties of undefined''
           | Some units \<Rightarrow>
               (let fromData = obj_get units (toKey fromUnit);
                    toData = obj_get units (toKey toUnit)
                in if \<not> truthyProp fromData \<or> \<not> truthyProp toData then
                     Inl (''Cannot convert from '' @ toKey fromUnit @ '' to '' @ toKey toUnit)
                   else Inr (jsdiv (jsmul this_value (ratioOf fromData)) (ratioOf toData)))))"

record description =
  measureName :: string
  unitName :: jsval
  data :: "unit_data option"

definition describe :: "jsval \<Rightarrow> description option" where
  "describe u =
     (case findMeasure u of
        None \<Rightarrow> None
      | Some m \<Rightarrow>
          (case map_of conversions m of
             None \<Rightarrow> None
           | Some units \<Rightarrow>
               Some \<lparr>measureName = m, unitName = u,
                     data = (case obj_get units (toKey u) of Own d \<Rightarrow> Some d | _ \<Rightarrow> None)\<rparr>))"

section \<open>The unit converter (unitConverter.js)\<close>

text \<open>\<open>convert_loaded\<close> says whether \<open>window.convert\<close> was there when the converter was
  constructed.\<close>

definition canConvert :: "bool \<Rightarrow> jsval \<Rightarrow> jsval \<Rightarrow> bool" where
  "canConvert convert_loaded fromUnit toUnit =
     (if \<not> convert_loaded then False
      else case (describe fromUnit, describe toUnit) of
        (Some fromMeasure, Some toMeasure) \<Rightarrow> measureName fromMeasure = measureName toMeasure
      | _ \<Rightarrow> False)"

datatype unit_result =
    UnitSuccess jsnum jsnum jsval jsval "piece list"
  | UnitFailure string jsnum jsval jsval
  | UnitRejected string string "jsnum \<times> jsval \<times> jsval"
  | UnitUnparsed string string

fun success :: "unit_result \<Rightarrow> bool" where
  "success (UnitSuccess result fromValue fromUnit toUnit formatted) = True"
| "success _ = False"

text \<open>\<open>convertUnits\<close> throws (\<open>Inl\<close>) when the library is missing and otherwise returns
  a result object.\<close>

definition convertUnits :: "bool \<Rightarrow> jsnum \<Rightarrow> jsval \<Rightarrow> jsval \<Rightarrow> string + unit_result" where
  "convertUnits convert_loaded value fromUnit toUnit =
     (if \<not> convert_loaded then Inl ''Convert-units library not loaded''
      else case convert_to value fromUnit toUnit of
        Inr result \<Rightarrow>
          Inr (UnitSuccess result value fromUnit toUnit
                 [NumText value, Txt '' '', Txt (toKey fromUnit), Txt '' = '', Fixed 6 result,
                  Txt '' '', Txt (toKey toUnit)])
      | Inl message \<Rightarrow> Inr (UnitFailure message value fromUnit toUnit))"

definition tempMappings :: "(string \<times> string) list" where
  "tempMappings =
     [(CHR 0xB0 # ''c'', ''C''), (''celsius'', ''C''), (''c'', ''C''),
      (CHR 0xB0 # ''f'', ''F''), (''fahrenheit'', ''F''), (''f'', ''F''),
      (CHR 0xB0 # ''k'', ''K''), (''kelvin'', ''K''), (''k'', ''K'')]"

text \<open>\<open>table[key] || unit\<close>: the own entry, an inherited member (truthy), or the unit
  itself.\<close>

definition lookupOr :: "(string \<times> string) list \<Rightarrow> string \<Rightarrow> string \<Rightarrow> jsval" where
  "lookupOr table key u =
     (case obj_get table key of
        Own v \<Rightarrow> if v = [] then Str u else Str v
      | Inherited k \<Rightarrow> Member k
      | Undefined \<Rightarrow> Str u)"

definition normalizeTemperatureUnit :: "string \<Rightarrow> jsval" where
  "normalizeTemperatureUnit u = lookupOr tempMappings (toLowerCase u) u"

definition unitMappings :: "(string \<times> string) list" where
  "unitMappings =
     [(''meter'', ''m''), (''meters'', ''m''), (''metre'', ''m''), (''metres'', ''m''),
      (''kilometer'', ''km''), (''kilometers'', ''km''), (''kilometre'', ''km''),
      (''kilometres'', ''km''), (''mile'', ''mi''), (''miles'', ''mi''), (''foot'', ''ft''),
      (''feet'', ''ft''), (''inch'', ''in''), (''inches'', ''in''), (''yard'', ''yd''),
      (''yards'', ''yd''),
      (''kilogram'', ''kg''), (''kilograms'', ''kg''), (''gram'', ''g''), (''grams'', ''g''),
      (''pound'', ''lb''), (''pounds'', ''lb''), (''ounce'', ''oz''), (''ounces'', ''oz''),
      (''liter'', ''l''), (''liters'', ''l''), (''litre'', ''l''), (''litres'', ''l''),
      (''gallon'', ''gal''), (''gallons'', ''gal''), (''cup'', ''cup''), (''cups'', ''cup''),
      (''celsius'', ''C''), (''fahrenheit'', ''F''), (''kelvin'', ''K'')]"

definition normalizeUnit :: "string \<Rightarrow> jsval" where
  "normalizeUnit u =
     (let tempUnit = normalizeTemperatureUnit u
      in if tempUnit \<noteq> Str u then tempUnit else lookupOr unitMappings (toLowerCase u) u)"

text \<open>
  \<open>handleConversion\<close>, given what \<open>parseConversionQuery\<close> returned for the query
  (\<open>None\<close> for \<open>null\<close>, otherwise the value and the two unit tokens matched by the
  regular expressions).
\<close>

definition handleConversion ::
  "bool \<Rightarrow> (jsnum \<times> string \<times> string) option \<Rightarrow> string \<Rightarrow> string + unit_result" where
  "handleConversion convert_loaded parsed query =
     (case parsed of
        None \<Rightarrow> Inr (UnitUnparsed ''Could not parse unit conversion from query'' query)
      | Some (value, parsedFrom, parsedTo) \<Rightarrow>
          (let fromUnit = normalizeUnit parsedFrom; toUnit = normalizeUnit parsedTo
           in if \<not> canConvert convert_loaded fromUnit toUnit then
                Inr (UnitRejected
                       (''Cannot convert from '' @ toKey fromUnit @ '' to '' @ toKey toUnit
                          @ ''. Units may be incompatible or not supported.'')
                       query (value, fromUnit, toUnit))
              else convertUnits convert_loaded value fromUnit toUnit))"

section \<open>The currency converter (currencyConverter.js)\<close>

text \<open>
  The converter's state: the rate cache, the clock read by \<open>Date.now()\<close> (milliseconds)
  and, to make the effects of a call visible, the trace of cache accesses and fetches.
\<close>

record cache_entry =
  rate :: jsnum
  timestamp :: int

datatype event = CacheGet string | CacheSet string | Fetch string

record converter =
  cache :: "string \<rightharpoonup> cache_entry"
  clock :: int
  trace :: "event list"

text \<open>
  What the rate service answers when a fetch is issued: the fetch or the reading of the
  body fails with a message, the response is not \<open>ok\<close>, or the body is parsed; \<open>Body None\<close>
  is a body without \<open>rates\<close>, and the rates of a body are numbers. The answer arrives
  \<open>latency\<close> milliseconds after the request.
\<close>

datatype fetch_outcome =
    Rejected string
  | HttpError nat string
  | Body "(string \<times> jsnum) list option"

record response =
  latency :: nat
  outcome :: fetch_outcome

definition apiBaseUrl :: string where
  "apiBaseUrl = ''https://api.exchangerate-api.com/v4/latest''"

definition cacheTimeout :: int where
  "cacheTimeout = 10 * 60 * 1000"

fun showNat :: "nat \<Rightarrow> string" where
  "showNat n =
     (if n < 10 then [char_of (48 + n)] else showNat (n div 10) @ [char_of (48 + n mod 10)])"

declare showNat.simps [simp del]

definition fallbackRates :: "(string \<times> rat) list" where
  "fallbackRates =
     [(''USD-EUR'', 85 / 100), (''EUR-USD'', 118 / 100), (''USD-GBP'', 73 / 100),
      (''GBP-USD'', 137 / 100), (''USD-JPY'', 110), (''JPY-USD'', 9 / 1000),
      (''EUR-GBP'', 86 / 100), (''GBP-EUR'', 116 / 100), (''USD-CAD'', 125 / 100),
      (''CAD-USD'', 80 / 100), (''USD-AUD'', 135 / 100), (''AUD-USD'', 74 / 100)]"

text \<open>The keys looked up in \<open>fallbackRates\<close> and in the rates of a response are upper
  case, and no inherited member has an upper-case name (\<open>toUpperCase_not_inherited\<close>
  and \<open>fallback_key_not_inherited\<close> below), so these two lookups see own entries only.\<close>

definition getFallbackRate :: "string \<Rightarrow> string \<Rightarrow> jsnum option" where
  "getFallbackRate fromCurrency toCurrency =
     (let from = toUpperCase fromCurrency; to = toUpperCase toCurrency;
          key = from @ ''-'' @ to
      in case map_of fallbackRates key of
           Some r \<Rightarrow> if truthyNum (lit r) then Some (lit r) else None
         | None \<Rightarrow> None)"

text \<open>The \<open>try\<close> block of \<open>getExchangeRate\<close> once the response is there: the rate, or
  the message of the error thrown.\<close>

definition fetchedRate :: "fetch_outcome \<Rightarrow> string \<Rightarrow> string \<Rightarrow> string + jsnum" where
  "fetchedRate out fromCurrency toCurrency =
     (let unavailable =
            ''Exchange rate not available for '' @ fromCurrency @ '' to '' @ toCurrency
      in case out of
           Rejected message \<Rightarrow> Inl message
         | HttpError status statusText \<Rightarrow> Inl (''HTTP '' @ showNat status @ '': '' @ statusText)
         | Body None \<Rightarrow> Inl unavailable
         | Body (Some rates) \<Rightarrow>
             (case map_of rates (toUpperCase toCurrency) of
                Some r \<Rightarrow> if truthyNum r then Inr r else Inl unavailable
              | None \<Rightarrow> Inl unavailable))"

definition cacheKeyOf :: "string \<Rightarrow> string \<Rightarrow> string" where
  "cacheKeyOf fromCurrency toCurrency = toLowerCase fromCurrency @ ''-'' @ toLowerCase toCurrency"

text \<open>\<open>getExchangeRate\<close>, with the response the service gives if this call fetches.
  \<open>Inl\<close> is the message of the error thrown.\<close>

definition getExchangeRate ::
  "response \<Rightarrow> string \<Rightarrow> string \<Rightarrow> converter \<Rightarrow> (string + jsnum) \<times> converter" where
  "getExchangeRate resp fromCurrency toCurrency s =
     (let cacheKey = cacheKeyOf fromCurrency toCurrency;
          s1 = s\<lparr>trace := trace s @ [CacheGet cacheKey]\<rparr>;
          hit = (case cache s cacheKey of
                   Some cached \<Rightarrow>
                     if clock s - timestamp cached < cacheTimeout then Some (rate cached)
                     else None
                 | None \<Rightarrow> None)
      in case hit of
           Some r \<Rightarrow> (Inr r, s1)
         | None \<Rightarrow>
             (let s2 = s1\<lparr>trace := trace s1 @ [Fetch (apiBaseUrl @ ''/'' @ toUpperCase fromCurrency)],
                         clock := clock s1 + int (latency resp)\<rparr>
              in case fetchedRate (outcome resp) fromCurrency toCurrency of
                   Inr r \<Rightarrow>
                     (Inr r,
                      s2\<lparr>cache := (cache s2)(cacheKey \<mapsto> \<lparr>rate = r, timestamp = clock s2\<rparr>),
                         trace := trace s2 @ [CacheSet cacheKey]\<rparr>)
                 | Inl message \<Rightarrow>
                     (case getFallbackRate fromCurrency toCurrency of
                        Some fallbackRate \<Rightarrow> (Inr fallbackRate, s2)
                      | None \<Rightarrow> (Inl message, s2))))"

text \<open>The result objects of \<open>convertCurrency\<close>: on success \<open>result\<close>, \<open>rate\<close>,
  \<open>fromAmount\<close>, \<open>fromCurrency\<close>, \<open>toCurrency\<close>, \<open>formatted\<close> and, except for the
  same-currency answer, \<open>timestamp\<close>; on failure \<open>error\<close>, \<open>fromAmount\<close>,
  \<open>fromCurrency\<close>, \<open>toCurrency\<close>.\<close>

datatype currency_result =
    CurrencySuccess jsnum jsnum jsnum string string "piece list" "int option"
  | CurrencyFailure string jsnum string string

definition convertCurrency ::
  "response \<Rightarrow> jsnum \<Rightarrow> string \<Rightarrow> string \<Rightarrow> converter \<Rightarrow> currency_result \<times> converter" where
  "convertCurrency resp amount fromCurrency toCurrency s =
     (if toLowerCase fromCurrency = toLowerCase toCurrency then
        (CurrencySuccess amount (Num 1) amount (toUpperCase fromCurrency) (toUpperCase toCurrency)
           [NumText amount, Txt '' '', Txt (toUpperCase fromCurrency), Txt '' = '',
            NumText amount, Txt '' '', Txt (toUpperCase toCurrency)]
           None,
         s)
      else case getExchangeRate resp fromCurrency toCurrency s of
        (Inr r, s') \<Rightarrow>
          (let result = jsmul amount r
           in (CurrencySuccess result r amount (toUpperCase fromCurrency) (toUpperCase toCurrency)
                 [NumText amount, Txt '' '', Txt (toUpperCase fromCurrency), Txt '' = '',
                  Fixed 2 result, Txt '' '', Txt (toUpperCase toCurrency)]
                 (Some (clock s')),
               s'))
      | (Inl message, s') \<Rightarrow> (CurrencyFailure message amount fromCurrency toCurrency, s'))"

section \<open>The timezone branch of handleDateTimeRequest (datetimeHelper.js)\<close>

text \<open>
  The match of \<open>/(\d{1,2})(?::(\d{2}))?\s*(AM|PM)?/i\<close> at the start of a string: one or
  two digits, then optionally a colon and two digits, then any white space, then
  optionally AM or PM in any letter case. Every part after the first digit is optional, so
  the greedy choices always succeed. The result holds the three groups.
\<close>

fun timePartsAt :: "string \<Rightarrow> (string \<times> string option \<times> string option) option" where
  "timePartsAt [] = None"
| "timePartsAt (c # cs) =
     (if \<not> isDigit c then None
      else
        (let (g1, r1) = (case cs of
                           d # ds \<Rightarrow> if isDigit d then ([c, d], ds) else ([c], cs)
                         | [] \<Rightarrow> ([c], []));
             (g2, r2) = (case r1 of
                           x # m1 # m2 # r \<Rightarrow>
                             if x = CHR '':'' \<and> isDigit m1 \<and> isDigit m2 then (Some [m1, m2], r)
                             else (None, r1)
                         | _ \<Rightarrow> (None, r1));
             r3 = dropWhile isSpace r2;
             g3 = (case r3 of
                     p # q # _ \<Rightarrow>
                       if toUpperCase [p, q] = ''AM'' \<or> toUpperCase [p, q] = ''PM''
                       then Some [p, q] else None
                   | _ \<Rightarrow> None)
         in Some (g1, g2, g3)))"

text \<open>\<open>timeStr.match(...)\<close>: the match at the leftmost position that has one.\<close>

fun timeParts :: "string \<Rightarrow> (string \<times> string option \<times> string option) option" where
  "timeParts [] = None"
| "timeParts (c # cs) =
     (case timePartsAt (c # cs) of Some groups \<Rightarrow> Some groups | None \<Rightarrow> timeParts cs)"

text \<open>\<open>parseInt\<close> of a string of decimal digits.\<close>

definition parseInt :: "string \<Rightarrow> nat" where
  "parseInt ds = foldl (\<lambda>n c. 10 * n + (of_char c - 48)) 0 ds"

text \<open>The two \<open>if\<close> statements on \<open>period\<close> and \<open>hours\<close>, in their order.\<close>

definition hours24 :: "string option \<Rightarrow> nat \<Rightarrow> nat" where
  "hours24 period hours =
     (let hours1 = (if period = Some ''PM'' \<and> hours \<noteq> 12 then hours + 12 else hours)
      in if period = Some ''AM'' \<and> hours1 = 12 then 0 else hours1)"

text \<open>\<open>todayWithTime\<close> as it is passed on: \<open>today\<close> is the value of \<open>new Date()\<close>.\<close>

definition todayWithTime :: "jsdate \<Rightarrow> string \<Rightarrow> jsdate" where
  "todayWithTime today time =
     (let timeStr = time @ (if CHR ''M'' \<in> set time then [] else '' PM'')
      in case timeParts timeStr of
           None \<Rightarrow> today
         | Some (g1, g2, g3) \<Rightarrow>
             (let hours = parseInt g1;
                  minutes = parseInt (case g2 of Some m \<Rightarrow> m | None \<Rightarrow> ''0'');
                  period = map_option toUpperCase g3
              in setHours today (int (hours24 period hours)) (int minutes)))"

text \<open>The \<open>timezone\<close> case of the \<open>switch\<close>; \<open>convertTimezone\<close> stands for the method of
  that name, which formats the instant with the platform's time zone data.\<close>

definition handleDateTimeRequest_timezone ::
  "(jsdate \<Rightarrow> string \<Rightarrow> string \<Rightarrow> 'r) \<Rightarrow> jsdate \<Rightarrow> string \<Rightarrow> string \<Rightarrow> string \<Rightarrow> 'r" where
  "handleDateTimeRequest_timezone convertTimezone today time fromTimezone toTimezone =
     convertTimezone (todayWithTime today time) fromTimezone toTimezone"

section \<open>The agent's conversation history (agent.js)\<close>

record message =
  role :: string
  parts_text :: string

record agent =
  conversationHistory :: "message list"

definition newAgent :: agent where
  "newAgent = \<lparr>conversationHistory = []\<rparr>"

text \<open>
  The three awaited steps of \<open>processQuery\<close> call the language model and the tools; each
  returns a value or throws (\<open>Inl\<close> the error's message). The analysis and the final
  response receive the conversation history as context.
\<close>

record ('an, 'tr) steps =
  analyzeQuery :: "string \<Rightarrow> message list \<Rightarrow> string + 'an"
  executeToolCalls :: "string \<Rightarrow> 'an \<Rightarrow> string + 'tr"
  generateFinalResponse :: "string \<Rightarrow> 'tr \<Rightarrow> message list \<Rightarrow> string + string"

datatype ('an, 'tr) query_result =
    QuerySuccess string 'an 'tr string
  | QueryFailure string string string

definition queryFailure :: "string \<Rightarrow> string \<Rightarrow> ('an, 'tr) query_result" where
  "queryFailure userQuery message =
     QueryFailure userQuery message
       (''I encountered an error processing your request: '' @ message)"

definition processQuery ::
  "('an, 'tr) steps \<Rightarrow> string \<Rightarrow> agent \<Rightarrow> ('an, 'tr) query_result \<times> agent" where
  "processQuery env userQuery a =
     (case analyzeQuery env userQuery (conversationHistory a) of
        Inl e \<Rightarrow> (queryFailure userQuery e, a)
      | Inr analysis \<Rightarrow>
          (case executeToolCalls env userQuery analysis of
             Inl e \<Rightarrow> (queryFailure userQuery e, a)
           | Inr toolResults \<Rightarrow>
               (case generateFinalResponse env userQuery toolResults (conversationHistory a) of
                  Inl e \<Rightarrow> (queryFailure userQuery e, a)
                | Inr finalResponse \<Rightarrow>
                    (let pushed = conversationHistory a
                           @ [\<lparr>role = ''user'', parts_text = userQuery\<rparr>,
                              \<lparr>role = ''model'', parts_text = finalResponse\<rparr>];
                         kept = (if length pushed > 10 then drop (length pushed - 10) pushed
                                 else pushed)
                     in (QuerySuccess userQuery analysis toolResults finalResponse,
                         a\<lparr>conversationHistory := kept\<rparr>)))))"

text \<open>A session: calls of \<open>processQuery\<close> one after the other, each with the answers
  its steps get.\<close>

definition processQueries :: "(('an, 'tr) steps \<times> string) list \<Rightarrow> agent \<Rightarrow> agent" where
  "processQueries calls a = foldl (\<lambda>a (env, q). snd (processQuery env q a)) a calls"

text \<open>The entries a call appends: the exchange of a successful cycle, nothing otherwise.\<close>

definition exchangeOf :: "('an, 'tr) steps \<Rightarrow> string \<Rightarrow> agent \<Rightarrow> message list" where
  "exchangeOf env q a =
     (case fst (processQuery env q a) of
        QuerySuccess userQuery analysis toolResults finalResponse \<Rightarrow>
          [\<lparr>role = ''user'', parts_text = userQuery\<rparr>,
           \<lparr>role = ''model'', parts_text = finalResponse\<rparr>]
      | QueryFailure userQuery e m \<Rightarrow> [])"

fun transcript :: "(('an, 'tr) steps \<times> string) list \<Rightarrow> agent \<Rightarrow> message list" where
  "transcript [] a = []"
| "transcript ((env, q) # calls) a =
     exchangeOf env q a @ transcript calls (snd (processQuery env q a))"

text \<open>The exchanges appended in a session, one list of two entries per successful
  cycle.\<close>

fun exchanges :: "(('an, 'tr) steps \<times> string) list \<Rightarrow> agent \<Rightarrow> message list list" where
  "exchanges [] a = []"
| "exchanges ((env, q) # calls) a =
     (if exchangeOf env q a = [] then [] else [exchangeOf env q a])
       @ exchanges calls (snd (processQuery env q a))"

definition lastN :: "nat \<Rightarrow> 'a list \<Rightarrow> 'a list" where
  "lastN n xs = drop (length xs - n) xs"

section \<open>Properties of the date model\<close>

lemma normDay_in_month:
  "1 \<le> d \<Longrightarrow> d \<le> daysInMonth y m \<Longrightarrow> normDay y m d = (y, m, d)"
  by (simp add: normDay.simps)

lemma mkDate_november:
  "1 \<le> d \<Longrightarrow> d \<le> 30 \<Longrightarrow>
   mkDate y 10 d = \<lparr>fullYear = (if 0 \<le> y \<and> y \<le> 99 then 1900 + y else y),
                    monthIndex = 10, dayOfMonth = d, msOfDay = 0\<rparr>"
  by (simp add: mkDate_def daysInMonth_def normDay_in_month)

lemma dayNumber_shift: "dayNumber y m d = dayNumber y m 1 + d - 1"
  by (simp add: dayNumber_def Let_def)

lemma getDay_range: "0 \<le> getDay dt \<and> getDay dt < 7"
  by (simp add: getDay_def)

lemma getThanksgiving_date:
  "getThanksgiving y =
     mkDate y 10 (if getDay (mkDate y 10 1) = 0 then 22 else 26 - getDay (mkDate y 10 1))"
  by (simp add: getThanksgiving_def Let_def)

lemma mod7_shift: "((a::int) + d - 1 + 4) mod 7 = ((a + 4) mod 7 + d - 1) mod 7"
proof -
  have "((a + 4) mod 7 + (d - 1)) mod 7 = (a + 4 + (d - 1)) mod 7"
    by (rule mod_add_left_eq)
  then show ?thesis by (simp add: algebra_simps)
qed

lemma getDay_november:
  assumes "1 \<le> d" "d \<le> 30"
  shows "getDay (mkDate y 10 d) = (getDay (mkDate y 10 1) + d - 1) mod 7"
proof -
  define yr where "yr = (if 0 \<le> y \<and> y \<le> 99 then 1900 + y else y)"
  have m: "mkDate y 10 k = \<lparr>fullYear = yr, monthIndex = 10, dayOfMonth = k, msOfDay = 0\<rparr>"
    if "1 \<le> k" "k \<le> 30" for k
    unfolding yr_def using that by (rule mkDate_november)
  have "getDay (mkDate y 10 d) = (dayNumber yr 10 d + 4) mod 7"
    using assms by (simp add: m getDay_def)
  then have 1: "getDay (mkDate y 10 d) = (dayNumber yr 10 1 + d - 1 + 4) mod 7"
    by (simp only: dayNumber_shift [of yr 10 d])
  have 2: "getDay (mkDate y 10 1) = (dayNumber yr 10 1 + 4) mod 7"
    by (simp add: m getDay_def)
  show ?thesis unfolding 1 2 by (rule mod7_shift)
qed

lemma getThanksgiving_fourth_thursday_iff:
  "isFourthThursdayOfNovember (if 0 \<le> y \<and> y \<le> 99 then 1900 + y else y) (getThanksgiving y)
   \<longleftrightarrow> getDay (mkDate y 10 1) \<in> {1, 2, 3, 4}"
proof -
  define w where "w = getDay (mkDate y 10 1)"
  have th: "getThanksgiving y = mkDate y 10 (if w = 0 then 22 else 26 - w)"
    unfolding w_def by (rule getThanksgiving_date)
  have gd: "getDay (mkDate y 10 d) = (w + d - 1) mod 7" if "1 \<le> d" "d \<le> 30" for d
    unfolding w_def using that by (rule getDay_november)
  have fl: "fullYear (mkDate y 10 d) = (if 0 \<le> y \<and> y \<le> 99 then 1900 + y else y)
            \<and> monthIndex (mkDate y 10 d) = 10 \<and> dayOfMonth (mkDate y 10 d) = d"
    if "1 \<le> d" "d \<le> 30" for d
    using that by (simp add: mkDate_november)
  have r: "0 \<le> w" "w < 7" using getDay_range [of "mkDate y 10 1"] by (simp_all add: w_def)
  then consider "w = 0" | "w = 1" | "w = 2" | "w = 3" | "w = 4" | "w = 5" | "w = 6" by linarith
  then have "isFourthThursdayOfNovember (if 0 \<le> y \<and> y \<le> 99 then 1900 + y else y)
               (getThanksgiving y) \<longleftrightarrow> w \<in> {1, 2, 3, 4}"
    by cases (simp_all add: th gd fl isFourthThursdayOfNovember_def)
  then show ?thesis by (simp add: w_def)
qed

lemma mkDate_january_first:
  "mkDate y 0 1 = \<lparr>fullYear = (if 0 \<le> y \<and> y \<le> 99 then 1900 + y else y),
                    monthIndex = 0, dayOfMonth = 1, msOfDay = 0\<rparr>"
  by (simp add: mkDate_def daysInMonth_def normDay_in_month)

lemma getDay_known_dates:
  "getDay (mkDate 1970 0 1) = 4" "getDay (mkDate 1900 0 1) = 1" "getDay (mkDate 2000 0 1) = 6"
  "getDay (mkDate 2024 1 29) = 4" "getDay (mkDate 2024 10 1) = 5" "getDay (mkDate 2026 10 2) = 1"
  by code_simp+

lemma mkDate_carries:
  "mkDate 2024 1 30 = \<lparr>fullYear = 2024, monthIndex = 2, dayOfMonth = 1, msOfDay = 0\<rparr>"
  "mkDate 2023 11 32 = \<lparr>fullYear = 2024, monthIndex = 0, dayOfMonth = 1, msOfDay = 0\<rparr>"
  "mkDate 2024 0 0 = \<lparr>fullYear = 2023, monthIndex = 11, dayOfMonth = 31, msOfDay = 0\<rparr>"
  "mkDate 2023 14 1 = \<lparr>fullYear = 2024, monthIndex = 2, dayOfMonth = 1, msOfDay = 0\<rparr>"
  by code_simp+

lemma getThanksgiving_other_years:
  "getThanksgiving 2023 = \<lparr>fullYear = 2023, monthIndex = 10, dayOfMonth = 23, msOfDay = 0\<rparr>"
  "getThanksgiving 2025 = \<lparr>fullYear = 2025, monthIndex = 10, dayOfMonth = 20, msOfDay = 0\<rparr>"
  "getThanksgiving 2026 = \<lparr>fullYear = 2026, monthIndex = 10, dayOfMonth = 22, msOfDay = 0\<rparr>"
  "getDay (getThanksgiving 2026) = 0"
  by code_simp+

section \<open>Thanksgiving\<close>

text \<open>
  C1. The claim: for every year, \<open>getThanksgiving\<close> returns the fourth Thursday of
  November, a Thursday from 22 to 28 November. The code does so exactly in the years whose
  1 November falls on a Monday, Tuesday, Wednesday or Thursday
  (\<open>getThanksgiving_fourth_thursday_iff\<close>). In 2024, where 1 November is a Friday, it
  returns 21 November, the third Thursday; the fourth is 28 November. The special date
  \<open>thanksgiving\<close> resolved on 1 June 2024 is that same 21 November. For 2025 the code
  gives 20 November and for 2026 the 22nd, a Sunday (\<open>getThanksgiving_other_years\<close>).
\<close>

theorem getThanksgiving_2024:
  "getThanksgiving 2024 = \<lparr>fullYear = 2024, monthIndex = 10, dayOfMonth = 21, msOfDay = 0\<rparr>
   \<and> \<not> isFourthThursdayOfNovember 2024 (getThanksgiving 2024)
   \<and> isFourthThursdayOfNovember 2024 (mkDate 2024 10 28)
   \<and> parseSpecialDates (mkDate 2024 5 1) (mkDate 2024 5 1) ''thanksgiving''
       = Inr (Some \<lparr>fullYear = 2024, monthIndex = 10, dayOfMonth = 21, msOfDay = 0\<rparr>)"
  by code_simp

section \<open>New year\<close>

text \<open>
  C5. Whatever the clock reads, the special date \<open>new year\<close> or \<open>new years\<close> (in any
  letter case, with surrounding blanks) resolves to local midnight of 1 January of a year
  strictly after the current one, and that year is the current year plus one. (The \<open>Date\<close>
  constructor reads a year argument from 0 to 99 as 1900 + year, so for a clock in the
  years -1 to 98 the resolved year is 1900 more; it is still strictly later.)
\<close>

theorem new_year_is_next_january_first:
  assumes "trim (toLowerCase s) = ''new year'' \<or> trim (toLowerCase s) = ''new years''"
  shows "\<exists>d. parseSpecialDates now now' s = Inr (Some d)
           \<and> fullYear now < fullYear d \<and> monthIndex d = 0 \<and> dayOfMonth d = 1 \<and> msOfDay d = 0
           \<and> (fullYear now < - 1 \<or> 98 < fullYear now \<longrightarrow> fullYear d = fullYear now + 1)"
  using assms
  by (auto simp add: parseSpecialDates_def specialDates_def obj_get_def Let_def mkDate_january_first)

theorem new_year_is_next_january_first_witness:
  "\<exists>d. parseSpecialDates \<lparr>fullYear = 2026, monthIndex = 10, dayOfMonth = 2, msOfDay = 0\<rparr>
          \<lparr>fullYear = 2026, monthIndex = 10, dayOfMonth = 2, msOfDay = 1\<rparr> '' New Years''
          = Inr (Some d)
        \<and> 2026 < fullYear d \<and> monthIndex d = 0 \<and> dayOfMonth d = 1 \<and> msOfDay d = 0
        \<and> fullYear d = 2027"
proof -
  have h: "trim (toLowerCase '' New Years'') = ''new year''
           \<or> trim (toLowerCase '' New Years'') = ''new years''"
    by code_simp
  show ?thesis
    using new_year_is_next_january_first [OF h,
        of "\<lparr>fullYear = 2026, monthIndex = 10, dayOfMonth = 2, msOfDay = 0\<rparr>"
           "\<lparr>fullYear = 2026, monthIndex = 10, dayOfMonth = 2, msOfDay = 1\<rparr>"]
    by simp
qed

section \<open>Properties of rounding\<close>

text \<open>
  The binary exponent brackets its argument, rounding to the nearest integer is off by at
  most a half, and so rounding to binary64 is off by at most half the spacing of the values
  around the argument: at most \<open>2^(n - 54)\<close> below \<open>2^n\<close> in magnitude, and at most the
  fraction \<open>2^-53\<close> of the magnitude beside the \<open>2^-1075\<close> of the subnormal range.
  \<open>round64_eqI\<close> computes a rounding from its exponent and significand.
\<close>

lemma bitLength_bounds:
  "0 < n \<Longrightarrow> 2 ^ (bitLength n - 1) \<le> n \<and> n < 2 ^ bitLength n"
proof (induction n rule: bitLength.induct)
  case (1 n)
  show ?case
  proof (cases "n div 2 = 0")
    case True
    with 1(2) have n: "n = 1" by (auto simp add: div_eq_0_iff)
    have "bitLength (Suc 0) = Suc 0"
      by (simp add: bitLength.simps [of "Suc 0"] bitLength.simps [of 0])
    then show ?thesis by (simp add: n)
  next
    case False
    then have ih: "2 ^ (bitLength (n div 2) - 1) \<le> n div 2" "n div 2 < 2 ^ bitLength (n div 2)"
      using 1 by auto
    have pos: "0 < bitLength (n div 2)"
      using False by (simp add: bitLength.simps [of "n div 2"])
    have bl: "bitLength n = Suc (bitLength (n div 2))"
      using 1(2) by (simp add: bitLength.simps [of n])
    have "(2::nat) ^ bitLength (n div 2) = 2 * 2 ^ (bitLength (n div 2) - 1)"
      using pos by (cases "bitLength (n div 2)") simp_all
    then have "(2::nat) ^ bitLength (n div 2) \<le> 2 * (n div 2)" using ih(1) by simp
    then have lo: "(2::nat) ^ bitLength (n div 2) \<le> n" by linarith
    have hi: "n < 2 * 2 ^ bitLength (n div 2)" using ih(2) by linarith
    show ?thesis using lo hi by (simp add: bl)
  qed
qed

lemma bitLength_pos: "0 < n \<Longrightarrow> 0 < bitLength n"
  by (simp add: bitLength.simps [of n])

lemma bitLength_rat:
  assumes "0 < n"
  shows "(2::rat) ^ (bitLength n - 1) \<le> rat_of_nat n" "rat_of_nat n + 1 \<le> (2::rat) ^ bitLength n"
proof -
  have b: "2 ^ (bitLength n - 1) \<le> n" "n + 1 \<le> 2 ^ bitLength n"
    using bitLength_bounds [OF assms] by simp_all
  show "(2::rat) ^ (bitLength n - 1) \<le> rat_of_nat n"
    using of_nat_mono [OF b(1), where ?'a = rat] unfolding of_nat_power of_nat_numeral .
  show "rat_of_nat n + 1 \<le> (2::rat) ^ bitLength n"
    using of_nat_mono [OF b(2), where ?'a = rat]
    unfolding of_nat_power of_nat_numeral of_nat_add of_nat_1 .
qed

lemma powi_pred:
  assumes "0 < k"
  shows "(2::rat) powi (int k - 1) = 2 ^ (k - 1)"
proof -
  have "int k - 1 = int (k - 1)" using assms by simp
  then show ?thesis by (simp only: power_int_of_nat)
qed

lemma powi_neg: "(2::rat) powi (- int k) = 1 / 2 ^ k"
  by (simp only: power_int_minus_divide power_int_of_nat)

lemma powi_neg_succ:
  assumes "0 < k"
  shows "(2::rat) powi (- int k + 1) = 1 / 2 ^ (k - 1)"
proof -
  have "- int k + 1 = - int (k - 1)" using assms by simp
  then show ?thesis by (simp only: powi_neg)
qed

lemma exponent_ge1:
  assumes "1 \<le> (a::rat)"
  shows "2 powi (int (bitLength (nat \<lfloor>a\<rfloor>)) - 1) \<le> a"
    "a < 2 powi (int (bitLength (nat \<lfloor>a\<rfloor>)) - 1 + 1)"
proof -
  define n where "n = nat \<lfloor>a\<rfloor>"
  have fa: "1 \<le> \<lfloor>a\<rfloor>" using assms by linarith
  then have n1: "0 < n" by (simp add: n_def)
  have ni: "rat_of_nat n = rat_of_int \<lfloor>a\<rfloor>"
    using fa by (simp add: n_def)
  have fl: "rat_of_nat n \<le> a" "a < rat_of_nat n + 1"
    unfolding ni by linarith+
  show "2 powi (int (bitLength n) - 1) \<le> a"
    unfolding powi_pred [OF bitLength_pos [OF n1]]
    using bitLength_rat(1) [OF n1] fl(1) by (rule order_trans)
  have "int (bitLength n) - 1 + 1 = int (bitLength n)" by simp
  then have p: "(2::rat) powi (int (bitLength n) - 1 + 1) = 2 ^ bitLength n"
    by (simp only: power_int_of_nat)
  show "a < 2 powi (int (bitLength n) - 1 + 1)"
    unfolding p using fl(2) bitLength_rat(2) [OF n1] by (rule less_le_trans)
qed

lemma exponent_lt1:
  assumes "0 < (a::rat)" "a < 1"
  shows "2 powi (- int (bitLength (nat (\<lceil>1 / a\<rceil> - 1)))) \<le> a"
    "a < 2 powi (- int (bitLength (nat (\<lceil>1 / a\<rceil> - 1))) + 1)"
proof -
  define b where "b = 1 / a"
  have b1: "1 < b" using assms by (simp add: b_def)
  define m where "m = nat (\<lceil>b\<rceil> - 1)"
  have cb: "2 \<le> \<lceil>b\<rceil>" using b1 by linarith
  have m1: "0 < m" using cb by (simp add: m_def)
  have mi: "rat_of_nat m = rat_of_int \<lceil>b\<rceil> - 1" using cb by (simp add: m_def)
  have mlt: "rat_of_nat m < b" unfolding mi by linarith
  have ble: "b \<le> rat_of_nat m + 1" unfolding mi by linarith
  have bhi: "b \<le> (2::rat) ^ bitLength m"
    using ble bitLength_rat(2) [OF m1] by (rule order_trans)
  have blo: "(2::rat) ^ (bitLength m - 1) < b"
    using bitLength_rat(1) [OF m1] mlt by (rule le_less_trans)
  have ab: "a = 1 / b" using assms by (simp add: b_def)
  have bpos: "0 < b" using b1 by simp
  have p0: "0 < (2::rat) ^ (bitLength m - 1)" by simp
  show "2 powi (- int (bitLength m)) \<le> a"
    unfolding powi_neg ab using bhi bpos by (intro divide_left_mono) simp_all
  show "a < 2 powi (- int (bitLength m) + 1)"
    unfolding powi_neg_succ [OF bitLength_pos [OF m1]] ab
    using blo p0 bpos by (intro divide_strict_left_mono mult_pos_pos) simp_all
qed

lemma exponentOf_bounds:
  assumes "r \<noteq> 0"
  shows "2 powi exponentOf r \<le> \<bar>r\<bar>" "\<bar>r\<bar> < 2 powi (exponentOf r + 1)"
proof -
  have apos: "0 < \<bar>r\<bar>" using assms by simp
  show "2 powi exponentOf r \<le> \<bar>r\<bar>"
  proof (cases "1 \<le> \<bar>r\<bar>")
    case True
    then show ?thesis using exponent_ge1(1) [OF True] by (simp add: exponentOf_def)
  next
    case False
    then have "\<bar>r\<bar> < 1" by simp
    from exponent_lt1(1) [OF apos this] show ?thesis using False by (simp add: exponentOf_def)
  qed
  show "\<bar>r\<bar> < 2 powi (exponentOf r + 1)"
  proof (cases "1 \<le> \<bar>r\<bar>")
    case True
    then show ?thesis using exponent_ge1(2) [OF True] by (simp add: exponentOf_def)
  next
    case False
    then have "\<bar>r\<bar> < 1" by simp
    from exponent_lt1(2) [OF apos this] show ?thesis using False by (simp add: exponentOf_def)
  qed
qed

lemma powi2_less_imp: "(2::rat) powi a < 2 powi b \<Longrightarrow> a < b"
proof (rule ccontr)
  assume l: "(2::rat) powi a < 2 powi b" and "\<not> a < b"
  then have "b \<le> a" by simp
  then have "(2::rat) powi b \<le> 2 powi a" by (intro power_int_increasing) simp_all
  with l show False by simp
qed

lemma exponentOf_eqI:
  assumes "2 powi e \<le> \<bar>r\<bar>" "\<bar>r\<bar> < 2 powi (e + 1)"
  shows "exponentOf r = e"
proof -
  have "0 < (2::rat) powi e" by simp
  then have "0 < \<bar>r\<bar>" using assms(1) by (rule less_le_trans)
  then have r: "r \<noteq> 0" by simp
  note b = exponentOf_bounds [OF r]
  have "(2::rat) powi e < 2 powi (exponentOf r + 1)" using assms(1) b(2) by simp
  then have 1: "e < exponentOf r + 1" by (rule powi2_less_imp)
  have "(2::rat) powi exponentOf r < 2 powi (e + 1)" using assms(2) b(1) by simp
  then have 2: "exponentOf r < e + 1" by (rule powi2_less_imp)
  from 1 2 show ?thesis by simp
qed

lemma roundHalfEven_error: "\<bar>of_int (roundHalfEven x) - x\<bar> \<le> 1 / 2"
proof -
  have "of_int \<lfloor>x\<rfloor> \<le> x" "x < of_int \<lfloor>x\<rfloor> + 1" by linarith+
  then show ?thesis by (auto simp add: roundHalfEven_def Let_def)
qed

lemma roundHalfEven_eqI:
  assumes "\<bar>x - of_int m\<bar> < 1 / 2"
  shows "roundHalfEven x = m"
proof -
  have f: "of_int \<lfloor>x\<rfloor> \<le> x" "x < of_int \<lfloor>x\<rfloor> + 1" by linarith+
  have "\<lfloor>x\<rfloor> = m \<or> \<lfloor>x\<rfloor> = m - 1"
  proof -
    have "rat_of_int m - 1 < x" "x < rat_of_int m + 1" using assms by linarith+
    then have "m - 1 \<le> \<lfloor>x\<rfloor>" "\<lfloor>x\<rfloor> \<le> m" by linarith+
    then show ?thesis by linarith
  qed
  then show ?thesis
  proof
    assume e: "\<lfloor>x\<rfloor> = m"
    have "x - of_int \<lfloor>x\<rfloor> < 1 / 2" unfolding e using assms by linarith
    then show ?thesis by (simp add: roundHalfEven_def Let_def e)
  next
    assume e: "\<lfloor>x\<rfloor> = m - 1"
    have "rat_of_int (m - 1) = rat_of_int m - 1" by simp
    then have "1 / 2 < x - of_int \<lfloor>x\<rfloor>" unfolding e using assms by linarith
    then show ?thesis by (simp add: roundHalfEven_def Let_def e)
  qed
qed

lemma round64_eqI:
  assumes "2 powi e \<le> \<bar>r\<bar>" "\<bar>r\<bar> < 2 powi (e + 1)" "- 1022 \<le> e" "e \<le> 1022"
    and "\<bar>r / 2 powi (e - 52) - of_int m\<bar> < 1 / 2"
    and "v = of_int m * 2 powi (e - 52)"
  shows "round64 r = Num v"
proof -
  have "0 < (2::rat) powi e" by simp
  then have "0 < \<bar>r\<bar>" using assms(1) by (rule less_le_trans)
  then have r: "r \<noteq> 0" by simp
  have ex: "exponentOf r = e" using assms(1,2) by (rule exponentOf_eqI)
  have mx: "max e (- 1022) = e" using assms(3) by simp
  have rh: "roundHalfEven (r / 2 powi (e - 52)) = m" using assms(5) by (rule roundHalfEven_eqI)
  show ?thesis
    using r assms(4) by (simp add: round64_def ex mx rh Let_def assms(6))
qed

lemma round64_error:
  assumes "r \<noteq> 0" "exponentOf r \<le> 1022"
  shows "\<exists>d. round64 r = Num (r + d) \<and> \<bar>d\<bar> \<le> 2 powi (max (exponentOf r) (- 1022) - 53)"
proof -
  define e where "e = max (exponentOf r) (- 1022)"
  define q where "q = (2::rat) powi (e - 52)"
  define m where "m = roundHalfEven (r / q)"
  have qpos: "0 < q" by (simp add: q_def)
  have e: "e \<le> 1022" using assms(2) by (simp add: e_def)
  have v: "round64 r = Num (of_int m * q)"
    using assms(1) e by (simp add: round64_def Let_def flip: e_def q_def m_def)
  have "\<bar>of_int m - r / q\<bar> \<le> 1 / 2" unfolding m_def by (rule roundHalfEven_error)
  then have "\<bar>of_int m - r / q\<bar> * q \<le> 1 / 2 * q"
    using qpos by (intro mult_right_mono) simp_all
  moreover have "\<bar>of_int m - r / q\<bar> * q = \<bar>of_int m * q - r\<bar>"
  proof -
    have "\<bar>of_int m - r / q\<bar> * q = \<bar>(of_int m - r / q) * q\<bar>"
      using qpos by (simp add: abs_mult)
    also have "(of_int m - r / q) * q = of_int m * q - r"
      using qpos by (simp add: algebra_simps)
    finally show ?thesis .
  qed
  moreover have "1 / 2 * q = 2 powi (e - 53)"
  proof -
    have "(2::rat) powi (e - 52) = 2 powi (e - 53 + 1)" by simp
    also have "\<dots> = 2 powi (e - 53) * 2" by (rule power_int_add_1) simp
    finally show ?thesis by (simp add: q_def)
  qed
  ultimately have d: "\<bar>of_int m * q - r\<bar> \<le> 2 powi (e - 53)" by simp
  have "round64 r = Num (r + (of_int m * q - r))" using v by simp
  with d show ?thesis unfolding e_def by blast
qed

lemma round64_error_abs:
  assumes "\<bar>r\<bar> < 2 ^ n" "n \<le> 1023"
  shows "\<exists>d. round64 r = Num (r + d) \<and> \<bar>d\<bar> \<le> 2 ^ n / 2 ^ 54"
proof (cases "r = 0")
  case True
  then show ?thesis by (simp add: round64_def)
next
  case False
  have "(2::rat) powi exponentOf r \<le> \<bar>r\<bar>" using False by (rule exponentOf_bounds)
  also have "\<bar>r\<bar> < 2 powi (int n)" using assms(1) by simp
  finally have "exponentOf r < int n" by (rule powi2_less_imp)
  then have ex: "exponentOf r \<le> int n - 1" by simp
  then have "exponentOf r \<le> 1022" using assms(2) by simp
  from round64_error [OF False this] obtain d where
    d: "round64 r = Num (r + d)" "\<bar>d\<bar> \<le> 2 powi (max (exponentOf r) (- 1022) - 53)"
    by blast
  have "max (exponentOf r) (- 1022) - 53 \<le> int n - 54" using ex by simp
  then have "(2::rat) powi (max (exponentOf r) (- 1022) - 53) \<le> 2 powi (int n - 54)"
    by (intro power_int_increasing) simp_all
  also have "(2::rat) powi (int n - 54) = 2 powi (int n) * 2 powi (- 54)"
    using power_int_add [of "2::rat" "int n" "- 54"] by simp
  also have "\<dots> = 2 ^ n / 2 ^ 54"
    by (simp add: power_int_minus_divide)
  finally show ?thesis using d by (intro exI [of _ d]) simp
qed

lemma round64_error_rel:
  assumes "\<bar>r\<bar> < 2 ^ 1023"
  shows "\<exists>d. round64 r = Num (r + d) \<and> \<bar>d\<bar> \<le> \<bar>r\<bar> / 2 ^ 53 + 1 / 2 ^ 1075"
proof (cases "r = 0")
  case True
  then show ?thesis by (simp add: round64_def)
next
  case False
  note b = exponentOf_bounds(1) [OF False]
  have "(2::rat) powi exponentOf r \<le> \<bar>r\<bar>" by (rule b)
  also have "\<bar>r\<bar> < 2 powi 1023" using assms by simp
  finally have "exponentOf r < 1023" by (rule powi2_less_imp)
  then have "exponentOf r \<le> 1022" by simp
  from round64_error [OF False this] obtain d where
    d: "round64 r = Num (r + d)" "\<bar>d\<bar> \<le> 2 powi (max (exponentOf r) (- 1022) - 53)"
    by blast
  have "(2::rat) powi (max (exponentOf r) (- 1022) - 53) \<le> \<bar>r\<bar> / 2 ^ 53 + 1 / 2 ^ 1075"
  proof (cases "- 1022 \<le> exponentOf r")
    case True
    then have "max (exponentOf r) (- 1022) - 53 = exponentOf r + (- 53)" by simp
    then have "(2::rat) powi (max (exponentOf r) (- 1022) - 53) = 2 powi exponentOf r * 2 powi (- 53)"
      using power_int_add [of "2::rat" "exponentOf r" "- 53"] by simp
    also have "\<dots> = 2 powi exponentOf r / 2 ^ 53" by (simp add: power_int_minus_divide)
    also have "\<dots> \<le> \<bar>r\<bar> / 2 ^ 53" using b by (intro divide_right_mono) simp_all
    finally show ?thesis by simp
  next
    case False
    then have "max (exponentOf r) (- 1022) - 53 = - 1075" by simp
    then have "(2::rat) powi (max (exponentOf r) (- 1022) - 53) = 1 / 2 ^ 1075"
      by (simp add: power_int_minus_divide)
    then show ?thesis by simp
  qed
  with d show ?thesis by (intro exI [of _ d]) simp
qed

section \<open>Unit conversion\<close>

lemma table_sound:
  "list_all (\<lambda>(m, units). map_of conversions m = Some units \<and>
       list_all (\<lambda>(u, d). u \<noteq> [] \<and> findMeasure (Str u) = Some m \<and> obj_get units u = Own d) units)
     conversions"
  by code_simp

lemma ratios_in_range:
  "list_all (\<lambda>(m, units). m = ''temperature'' \<or>
       list_all (\<lambda>(u, d). case ratio d of Some r \<Rightarrow> 1 / 16384 \<le> r \<and> r \<le> 33554432 | None \<Rightarrow> False)
         units)
     conversions"
  by code_simp

lemma temperature_units:
  "map_of conversions ''temperature'' = Some units \<Longrightarrow> map fst units = [''C'', ''F'', ''K'', ''R'']"
  by (auto simp add: conversions_def)

lemma unit_in_table:
  assumes "(m, units) \<in> set conversions" "(u, d) \<in> set units"
  shows "map_of conversions m = Some units" "u \<noteq> []" "findMeasure (Str u) = Some m"
        "obj_get units u = Own d"
  using assms table_sound by (auto simp add: list_all_iff)

lemma unit_ratio:
  assumes "(m, units) \<in> set conversions" "(u, d) \<in> set units" "m \<noteq> ''temperature''"
  shows "\<exists>r. ratio d = Some r \<and> 1 / 16384 \<le> r \<and> r \<le> 33554432"
proof -
  have "case ratio d of Some r \<Rightarrow> 1 / 16384 \<le> r \<and> r \<le> 33554432 | None \<Rightarrow> False"
    using assms ratios_in_range unfolding list_all_iff by blast
  then show ?thesis by (cases "ratio d") simp_all
qed

lemma this_value_Num: "(if truthyNum (Num x) then Num x else Num 0) = Num x"
  by simp

lemma convert_to_ratio:
  assumes "(m, units) \<in> set conversions" "(A, dA) \<in> set units" "(B, dB) \<in> set units"
    and "m \<noteq> ''temperature''"
  shows "\<exists>qA qB. ratio dA = Some qA \<and> ratio dB = Some qB
           \<and> 1 / 16384 \<le> qA \<and> qA \<le> 33554432 \<and> 1 / 16384 \<le> qB \<and> qB \<le> 33554432
           \<and> convert_to (Num x) (Str A) (Str B) = Inr (jsdiv (jsmul (Num x) (lit qA)) (lit qB))"
proof -
  obtain qA where qA: "ratio dA = Some qA" "1 / 16384 \<le> qA" "qA \<le> 33554432"
    using unit_ratio [OF assms(1,2,4)] by blast
  obtain qB where qB: "ratio dB = Some qB" "1 / 16384 \<le> qB" "qB \<le> 33554432"
    using unit_ratio [OF assms(1,3,4)] by blast
  have "convert_to (Num x) (Str A) (Str B) = Inr (jsdiv (jsmul (Num x) (lit qA)) (lit qB))"
    unfolding convert_to_def this_value_Num Let_def
    using unit_in_table [OF assms(1,2)] unit_in_table(4) [OF assms(1,3)] assms(4) qA(1) qB(1)
    by simp
  with qA qB show ?thesis by blast
qed

lemma describe_table_unit:
  assumes "(m, units) \<in> set conversions" "(u, d) \<in> set units"
  shows "describe (Str u) = Some \<lparr>measureName = m, unitName = Str u, data = Some d\<rparr>"
  using unit_in_table [OF assms] by (simp add: describe_def)

lemma convert_to_temperature:
  assumes "findMeasure from = Some ''temperature''"
  shows "convert_to v from to =
           convertTemperature (if truthyNum v then v else Num 0) from to"
proof -
  have "truthyVal from"
    using assms by (cases "from") (auto simp add: findMeasure_def conversions_def obj_get_def
        object_prototype_keys_def)
  then show ?thesis using assms by (simp add: convert_to_def)
qed

text \<open>The operations on finite numbers, and the two literals of the temperature formulas.\<close>

lemma jssub_NumI: "round64 (a - b) = c \<Longrightarrow> jssub (Num a) (Num b) = c"
  by simp
lemma jsadd_NumI: "round64 (a + b) = c \<Longrightarrow> jsadd (Num a) (Num b) = c"
  by simp
lemma jsmul_NumI: "round64 (a * b) = c \<Longrightarrow> jsmul (Num a) (Num b) = c"
  by simp
lemma jsdiv_NumI: "b \<noteq> 0 \<Longrightarrow> round64 (a / b) = c \<Longrightarrow> jsdiv (Num a) (Num b) = c"
  by simp

lemma lit_kelvin: "lit (27315 / 100) = Num (2402652809016115 / 8796093022208)"
  unfolding lit_def
  by (rule round64_eqI [where e = 8 and m = 4805305618032230]) (simp_all add: power_int_minus_divide)

lemma lit_rankine: "lit (49167 / 100) = Num (8649550112458015 / 17592186044416)"
  unfolding lit_def
  by (rule round64_eqI [where e = 8 and m = 8649550112458015]) (simp_all add: power_int_minus_divide)

lemma convertTemperature_C_F:
  "convertTemperature v (Str ''C'') (Str ''F'') = Inr (jsadd (jsdiv (jsmul (v) (Num 9)) (Num 5)) (Num 32))"
  by (simp add: convertTemperature_def toCelsius_def)

lemma convertTemperature_C_K:
  "convertTemperature v (Str ''C'') (Str ''K'') = Inr (jsadd (v) (lit (27315 / 100)))"
  by (simp add: convertTemperature_def toCelsius_def)

lemma convertTemperature_C_R:
  "convertTemperature v (Str ''C'') (Str ''R'') = Inr (jsadd (jsdiv (jsmul (v) (Num 9)) (Num 5)) (lit (49167 / 100)))"
  by (simp add: convertTemperature_def toCelsius_def)

lemma convertTemperature_F_C:
  "convertTemperature v (Str ''F'') (Str ''C'') = Inr (jsdiv (jsmul (jssub (v) (Num 32)) (Num 5)) (Num 9))"
  by (simp add: convertTemperature_def toCelsius_def)

lemma convertTemperature_F_K:
  "convertTemperature v (Str ''F'') (Str ''K'') = Inr (jsadd (jsdiv (jsmul (jssub (v) (Num 32)) (Num 5)) (Num 9)) (lit (27315 / 100)))"
  by (simp add: convertTemperature_def toCelsius_def)

lemma convertTemperature_F_R:
  "convertTemperature v (Str ''F'') (Str ''R'') = Inr (jsadd (jsdiv (jsmul (jsdiv (jsmul (jssub (v) (Num 32)) (Num 5)) (Num 9)) (Num 9)) (Num 5)) (lit (49167 / 100)))"
  by (simp add: convertTemperature_def toCelsius_def)

lemma convertTemperature_K_C:
  "convertTemperature v (Str ''K'') (Str ''C'') = Inr (jssub (v) (lit (27315 / 100)))"
  by (simp add: convertTemperature_def toCelsius_def)

lemma convertTemperature_K_F:
  "convertTemperature v (Str ''K'') (Str ''F'') = Inr (jsadd (jsdiv (jsmul (jssub (v) (lit (27315 / 100))) (Num 9)) (Num 5)) (Num 32))"
  by (simp add: convertTemperature_def toCelsius_def)

lemma convertTemperature_K_R:
  "convertTemperature v (Str ''K'') (Str ''R'') = Inr (jsadd (jsdiv (jsmul (jssub (v) (lit (27315 / 100))) (Num 9)) (Num 5)) (lit (49167 / 100)))"
  by (simp add: convertTemperature_def toCelsius_def)

lemma convertTemperature_R_C:
  "convertTemperature v (Str ''R'') (Str ''C'') = Inr (jsdiv (jsmul (jssub (v) (lit (49167 / 100))) (Num 5)) (Num 9))"
  by (simp add: convertTemperature_def toCelsius_def)

lemma convertTemperature_R_F:
  "convertTemperature v (Str ''R'') (Str ''F'') = Inr (jsadd (jsdiv (jsmul (jsdiv (jsmul (jssub (v) (lit (49167 / 100))) (Num 5)) (Num 9)) (Num 9)) (Num 5)) (Num 32))"
  by (simp add: convertTemperature_def toCelsius_def)

lemma convertTemperature_R_K:
  "convertTemperature v (Str ''R'') (Str ''K'') = Inr (jsadd (jsdiv (jsmul (jssub (v) (lit (49167 / 100))) (Num 5)) (Num 9)) (lit (27315 / 100)))"
  by (simp add: convertTemperature_def toCelsius_def)

lemma round_trip_C_F:
  assumes "\<bar>x\<bar> \<le> 1000000"
  shows "\<exists>y z. convertTemperature (Num x) (Str ''C'') (Str ''F'') = Inr (Num y)
           \<and> convertTemperature (Num y) (Str ''F'') (Str ''C'') = Inr (Num z)
           \<and> \<bar>z - x\<bar> \<le> 1 / 10 ^ 9"
proof -
  have m1: "\<bar>x * 9\<bar> < 16777216" using assms by linarith
  obtain d1 where d1: "round64 (x * 9) = Num (x * 9 + d1)" "\<bar>d1\<bar> \<le> 1 / 1073741824"
    using round64_error_abs [of "x * 9" 24] m1 by auto
  define v1 where "v1 = x * 9 + d1"
  have s1: "jsmul (Num x) (Num 9) = Num v1"
    unfolding v1_def by (rule jsmul_NumI) (rule d1(1))
  have e1: "\<bar>v1 - (9 * x)\<bar> \<le> 1 / 1073741824"
    using d1(2) unfolding v1_def by linarith
  have m2: "\<bar>v1 / 5\<bar> < 2097152" using e1 assms by linarith
  obtain d2 where d2: "round64 (v1 / 5) = Num (v1 / 5 + d2)" "\<bar>d2\<bar> \<le> 1 / 8589934592"
    using round64_error_abs [of "v1 / 5" 21] m2 by auto
  define v2 where "v2 = v1 / 5 + d2"
  have s2: "jsdiv (Num v1) (Num 5) = Num v2"
    unfolding v2_def by (rule jsdiv_NumI) (simp, rule d2(1))
  have e2: "\<bar>v2 - (9 / 5 * x)\<bar> \<le> 13 / 42949672960"
    using d2(2) e1 unfolding v2_def by linarith
  have m3: "\<bar>v2 + 32\<bar> < 2097152" using e2 assms by linarith
  obtain d3 where d3: "round64 (v2 + 32) = Num (v2 + 32 + d3)" "\<bar>d3\<bar> \<le> 1 / 8589934592"
    using round64_error_abs [of "v2 + 32" 21] m3 by auto
  define v3 where "v3 = v2 + 32 + d3"
  have s3: "jsadd (Num v2) (Num 32) = Num v3"
    unfolding v3_def by (rule jsadd_NumI) (rule d3(1))
  have e3: "\<bar>v3 - (9 / 5 * x + 32)\<bar> \<le> 9 / 21474836480"
    using d3(2) e2 unfolding v3_def by linarith
  have m4: "\<bar>v3 - 32\<bar> < 2097152" using e3 assms by linarith
  obtain d4 where d4: "round64 (v3 - 32) = Num (v3 - 32 + d4)" "\<bar>d4\<bar> \<le> 1 / 8589934592"
    using round64_error_abs [of "v3 - 32" 21] m4 by auto
  define v4 where "v4 = v3 - 32 + d4"
  have s4: "jssub (Num v3) (Num 32) = Num v4"
    unfolding v4_def by (rule jssub_NumI) (rule d4(1))
  have e4: "\<bar>v4 - (9 / 5 * x)\<bar> \<le> 23 / 42949672960"
    using d4(2) e3 unfolding v4_def by linarith
  have m5: "\<bar>v4 * 5\<bar> < 16777216" using e4 assms by linarith
  obtain d5 where d5: "round64 (v4 * 5) = Num (v4 * 5 + d5)" "\<bar>d5\<bar> \<le> 1 / 1073741824"
    using round64_error_abs [of "v4 * 5" 24] m5 by auto
  define v5 where "v5 = v4 * 5 + d5"
  have s5: "jsmul (Num v4) (Num 5) = Num v5"
    unfolding v5_def by (rule jsmul_NumI) (rule d5(1))
  have e5: "\<bar>v5 - (9 * x)\<bar> \<le> 31 / 8589934592"
    using d5(2) e4 unfolding v5_def by linarith
  have m6: "\<bar>v5 / 9\<bar> < 1048576" using e5 assms by linarith
  obtain d6 where d6: "round64 (v5 / 9) = Num (v5 / 9 + d6)" "\<bar>d6\<bar> \<le> 1 / 17179869184"
    using round64_error_abs [of "v5 / 9" 20] m6 by auto
  define v6 where "v6 = v5 / 9 + d6"
  have s6: "jsdiv (Num v5) (Num 9) = Num v6"
    unfolding v6_def by (rule jsdiv_NumI) (simp, rule d6(1))
  have e6: "\<bar>v6 - (x)\<bar> \<le> 71 / 154618822656"
    using d6(2) e5 unfolding v6_def by linarith
  have fwd: "convertTemperature (Num x) (Str ''C'') (Str ''F'') = Inr (Num v3)"
    by (simp only: convertTemperature_C_F s1 s2 s3)
  have bwd: "convertTemperature (Num v3) (Str ''F'') (Str ''C'') = Inr (Num v6)"
    by (simp only: convertTemperature_F_C s4 s5 s6)
  have "\<bar>v6 - x\<bar> \<le> 1 / 10 ^ 9" using e6 by simp
  with fwd bwd show ?thesis by blast
qed

lemma round_trip_C_K:
  assumes "\<bar>x\<bar> \<le> 1000000"
  shows "\<exists>y z. convertTemperature (Num x) (Str ''C'') (Str ''K'') = Inr (Num y)
           \<and> convertTemperature (Num y) (Str ''K'') (Str ''C'') = Inr (Num z)
           \<and> \<bar>z - x\<bar> \<le> 1 / 10 ^ 9"
proof -
  have m1: "\<bar>x + (2402652809016115 / 8796093022208)\<bar> < 1048576" using assms by linarith
  obtain d1 where d1: "round64 (x + (2402652809016115 / 8796093022208)) = Num (x + (2402652809016115 / 8796093022208) + d1)" "\<bar>d1\<bar> \<le> 1 / 17179869184"
    using round64_error_abs [of "x + (2402652809016115 / 8796093022208)" 20] m1 by auto
  define v1 where "v1 = x + (2402652809016115 / 8796093022208) + d1"
  have s1: "jsadd (Num x) (lit (27315 / 100)) = Num v1"
    unfolding v1_def lit_kelvin by (rule jsadd_NumI) (rule d1(1))
  have e1: "\<bar>v1 - (x + 2402652809016115 / 8796093022208)\<bar> \<le> 1 / 17179869184"
    using d1(2) unfolding v1_def by linarith
  have m2: "\<bar>v1 - (2402652809016115 / 8796093022208)\<bar> < 1048576" using e1 assms by linarith
  obtain d2 where d2: "round64 (v1 - (2402652809016115 / 8796093022208)) = Num (v1 - (2402652809016115 / 8796093022208) + d2)" "\<bar>d2\<bar> \<le> 1 / 17179869184"
    using round64_error_abs [of "v1 - (2402652809016115 / 8796093022208)" 20] m2 by auto
  define v2 where "v2 = v1 - (2402652809016115 / 8796093022208) + d2"
  have s2: "jssub (Num v1) (lit (27315 / 100)) = Num v2"
    unfolding v2_def lit_kelvin by (rule jssub_NumI) (rule d2(1))
  have e2: "\<bar>v2 - (x)\<bar> \<le> 1 / 8589934592"
    using d2(2) e1 unfolding v2_def by linarith
  have fwd: "convertTemperature (Num x) (Str ''C'') (Str ''K'') = Inr (Num v1)"
    by (simp only: convertTemperature_C_K s1)
  have bwd: "convertTemperature (Num v1) (Str ''K'') (Str ''C'') = Inr (Num v2)"
    by (simp only: convertTemperature_K_C s2)
  have "\<bar>v2 - x\<bar> \<le> 1 / 10 ^ 9" using e2 by simp
  with fwd bwd show ?thesis by blast
qed

lemma round_trip_C_R:
  assumes "\<bar>x\<bar> \<le> 1000000"
  shows "\<exists>y z. convertTemperature (Num x) (Str ''C'') (Str ''R'') = Inr (Num y)
           \<and> convertTemperature (Num y) (Str ''R'') (Str ''C'') = Inr (Num z)
           \<and> \<bar>z - x\<bar> \<le> 1 / 10 ^ 9"
proof -
  have m1: "\<bar>x * 9\<bar> < 16777216" using assms by linarith
  obtain d1 where d1: "round64 (x * 9) = Num (x * 9 + d1)" "\<bar>d1\<bar> \<le> 1 / 1073741824"
    using round64_error_abs [of "x * 9" 24] m1 by auto
  define v1 where "v1 = x * 9 + d1"
  have s1: "jsmul (Num x) (Num 9) = Num v1"
    unfolding v1_def by (rule jsmul_NumI) (rule d1(1))
  have e1: "\<bar>v1 - (9 * x)\<bar> \<le> 1 / 1073741824"
    using d1(2) unfolding v1_def by linarith
  have m2: "\<bar>v1 / 5\<bar> < 2097152" using e1 assms by linarith
  obtain d2 where d2: "round64 (v1 / 5) = Num (v1 / 5 + d2)" "\<bar>d2\<bar> \<le> 1 / 8589934592"
    using round64_error_abs [of "v1 / 5" 21] m2 by auto
  define v2 where "v2 = v1 / 5 + d2"
  have s2: "jsdiv (Num v1) (Num 5) = Num v2"
    unfolding v2_def by (rule jsdiv_NumI) (simp, rule d2(1))
  have e2: "\<bar>v2 - (9 / 5 * x)\<bar> \<le> 13 / 42949672960"
    using d2(2) e1 unfolding v2_def by linarith
  have m3: "\<bar>v2 + (8649550112458015 / 17592186044416)\<bar> < 2097152" using e2 assms by linarith
  obtain d3 where d3: "round64 (v2 + (8649550112458015 / 17592186044416)) = Num (v2 + (8649550112458015 / 17592186044416) + d3)" "\<bar>d3\<bar> \<le> 1 / 8589934592"
    using round64_error_abs [of "v2 + (8649550112458015 / 17592186044416)" 21] m3 by auto
  define v3 where "v3 = v2 + (8649550112458015 / 17592186044416) + d3"
  have s3: "jsadd (Num v2) (lit (49167 / 100)) = Num v3"
    unfolding v3_def lit_rankine by (rule jsadd_NumI) (rule d3(1))
  have e3: "\<bar>v3 - (9 / 5 * x + 8649550112458015 / 17592186044416)\<bar> \<le> 9 / 21474836480"
    using d3(2) e2 unfolding v3_def by linarith
  have m4: "\<bar>v3 - (8649550112458015 / 17592186044416)\<bar> < 2097152" using e3 assms by linarith
  obtain d4 where d4: "round64 (v3 - (8649550112458015 / 17592186044416)) = Num (v3 - (8649550112458015 / 17592186044416) + d4)" "\<bar>d4\<bar> \<le> 1 / 8589934592"
    using round64_error_abs [of "v3 - (8649550112458015 / 17592186044416)" 21] m4 by auto
  define v4 where "v4 = v3 - (8649550112458015 / 17592186044416) + d4"
  have s4: "jssub (Num v3) (lit (49167 / 100)) = Num v4"
    unfolding v4_def lit_rankine by (rule jssub_NumI) (rule d4(1))
  have e4: "\<bar>v4 - (9 / 5 * x)\<bar> \<le> 23 / 42949672960"
    using d4(2) e3 unfolding v4_def by linarith
  have m5: "\<bar>v4 * 5\<bar> < 16777216" using e4 assms by linarith
  obtain d5 where d5: "round64 (v4 * 5) = Num (v4 * 5 + d5)" "\<bar>d5\<bar> \<le> 1 / 1073741824"
    using round64_error_abs [of "v4 * 5" 24] m5 by auto
  define v5 where "v5 = v4 * 5 + d5"
  have s5: "jsmul (Num v4) (Num 5) = Num v5"
    unfolding v5_def by (rule jsmul_NumI) (rule d5(1))
  have e5: "\<bar>v5 - (9 * x)\<bar> \<le> 31 / 8589934592"
    using d5(2) e4 unfolding v5_def by linarith
  have m6: "\<bar>v5 / 9\<bar> < 1048576" using e5 assms by linarith
  obtain d6 where d6: "round64 (v5 / 9) = Num (v5 / 9 + d6)" "\<bar>d6\<bar> \<le> 1 / 17179869184"
    using round64_error_abs [of "v5 / 9" 20] m6 by auto
  define v6 where "v6 = v5 / 9 + d6"
  have s6: "jsdiv (Num v5) (Num 9) = Num v6"
    unfolding v6_def by (rule jsdiv_NumI) (simp, rule d6(1))
  have e6: "\<bar>v6 - (x)\<bar> \<le> 71 / 154618822656"
    using d6(2) e5 unfolding v6_def by linarith
  have fwd: "convertTemperature (Num x) (Str ''C'') (Str ''R'') = Inr (Num v3)"
    by (simp only: convertTemperature_C_R s1 s2 s3)
  have bwd: "convertTemperature (Num v3) (Str ''R'') (Str ''C'') = Inr (Num v6)"
    by (simp only: convertTemperature_R_C s4 s5 s6)
  have "\<bar>v6 - x\<bar> \<le> 1 / 10 ^ 9" using e6 by simp
  with fwd bwd show ?thesis by blast
qed

lemma round_trip_F_C:
  assumes "\<bar>x\<bar> \<le> 1000000"
  shows "\<exists>y z. convertTemperature (Num x) (Str ''F'') (Str ''C'') = Inr (Num y)
           \<and> convertTemperature (Num y) (Str ''C'') (Str ''F'') = Inr (Num z)
           \<and> \<bar>z - x\<bar> \<le> 1 / 10 ^ 9"
proof -
  have m1: "\<bar>x - 32\<bar> < 1048576" using assms by linarith
  obtain d1 where d1: "round64 (x - 32) = Num (x - 32 + d1)" "\<bar>d1\<bar> \<le> 1 / 17179869184"
    using round64_error_abs [of "x - 32" 20] m1 by auto
  define v1 where "v1 = x - 32 + d1"
  have s1: "jssub (Num x) (Num 32) = Num v1"
    unfolding v1_def by (rule jssub_NumI) (rule d1(1))
  have e1: "\<bar>v1 - (x - 32)\<bar> \<le> 1 / 17179869184"
    using d1(2) unfolding v1_def by linarith
  have m2: "\<bar>v1 * 5\<bar> < 8388608" using e1 assms by linarith
  obtain d2 where d2: "round64 (v1 * 5) = Num (v1 * 5 + d2)" "\<bar>d2\<bar> \<le> 1 / 2147483648"
    using round64_error_abs [of "v1 * 5" 23] m2 by auto
  define v2 where "v2 = v1 * 5 + d2"
  have s2: "jsmul (Num v1) (Num 5) = Num v2"
    unfolding v2_def by (rule jsmul_NumI) (rule d2(1))
  have e2: "\<bar>v2 - (5 * x - 160)\<bar> \<le> 13 / 17179869184"
    using d2(2) e1 unfolding v2_def by linarith
  have m3: "\<bar>v2 / 9\<bar> < 1048576" using e2 assms by linarith
  obtain d3 where d3: "round64 (v2 / 9) = Num (v2 / 9 + d3)" "\<bar>d3\<bar> \<le> 1 / 17179869184"
    using round64_error_abs [of "v2 / 9" 20] m3 by auto
  define v3 where "v3 = v2 / 9 + d3"
  have s3: "jsdiv (Num v2) (Num 9) = Num v3"
    unfolding v3_def by (rule jsdiv_NumI) (simp, rule d3(1))
  have e3: "\<bar>v3 - (5 / 9 * x - 160 / 9)\<bar> \<le> 11 / 77309411328"
    using d3(2) e2 unfolding v3_def by linarith
  have m4: "\<bar>v3 * 9\<bar> < 8388608" using e3 assms by linarith
  obtain d4 where d4: "round64 (v3 * 9) = Num (v3 * 9 + d4)" "\<bar>d4\<bar> \<le> 1 / 2147483648"
    using round64_error_abs [of "v3 * 9" 23] m4 by auto
  define v4 where "v4 = v3 * 9 + d4"
  have s4: "jsmul (Num v3) (Num 9) = Num v4"
    unfolding v4_def by (rule jsmul_NumI) (rule d4(1))
  have e4: "\<bar>v4 - (5 * x - 160)\<bar> \<le> 15 / 8589934592"
    using d4(2) e3 unfolding v4_def by linarith
  have m5: "\<bar>v4 / 5\<bar> < 1048576" using e4 assms by linarith
  obtain d5 where d5: "round64 (v4 / 5) = Num (v4 / 5 + d5)" "\<bar>d5\<bar> \<le> 1 / 17179869184"
    using round64_error_abs [of "v4 / 5" 20] m5 by auto
  define v5 where "v5 = v4 / 5 + d5"
  have s5: "jsdiv (Num v4) (Num 5) = Num v5"
    unfolding v5_def by (rule jsdiv_NumI) (simp, rule d5(1))
  have e5: "\<bar>v5 - (x - 32)\<bar> \<le> 7 / 17179869184"
    using d5(2) e4 unfolding v5_def by linarith
  have m6: "\<bar>v5 + 32\<bar> < 1048576" using e5 assms by linarith
  obtain d6 where d6: "round64 (v5 + 32) = Num (v5 + 32 + d6)" "\<bar>d6\<bar> \<le> 1 / 17179869184"
    using round64_error_abs [of "v5 + 32" 20] m6 by auto
  define v6 where "v6 = v5 + 32 + d6"
  have s6: "jsadd (Num v5) (Num 32) = Num v6"
    unfolding v6_def by (rule jsadd_NumI) (rule d6(1))
  have e6: "\<bar>v6 - (x)\<bar> \<le> 1 / 2147483648"
    using d6(2) e5 unfolding v6_def by linarith
  have fwd: "convertTemperature (Num x) (Str ''F'') (Str ''C'') = Inr (Num v3)"
    by (simp only: convertTemperature_F_C s1 s2 s3)
  have bwd: "convertTemperature (Num v3) (Str ''C'') (Str ''F'') = Inr (Num v6)"
    by (simp only: convertTemperature_C_F s4 s5 s6)
  have "\<bar>v6 - x\<bar> \<le> 1 / 10 ^ 9" using e6 by simp
  with fwd bwd show ?thesis by blast
qed

lemma round_trip_F_K:
  assumes "\<bar>x\<bar> \<le> 1000000"
  shows "\<exists>y z. convertTemperature (Num x) (Str ''F'') (Str ''K'') = Inr (Num y)
           \<and> convertTemperature (Num y) (Str ''K'') (Str ''F'') = Inr (Num z)
           \<and> \<bar>z - x\<bar> \<le> 1 / 10 ^ 9"
proof -
  have m1: "\<bar>x - 32\<bar> < 1048576" using assms by linarith
  obtain d1 where d1: "round64 (x - 32) = Num (x - 32 + d1)" "\<bar>d1\<bar> \<le> 1 / 17179869184"
    using round64_error_abs [of "x - 32" 20] m1 by auto
  define v1 where "v1 = x - 32 + d1"
  have s1: "jssub (Num x) (Num 32) = Num v1"
    unfolding v1_def by (rule jssub_NumI) (rule d1(1))
  have e1: "\<bar>v1 - (x - 32)\<bar> \<le> 1 / 17179869184"
    using d1(2) unfolding v1_def by linarith
  have m2: "\<bar>v1 * 5\<bar> < 8388608" using e1 assms by linarith
  obtain d2 where d2: "round64 (v1 * 5) = Num (v1 * 5 + d2)" "\<bar>d2\<bar> \<le> 1 / 2147483648"
    using round64_error_abs [of "v1 * 5" 23] m2 by auto
  define v2 where "v2 = v1 * 5 + d2"
  have s2: "jsmul (Num v1) (Num 5) = Num v2"
    unfolding v2_def by (rule jsmul_NumI) (rule d2(1))
  have e2: "\<bar>v2 - (5 * x - 160)\<bar> \<le> 13 / 17179869184"
    using d2(2) e1 unfolding v2_def by linarith
  have m3: "\<bar>v2 / 9\<bar> < 1048576" using e2 assms by linarith
  obtain d3 where d3: "round64 (v2 / 9) = Num (v2 / 9 + d3)" "\<bar>d3\<bar> \<le> 1 / 17179869184"
    using round64_error_abs [of "v2 / 9" 20] m3 by auto
  define v3 where "v3 = v2 / 9 + d3"
  have s3: "jsdiv (Num v2) (Num 9) = Num v3"
    unfolding v3_def by (rule jsdiv_NumI) (simp, rule d3(1))
  have e3: "\<bar>v3 - (5 / 9 * x - 160 / 9)\<bar> \<le> 11 / 77309411328"
    using d3(2) e2 unfolding v3_def by linarith
  have m4: "\<bar>v3 + (2402652809016115 / 8796093022208)\<bar> < 1048576" using e3 assms by linarith
  obtain d4 where d4: "round64 (v3 + (2402652809016115 / 8796093022208)) = Num (v3 + (2402652809016115 / 8796093022208) + d4)" "\<bar>d4\<bar> \<le> 1 / 17179869184"
    using round64_error_abs [of "v3 + (2402652809016115 / 8796093022208)" 20] m4 by auto
  define v4 where "v4 = v3 + (2402652809016115 / 8796093022208) + d4"
  have s4: "jsadd (Num v3) (lit (27315 / 100)) = Num v4"
    unfolding v4_def lit_kelvin by (rule jsadd_NumI) (rule d4(1))
  have e4: "\<bar>v4 - (5 / 9 * x + 20216500397591755 / 79164837199872)\<bar> \<le> 31 / 154618822656"
    using d4(2) e3 unfolding v4_def by linarith
  have m5: "\<bar>v4 - (2402652809016115 / 8796093022208)\<bar> < 1048576" using e4 assms by linarith
  obtain d5 where d5: "round64 (v4 - (2402652809016115 / 8796093022208)) = Num (v4 - (2402652809016115 / 8796093022208) + d5)" "\<bar>d5\<bar> \<le> 1 / 17179869184"
    using round64_error_abs [of "v4 - (2402652809016115 / 8796093022208)" 20] m5 by auto
  define v5 where "v5 = v4 - (2402652809016115 / 8796093022208) + d5"
  have s5: "jssub (Num v4) (lit (27315 / 100)) = Num v5"
    unfolding v5_def lit_kelvin by (rule jssub_NumI) (rule d5(1))
  have e5: "\<bar>v5 - (5 / 9 * x - 160 / 9)\<bar> \<le> 5 / 19327352832"
    using d5(2) e4 unfolding v5_def by linarith
  have m6: "\<bar>v5 * 9\<bar> < 8388608" using e5 assms by linarith
  obtain d6 where d6: "round64 (v5 * 9) = Num (v5 * 9 + d6)" "\<bar>d6\<bar> \<le> 1 / 2147483648"
    using round64_error_abs [of "v5 * 9" 23] m6 by auto
  define v6 where "v6 = v5 * 9 + d6"
  have s6: "jsmul (Num v5) (Num 9) = Num v6"
    unfolding v6_def by (rule jsmul_NumI) (rule d6(1))
  have e6: "\<bar>v6 - (5 * x - 160)\<bar> \<le> 3 / 1073741824"
    using d6(2) e5 unfolding v6_def by linarith
  have m7: "\<bar>v6 / 5\<bar> < 1048576" using e6 assms by linarith
  obtain d7 where d7: "round64 (v6 / 5) = Num (v6 / 5 + d7)" "\<bar>d7\<bar> \<le> 1 / 17179869184"
    using round64_error_abs [of "v6 / 5" 20] m7 by auto
  define v7 where "v7 = v6 / 5 + d7"
  have s7: "jsdiv (Num v6) (Num 5) = Num v7"
    unfolding v7_def by (rule jsdiv_NumI) (simp, rule d7(1))
  have e7: "\<bar>v7 - (x - 32)\<bar> \<le> 53 / 85899345920"
    using d7(2) e6 unfolding v7_def by linarith
  have m8: "\<bar>v7 + 32\<bar> < 1048576" using e7 assms by linarith
  obtain d8 where d8: "round64 (v7 + 32) = Num (v7 + 32 + d8)" "\<bar>d8\<bar> \<le> 1 / 17179869184"
    using round64_error_abs [of "v7 + 32" 20] m8 by auto
  define v8 where "v8 = v7 + 32 + d8"
  have s8: "jsadd (Num v7) (Num 32) = Num v8"
    unfolding v8_def by (rule jsadd_NumI) (rule d8(1))
  have e8: "\<bar>v8 - (x)\<bar> \<le> 29 / 42949672960"
    using d8(2) e7 unfolding v8_def by linarith
  have fwd: "convertTemperature (Num x) (Str ''F'') (Str ''K'') = Inr (Num v4)"
    by (simp only: convertTemperature_F_K s1 s2 s3 s4)
  have bwd: "convertTemperature (Num v4) (Str ''K'') (Str ''F'') = Inr (Num v8)"
    by (simp only: convertTemperature_K_F s5 s6 s7 s8)
  have "\<bar>v8 - x\<bar> \<le> 1 / 10 ^ 9" using e8 by simp
  with fwd bwd show ?thesis by blast
qed

lemma round_trip_F_R:
  assumes "\<bar>x\<bar> \<le> 1000000"
  shows "\<exists>y z. convertTemperature (Num x) (Str ''F'') (Str ''R'') = Inr (Num y)
           \<and> convertTemperature (Num y) (Str ''R'') (Str ''F'') = Inr (Num z)
           \<and> \<bar>z - x\<bar> \<le> 1 / 10 ^ 9"
proof -
  have m1: "\<bar>x - 32\<bar> < 1048576" using assms by linarith
  obtain d1 where d1: "round64 (x - 32) = Num (x - 32 + d1)" "\<bar>d1\<bar> \<le> 1 / 17179869184"
    using round64_error_abs [of "x - 32" 20] m1 by auto
  define v1 where "v1 = x - 32 + d1"
  have s1: "jssub (Num x) (Num 32) = Num v1"
    unfolding v1_def by (rule jssub_NumI) (rule d1(1))
  have e1: "\<bar>v1 - (x - 32)\<bar> \<le> 1 / 17179869184"
    using d1(2) unfolding v1_def by linarith
  have m2: "\<bar>v1 * 5\<bar> < 8388608" using e1 assms by linarith
  obtain d2 where d2: "round64 (v1 * 5) = Num (v1 * 5 + d2)" "\<bar>d2\<bar> \<le> 1 / 2147483648"
    using round64_error_abs [of "v1 * 5" 23] m2 by auto
  define v2 where "v2 = v1 * 5 + d2"
  have s2: "jsmul (Num v1) (Num 5) = Num v2"
    unfolding v2_def by (rule jsmul_NumI) (rule d2(1))
  have e2: "\<bar>v2 - (5 * x - 160)\<bar> \<le> 13 / 17179869184"
    using d2(2) e1 unfolding v2_def by linarith
  have m3: "\<bar>v2 / 9\<bar> < 1048576" using e2 assms by linarith
  obtain d3 where d3: "round64 (v2 / 9) = Num (v2 / 9 + d3)" "\<bar>d3\<bar> \<le> 1 / 17179869184"
    using round64_error_abs [of "v2 / 9" 20] m3 by auto
  define v3 where "v3 = v2 / 9 + d3"
  have s3: "jsdiv (Num v2) (Num 9) = Num v3"
    unfolding v3_def by (rule jsdiv_NumI) (simp, rule d3(1))
  have e3: "\<bar>v3 - (5 / 9 * x - 160 / 9)\<bar> \<le> 11 / 77309411328"
    using d3(2) e2 unfolding v3_def by linarith
  have m4: "\<bar>v3 * 9\<bar> < 8388608" using e3 assms by linarith
  obtain d4 where d4: "round64 (v3 * 9) = Num (v3 * 9 + d4)" "\<bar>d4\<bar> \<le> 1 / 2147483648"
    using round64_error_abs [of "v3 * 9" 23] m4 by auto
  define v4 where "v4 = v3 * 9 + d4"
  have s4: "jsmul (Num v3) (Num 9) = Num v4"
    unfolding v4_def by (rule jsmul_NumI) (rule d4(1))
  have e4: "\<bar>v4 - (5 * x - 160)\<bar> \<le> 15 / 8589934592"
    using d4(2) e3 unfolding v4_def by linarith
  have m5: "\<bar>v4 / 5\<bar> < 1048576" using e4 assms by linarith
  obtain d5 where d5: "round64 (v4 / 5) = Num (v4 / 5 + d5)" "\<bar>d5\<bar> \<le> 1 / 17179869184"
    using round64_error_abs [of "v4 / 5" 20] m5 by auto
  define v5 where "v5 = v4 / 5 + d5"
  have s5: "jsdiv (Num v4) (Num 5) = Num v5"
    unfolding v5_def by (rule jsdiv_NumI) (simp, rule d5(1))
  have e5: "\<bar>v5 - (x - 32)\<bar> \<le> 7 / 17179869184"
    using d5(2) e4 unfolding v5_def by linarith
  have m6: "\<bar>v5 + (8649550112458015 / 17592186044416)\<bar> < 1048576" using e5 assms by linarith
  obtain d6 where d6: "round64 (v5 + (8649550112458015 / 17592186044416)) = Num (v5 + (8649550112458015 / 17592186044416) + d6)" "\<bar>d6\<bar> \<le> 1 / 17179869184"
    using round64_error_abs [of "v5 + (8649550112458015 / 17592186044416)" 20] m6 by auto
  define v6 where "v6 = v5 + (8649550112458015 / 17592186044416) + d6"
  have s6: "jsadd (Num v5) (lit (49167 / 100)) = Num v6"
    unfolding v6_def lit_rankine by (rule jsadd_NumI) (rule d6(1))
  have e6: "\<bar>v6 - (x + 8086600159036703 / 17592186044416)\<bar> \<le> 1 / 2147483648"
    using d6(2) e5 unfolding v6_def by linarith
  have m7: "\<bar>v6 - (8649550112458015 / 17592186044416)\<bar> < 1048576" using e6 assms by linarith
  obtain d7 where d7: "round64 (v6 - (8649550112458015 / 17592186044416)) = Num (v6 - (8649550112458015 / 17592186044416) + d7)" "\<bar>d7\<bar> \<le> 1 / 17179869184"
    using round64_error_abs [of "v6 - (8649550112458015 / 17592186044416)" 20] m7 by auto
  define v7 where "v7 = v6 - (8649550112458015 / 17592186044416) + d7"
  have s7: "jssub (Num v6) (lit (49167 / 100)) = Num v7"
    unfolding v7_def lit_rankine by (rule jssub_NumI) (rule d7(1))
  have e7: "\<bar>v7 - (x - 32)\<bar> \<le> 9 / 17179869184"
    using d7(2) e6 unfolding v7_def by linarith
  have m8: "\<bar>v7 * 5\<bar> < 8388608" using e7 assms by linarith
  obtain d8 where d8: "round64 (v7 * 5) = Num (v7 * 5 + d8)" "\<bar>d8\<bar> \<le> 1 / 2147483648"
    using round64_error_abs [of "v7 * 5" 23] m8 by auto
  define v8 where "v8 = v7 * 5 + d8"
  have s8: "jsmul (Num v7) (Num 5) = Num v8"
    unfolding v8_def by (rule jsmul_NumI) (rule d8(1))
  have e8: "\<bar>v8 - (5 * x - 160)\<bar> \<le> 53 / 17179869184"
    using d8(2) e7 unfolding v8_def by linarith
  have m9: "\<bar>v8 / 9\<bar> < 1048576" using e8 assms by linarith
  obtain d9 where d9: "round64 (v8 / 9) = Num (v8 / 9 + d9)" "\<bar>d9\<bar> \<le> 1 / 17179869184"
    using round64_error_abs [of "v8 / 9" 20] m9 by auto
  define v9 where "v9 = v8 / 9 + d9"
  have s9: "jsdiv (Num v8) (Num 9) = Num v9"
    unfolding v9_def by (rule jsdiv_NumI) (simp, rule d9(1))
  have e9: "\<bar>v9 - (5 / 9 * x - 160 / 9)\<bar> \<le> 31 / 77309411328"
    using d9(2) e8 unfolding v9_def by linarith
  have m10: "\<bar>v9 * 9\<bar> < 8388608" using e9 assms by linarith
  obtain d10 where d10: "round64 (v9 * 9) = Num (v9 * 9 + d10)" "\<bar>d10\<bar> \<le> 1 / 2147483648"
    using round64_error_abs [of "v9 * 9" 23] m10 by auto
  define v10 where "v10 = v9 * 9 + d10"
  have s10: "jsmul (Num v9) (Num 9) = Num v10"
    unfolding v10_def by (rule jsmul_NumI) (rule d10(1))
  have e10: "\<bar>v10 - (5 * x - 160)\<bar> \<le> 35 / 8589934592"
    using d10(2) e9 unfolding v10_def by linarith
  have m11: "\<bar>v10 / 5\<bar> < 1048576" using e10 assms by linarith
  obtain d11 where d11: "round64 (v10 / 5) = Num (v10 / 5 + d11)" "\<bar>d11\<bar> \<le> 1 / 17179869184"
    using round64_error_abs [of "v10 / 5" 20] m11 by auto
  define v11 where "v11 = v10 / 5 + d11"
  have s11: "jsdiv (Num v10) (Num 5) = Num v11"
    unfolding v11_def by (rule jsdiv_NumI) (simp, rule d11(1))
  have e11: "\<bar>v11 - (x - 32)\<bar> \<le> 15 / 17179869184"
    using d11(2) e10 unfolding v11_def by linarith
  have m12: "\<bar>v11 + 32\<bar> < 1048576" using e11 assms by linarith
  obtain d12 where d12: "round64 (v11 + 32) = Num (v11 + 32 + d12)" "\<bar>d12\<bar> \<le> 1 / 17179869184"
    using round64_error_abs [of "v11 + 32" 20] m12 by auto
  define v12 where "v12 = v11 + 32 + d12"
  have s12: "jsadd (Num v11) (Num 32) = Num v12"
    unfolding v12_def by (rule jsadd_NumI) (rule d12(1))
  have e12: "\<bar>v12 - (x)\<bar> \<le> 1 / 1073741824"
    using d12(2) e11 unfolding v12_def by linarith
  have fwd: "convertTemperature (Num x) (Str ''F'') (Str ''R'') = Inr (Num v6)"
    by (simp only: convertTemperature_F_R s1 s2 s3 s4 s5 s6)
  have bwd: "convertTemperature (Num v6) (Str ''R'') (Str ''F'') = Inr (Num v12)"
    by (simp only: convertTemperature_R_F s7 s8 s9 s10 s11 s12)
  have "\<bar>v12 - x\<bar> \<le> 1 / 10 ^ 9" using e12 by simp
  with fwd bwd show ?thesis by blast
qed

lemma round_trip_K_C:
  assumes "\<bar>x\<bar> \<le> 1000000"
  shows "\<exists>y z. convertTemperature (Num x) (Str ''K'') (Str ''C'') = Inr (Num y)
           \<and> convertTemperature (Num y) (Str ''C'') (Str ''K'') = Inr (Num z)
           \<and> \<bar>z - x\<bar> \<le> 1 / 10 ^ 9"
proof -
  have m1: "\<bar>x - (2402652809016115 / 8796093022208)\<bar> < 1048576" using assms by linarith
  obtain d1 where d1: "round64 (x - (2402652809016115 / 8796093022208)) = Num (x - (2402652809016115 / 8796093022208) + d1)" "\<bar>d1\<bar> \<le> 1 / 17179869184"
    using round64_error_abs [of "x - (2402652809016115 / 8796093022208)" 20] m1 by auto
  define v1 where "v1 = x - (2402652809016115 / 8796093022208) + d1"
  have s1: "jssub (Num x) (lit (27315 / 100)) = Num v1"
    unfolding v1_def lit_kelvin by (rule jssub_NumI) (rule d1(1))
  have e1: "\<bar>v1 - (x - 2402652809016115 / 8796093022208)\<bar> \<le> 1 / 17179869184"
    using d1(2) unfolding v1_def by linarith
  have m2: "\<bar>v1 + (2402652809016115 / 8796093022208)\<bar> < 1048576" using e1 assms by linarith
  obtain d2 where d2: "round64 (v1 + (2402652809016115 / 8796093022208)) = Num (v1 + (2402652809016115 / 8796093022208) + d2)" "\<bar>d2\<bar> \<le> 1 / 17179869184"
    using round64_error_abs [of "v1 + (2402652809016115 / 8796093022208)" 20] m2 by auto
  define v2 where "v2 = v1 + (2402652809016115 / 8796093022208) + d2"
  have s2: "jsadd (Num v1) (lit (27315 / 100)) = Num v2"
    unfolding v2_def lit_kelvin by (rule jsadd_NumI) (rule d2(1))
  have e2: "\<bar>v2 - (x)\<bar> \<le> 1 / 8589934592"
    using d2(2) e1 unfolding v2_def by linarith
  have fwd: "convertTemperature (Num x) (Str ''K'') (Str ''C'') = Inr (Num v1)"
    by (simp only: convertTemperature_K_C s1)
  have bwd: "convertTemperature (Num v1) (Str ''C'') (Str ''K'') = Inr (Num v2)"
    by (simp only: convertTemperature_C_K s2)
  have "\<bar>v2 - x\<bar> \<le> 1 / 10 ^ 9" using e2 by simp
  with fwd bwd show ?thesis by blast
qed

lemma round_trip_K_F:
  assumes "\<bar>x\<bar> \<le> 1000000"
  shows "\<exists>y z. convertTemperature (Num x) (Str ''K'') (Str ''F'') = Inr (Num y)
           \<and> convertTemperature (Num y) (Str ''F'') (Str ''K'') = Inr (Num z)
           \<and> \<bar>z - x\<bar> \<le> 1 / 10 ^ 9"
proof -
  have m1: "\<bar>x - (2402652809016115 / 8796093022208)\<bar> < 1048576" using assms by linarith
  obtain d1 where d1: "round64 (x - (2402652809016115 / 8796093022208)) = Num (x - (2402652809016115 / 8796093022208) + d1)" "\<bar>d1\<bar> \<le> 1 / 17179869184"
    using round64_error_abs [of "x - (2402652809016115 / 8796093022208)" 20] m1 by auto
  define v1 where "v1 = x - (2402652809016115 / 8796093022208) + d1"
  have s1: "jssub (Num x) (lit (27315 / 100)) = Num v1"
    unfolding v1_def lit_kelvin by (rule jssub_NumI) (rule d1(1))
  have e1: "\<bar>v1 - (x - 2402652809016115 / 8796093022208)\<bar> \<le> 1 / 17179869184"
    using d1(2) unfolding v1_def by linarith
  have m2: "\<bar>v1 * 9\<bar> < 16777216" using e1 assms by linarith
  obtain d2 where d2: "round64 (v1 * 9) = Num (v1 * 9 + d2)" "\<bar>d2\<bar> \<le> 1 / 1073741824"
    using round64_error_abs [of "v1 * 9" 24] m2 by auto
  define v2 where "v2 = v1 * 9 + d2"
  have s2: "jsmul (Num v1) (Num 9) = Num v2"
    unfolding v2_def by (rule jsmul_NumI) (rule d2(1))
  have e2: "\<bar>v2 - (9 * x - 21623875281145035 / 8796093022208)\<bar> \<le> 25 / 17179869184"
    using d2(2) e1 unfolding v2_def by linarith
  have m3: "\<bar>v2 / 5\<bar> < 2097152" using e2 assms by linarith
  obtain d3 where d3: "round64 (v2 / 5) = Num (v2 / 5 + d3)" "\<bar>d3\<bar> \<le> 1 / 8589934592"
    using round64_error_abs [of "v2 / 5" 21] m3 by auto
  define v3 where "v3 = v2 / 5 + d3"
  have s3: "jsdiv (Num v2) (Num 5) = Num v3"
    unfolding v3_def by (rule jsdiv_NumI) (simp, rule d3(1))
  have e3: "\<bar>v3 - (9 / 5 * x - 4324775056229007 / 8796093022208)\<bar> \<le> 7 / 17179869184"
    using d3(2) e2 unfolding v3_def by linarith
  have m4: "\<bar>v3 + 32\<bar> < 2097152" using e3 assms by linarith
  obtain d4 where d4: "round64 (v3 + 32) = Num (v3 + 32 + d4)" "\<bar>d4\<bar> \<le> 1 / 8589934592"
    using round64_error_abs [of "v3 + 32" 21] m4 by auto
  define v4 where "v4 = v3 + 32 + d4"
  have s4: "jsadd (Num v3) (Num 32) = Num v4"
    unfolding v4_def by (rule jsadd_NumI) (rule d4(1))
  have e4: "\<bar>v4 - (9 / 5 * x - 4043300079518351 / 8796093022208)\<bar> \<le> 9 / 17179869184"
    using d4(2) e3 unfolding v4_def by linarith
  have m5: "\<bar>v4 - 32\<bar> < 2097152" using e4 assms by linarith
  obtain d5 where d5: "round64 (v4 - 32) = Num (v4 - 32 + d5)" "\<bar>d5\<bar> \<le> 1 / 8589934592"
    using round64_error_abs [of "v4 - 32" 21] m5 by auto
  define v5 where "v5 = v4 - 32 + d5"
  have s5: "jssub (Num v4) (Num 32) = Num v5"
    unfolding v5_def by (rule jssub_NumI) (rule d5(1))
  have e5: "\<bar>v5 - (9 / 5 * x - 4324775056229007 / 8796093022208)\<bar> \<le> 11 / 17179869184"
    using d5(2) e4 unfolding v5_def by linarith
  have m6: "\<bar>v5 * 5\<bar> < 16777216" using e5 assms by linarith
  obtain d6 where d6: "round64 (v5 * 5) = Num (v5 * 5 + d6)" "\<bar>d6\<bar> \<le> 1 / 1073741824"
    using round64_error_abs [of "v5 * 5" 24] m6 by auto
  define v6 where "v6 = v5 * 5 + d6"
  have s6: "jsmul (Num v5) (Num 5) = Num v6"
    unfolding v6_def by (rule jsmul_NumI) (rule d6(1))
  have e6: "\<bar>v6 - (9 * x - 21623875281145035 / 8796093022208)\<bar> \<le> 71 / 17179869184"
    using d6(2) e5 unfolding v6_def by linarith
  have m7: "\<bar>v6 / 9\<bar> < 1048576" using e6 assms by linarith
  obtain d7 where d7: "round64 (v6 / 9) = Num (v6 / 9 + d7)" "\<bar>d7\<bar> \<le> 1 / 17179869184"
    using round64_error_abs [of "v6 / 9" 20] m7 by auto
  define v7 where "v7 = v6 / 9 + d7"
  have s7: "jsdiv (Num v6) (Num 9) = Num v7"
    unfolding v7_def by (rule jsdiv_NumI) (simp, rule d7(1))
  have e7: "\<bar>v7 - (x - 2402652809016115 / 8796093022208)\<bar> \<le> 5 / 9663676416"
    using d7(2) e6 unfolding v7_def by linarith
  have m8: "\<bar>v7 + (2402652809016115 / 8796093022208)\<bar> < 1048576" using e7 assms by linarith
  obtain d8 where d8: "round64 (v7 + (2402652809016115 / 8796093022208)) = Num (v7 + (2402652809016115 / 8796093022208) + d8)" "\<bar>d8\<bar> \<le> 1 / 17179869184"
    using round64_error_abs [of "v7 + (2402652809016115 / 8796093022208)" 20] m8 by auto
  define v8 where "v8 = v7 + (2402652809016115 / 8796093022208) + d8"
  have s8: "jsadd (Num v7) (lit (27315 / 100)) = Num v8"
    unfolding v8_def lit_kelvin by (rule jsadd_NumI) (rule d8(1))
  have e8: "\<bar>v8 - (x)\<bar> \<le> 89 / 154618822656"
    using d8(2) e7 unfolding v8_def by linarith
  have fwd: "convertTemperature (Num x) (Str ''K'') (Str ''F'') = Inr (Num v4)"
    by (simp only: convertTemperature_K_F s1 s2 s3 s4)
  have bwd: "convertTemperature (Num v4) (Str ''F'') (Str ''K'') = Inr (Num v8)"
    by (simp only: convertTemperature_F_K s5 s6 s7 s8)
  have "\<bar>v8 - x\<bar> \<le> 1 / 10 ^ 9" using e8 by simp
  with fwd bwd show ?thesis by blast
qed

lemma round_trip_K_R:
  assumes "\<bar>x\<bar> \<le> 1000000"
  shows "\<exists>y z. convertTemperature (Num x) (Str ''K'') (Str ''R'') = Inr (Num y)
           \<and> convertTemperature (Num y) (Str ''R'') (Str ''K'') = Inr (Num z)
           \<and> \<bar>z - x\<bar> \<le> 1 / 10 ^ 9"
proof -
  have m1: "\<bar>x - (2402652809016115 / 8796093022208)\<bar> < 1048576" using assms by linarith
  obtain d1 where d1: "round64 (x - (2402652809016115 / 8796093022208)) = Num (x - (2402652809016115 / 8796093022208) + d1)" "\<bar>d1\<bar> \<le> 1 / 17179869184"
    using round64_error_abs [of "x - (2402652809016115 / 8796093022208)" 20] m1 by auto
  define v1 where "v1 = x - (2402652809016115 / 8796093022208) + d1"
  have s1: "jssub (Num x) (lit (27315 / 100)) = Num v1"
    unfolding v1_def lit_kelvin by (rule jssub_NumI) (rule d1(1))
  have e1: "\<bar>v1 - (x - 2402652809016115 / 8796093022208)\<bar> \<le> 1 / 17179869184"
    using d1(2) unfolding v1_def by linarith
  have m2: "\<bar>v1 * 9\<bar> < 16777216" using e1 assms by linarith
  obtain d2 where d2: "round64 (v1 * 9) = Num (v1 * 9 + d2)" "\<bar>d2\<bar> \<le> 1 / 1073741824"
    using round64_error_abs [of "v1 * 9" 24] m2 by auto
  define v2 where "v2 = v1 * 9 + d2"
  have s2: "jsmul (Num v1) (Num 9) = Num v2"
    unfolding v2_def by (rule jsmul_NumI) (rule d2(1))
  have e2: "\<bar>v2 - (9 * x - 21623875281145035 / 8796093022208)\<bar> \<le> 25 / 17179869184"
    using d2(2) e1 unfolding v2_def by linarith
  have m3: "\<bar>v2 / 5\<bar> < 2097152" using e2 assms by linarith
  obtain d3 where d3: "round64 (v2 / 5) = Num (v2 / 5 + d3)" "\<bar>d3\<bar> \<le> 1 / 8589934592"
    using round64_error_abs [of "v2 / 5" 21] m3 by auto
  define v3 where "v3 = v2 / 5 + d3"
  have s3: "jsdiv (Num v2) (Num 5) = Num v3"
    unfolding v3_def by (rule jsdiv_NumI) (simp, rule d3(1))
  have e3: "\<bar>v3 - (9 / 5 * x - 4324775056229007 / 8796093022208)\<bar> \<le> 7 / 17179869184"
    using d3(2) e2 unfolding v3_def by linarith
  have m4: "\<bar>v3 + (8649550112458015 / 17592186044416)\<bar> < 2097152" using e3 assms by linarith
  obtain d4 where d4: "round64 (v3 + (8649550112458015 / 17592186044416)) = Num (v3 + (8649550112458015 / 17592186044416) + d4)" "\<bar>d4\<bar> \<le> 1 / 8589934592"
    using round64_error_abs [of "v3 + (8649550112458015 / 17592186044416)" 21] m4 by auto
  define v4 where "v4 = v3 + (8649550112458015 / 17592186044416) + d4"
  have s4: "jsadd (Num v3) (lit (49167 / 100)) = Num v4"
    unfolding v4_def lit_rankine by (rule jsadd_NumI) (rule d4(1))
  have e4: "\<bar>v4 - (9 / 5 * x + 1 / 17592186044416)\<bar> \<le> 9 / 17179869184"
    using d4(2) e3 unfolding v4_def by linarith
  have m5: "\<bar>v4 - (8649550112458015 / 17592186044416)\<bar> < 2097152" using e4 assms by linarith
  obtain d5 where d5: "round64 (v4 - (8649550112458015 / 17592186044416)) = Num (v4 - (8649550112458015 / 17592186044416) + d5)" "\<bar>d5\<bar> \<le> 1 / 8589934592"
    using round64_error_abs [of "v4 - (8649550112458015 / 17592186044416)" 21] m5 by auto
  define v5 where "v5 = v4 - (8649550112458015 / 17592186044416) + d5"
  have s5: "jssub (Num v4) (lit (49167 / 100)) = Num v5"
    unfolding v5_def lit_rankine by (rule jssub_NumI) (rule d5(1))
  have e5: "\<bar>v5 - (9 / 5 * x - 4324775056229007 / 8796093022208)\<bar> \<le> 11 / 17179869184"
    using d5(2) e4 unfolding v5_def by linarith
  have m6: "\<bar>v5 * 5\<bar> < 16777216" using e5 assms by linarith
  obtain d6 where d6: "round64 (v5 * 5) = Num (v5 * 5 + d6)" "\<bar>d6\<bar> \<le> 1 / 1073741824"
    using round64_error_abs [of "v5 * 5" 24] m6 by auto
  define v6 where "v6 = v5 * 5 + d6"
  have s6: "jsmul (Num v5) (Num 5) = Num v6"
    unfolding v6_def by (rule jsmul_NumI) (rule d6(1))
  have e6: "\<bar>v6 - (9 * x - 21623875281145035 / 8796093022208)\<bar> \<le> 71 / 17179869184"
    using d6(2) e5 unfolding v6_def by linarith
  have m7: "\<bar>v6 / 9\<bar> < 1048576" using e6 assms by linarith
  obtain d7 where d7: "round64 (v6 / 9) = Num (v6 / 9 + d7)" "\<bar>d7\<bar> \<le> 1 / 17179869184"
    using round64_error_abs [of "v6 / 9" 20] m7 by auto
  define v7 where "v7 = v6 / 9 + d7"
  have s7: "jsdiv (Num v6) (Num 9) = Num v7"
    unfolding v7_def by (rule jsdiv_NumI) (simp, rule d7(1))
  have e7: "\<bar>v7 - (x - 2402652809016115 / 8796093022208)\<bar> \<le> 5 / 9663676416"
    using d7(2) e6 unfolding v7_def by linarith
  have m8: "\<bar>v7 + (2402652809016115 / 8796093022208)\<bar> < 1048576" using e7 assms by linarith
  obtain d8 where d8: "round64 (v7 + (2402652809016115 / 8796093022208)) = Num (v7 + (2402652809016115 / 8796093022208) + d8)" "\<bar>d8\<bar> \<le> 1 / 17179869184"
    using round64_error_abs [of "v7 + (2402652809016115 / 8796093022208)" 20] m8 by auto
  define v8 where "v8 = v7 + (2402652809016115 / 8796093022208) + d8"
  have s8: "jsadd (Num v7) (lit (27315 / 100)) = Num v8"
    unfolding v8_def lit_kelvin by (rule jsadd_NumI) (rule d8(1))
  have e8: "\<bar>v8 - (x)\<bar> \<le> 89 / 154618822656"
    using d8(2) e7 unfolding v8_def by linarith
  have fwd: "convertTemperature (Num x) (Str ''K'') (Str ''R'') = Inr (Num v4)"
    by (simp only: convertTemperature_K_R s1 s2 s3 s4)
  have bwd: "convertTemperature (Num v4) (Str ''R'') (Str ''K'') = Inr (Num v8)"
    by (simp only: convertTemperature_R_K s5 s6 s7 s8)
  have "\<bar>v8 - x\<bar> \<le> 1 / 10 ^ 9" using e8 by simp
  with fwd bwd show ?thesis by blast
qed

lemma round_trip_R_C:
  assumes "\<bar>x\<bar> \<le> 1000000"
  shows "\<exists>y z. convertTemperature (Num x) (Str ''R'') (Str ''C'') = Inr (Num y)
           \<and> convertTemperature (Num y) (Str ''C'') (Str ''R'') = Inr (Num z)
           \<and> \<bar>z - x\<bar> \<le> 1 / 10 ^ 9"
proof -
  have m1: "\<bar>x - (8649550112458015 / 17592186044416)\<bar> < 1048576" using assms by linarith
  obtain d1 where d1: "round64 (x - (8649550112458015 / 17592186044416)) = Num (x - (8649550112458015 / 17592186044416) + d1)" "\<bar>d1\<bar> \<le> 1 / 17179869184"
    using round64_error_abs [of "x - (8649550112458015 / 17592186044416)" 20] m1 by auto
  define v1 where "v1 = x - (8649550112458015 / 17592186044416) + d1"
  have s1: "jssub (Num x) (lit (49167 / 100)) = Num v1"
    unfolding v1_def lit_rankine by (rule jssub_NumI) (rule d1(1))
  have e1: "\<bar>v1 - (x - 8649550112458015 / 17592186044416)\<bar> \<le> 1 / 17179869184"
    using d1(2) unfolding v1_def by linarith
  have m2: "\<bar>v1 * 5\<bar> < 8388608" using e1 assms by linarith
  obtain d2 where d2: "round64 (v1 * 5) = Num (v1 * 5 + d2)" "\<bar>d2\<bar> \<le> 1 / 2147483648"
    using round64_error_abs [of "v1 * 5" 23] m2 by auto
  define v2 where "v2 = v1 * 5 + d2"
  have s2: "jsmul (Num v1) (Num 5) = Num v2"
    unfolding v2_def by (rule jsmul_NumI) (rule d2(1))
  have e2: "\<bar>v2 - (5 * x - 43247750562290075 / 17592186044416)\<bar> \<le> 13 / 17179869184"
    using d2(2) e1 unfolding v2_def by linarith
  have m3: "\<bar>v2 / 9\<bar> < 1048576" using e2 assms by linarith
  obtain d3 where d3: "round64 (v2 / 9) = Num (v2 / 9 + d3)" "\<bar>d3\<bar> \<le> 1 / 17179869184"
    using round64_error_abs [of "v2 / 9" 20] m3 by auto
  define v3 where "v3 = v2 / 9 + d3"
  have s3: "jsdiv (Num v2) (Num 9) = Num v3"
    unfolding v3_def by (rule jsdiv_NumI) (simp, rule d3(1))
  have e3: "\<bar>v3 - (5 / 9 * x - 43247750562290075 / 158329674399744)\<bar> \<le> 11 / 77309411328"
    using d3(2) e2 unfolding v3_def by linarith
  have m4: "\<bar>v3 * 9\<bar> < 8388608" using e3 assms by linarith
  obtain d4 where d4: "round64 (v3 * 9) = Num (v3 * 9 + d4)" "\<bar>d4\<bar> \<le> 1 / 2147483648"
    using round64_error_abs [of "v3 * 9" 23] m4 by auto
  define v4 where "v4 = v3 * 9 + d4"
  have s4: "jsmul (Num v3) (Num 9) = Num v4"
    unfolding v4_def by (rule jsmul_NumI) (rule d4(1))
  have e4: "\<bar>v4 - (5 * x - 43247750562290075 / 17592186044416)\<bar> \<le> 15 / 8589934592"
    using d4(2) e3 unfolding v4_def by linarith
  have m5: "\<bar>v4 / 5\<bar> < 1048576" using e4 assms by linarith
  obtain d5 where d5: "round64 (v4 / 5) = Num (v4 / 5 + d5)" "\<bar>d5\<bar> \<le> 1 / 17179869184"
    using round64_error_abs [of "v4 / 5" 20] m5 by auto
  define v5 where "v5 = v4 / 5 + d5"
  have s5: "jsdiv (Num v4) (Num 5) = Num v5"
    unfolding v5_def by (rule jsdiv_NumI) (simp, rule d5(1))
  have e5: "\<bar>v5 - (x - 8649550112458015 / 17592186044416)\<bar> \<le> 7 / 17179869184"
    using d5(2) e4 unfolding v5_def by linarith
  have m6: "\<bar>v5 + (8649550112458015 / 17592186044416)\<bar> < 1048576" using e5 assms by linarith
  obtain d6 where d6: "round64 (v5 + (8649550112458015 / 17592186044416)) = Num (v5 + (8649550112458015 / 17592186044416) + d6)" "\<bar>d6\<bar> \<le> 1 / 17179869184"
    using round64_error_abs [of "v5 + (8649550112458015 / 17592186044416)" 20] m6 by auto
  define v6 where "v6 = v5 + (8649550112458015 / 17592186044416) + d6"
  have s6: "jsadd (Num v5) (lit (49167 / 100)) = Num v6"
    unfolding v6_def lit_rankine by (rule jsadd_NumI) (rule d6(1))
  have e6: "\<bar>v6 - (x)\<bar> \<le> 1 / 2147483648"
    using d6(2) e5 unfolding v6_def by linarith
  have fwd: "convertTemperature (Num x) (Str ''R'') (Str ''C'') = Inr (Num v3)"
    by (simp only: convertTemperature_R_C s1 s2 s3)
  have bwd: "convertTemperature (Num v3) (Str ''C'') (Str ''R'') = Inr (Num v6)"
    by (simp only: convertTemperature_C_R s4 s5 s6)
  have "\<bar>v6 - x\<bar> \<le> 1 / 10 ^ 9" using e6 by simp
  with fwd bwd show ?thesis by blast
qed

lemma round_trip_R_F:
  assumes "\<bar>x\<bar> \<le> 1000000"
  shows "\<exists>y z. convertTemperature (Num x) (Str ''R'') (Str ''F'') = Inr (Num y)
           \<and> convertTemperature (Num y) (Str ''F'') (Str ''R'') = Inr (Num z)
           \<and> \<bar>z - x\<bar> \<le> 1 / 10 ^ 9"
proof -
  have m1: "\<bar>x - (8649550112458015 / 17592186044416)\<bar> < 1048576" using assms by linarith
  obtain d1 where d1: "round64 (x - (8649550112458015 / 17592186044416)) = Num (x - (8649550112458015 / 17592186044416) + d1)" "\<bar>d1\<bar> \<le> 1 / 17179869184"
    using round64_error_abs [of "x - (8649550112458015 / 17592186044416)" 20] m1 by auto
  define v1 where "v1 = x - (8649550112458015 / 17592186044416) + d1"
  have s1: "jssub (Num x) (lit (49167 / 100)) = Num v1"
    unfolding v1_def lit_rankine by (rule jssub_NumI) (rule d1(1))
  have e1: "\<bar>v1 - (x - 8649550112458015 / 17592186044416)\<bar> \<le> 1 / 17179869184"
    using d1(2) unfolding v1_def by linarith
  have m2: "\<bar>v1 * 5\<bar> < 8388608" using e1 assms by linarith
  obtain d2 where d2: "round64 (v1 * 5) = Num (v1 * 5 + d2)" "\<bar>d2\<bar> \<le> 1 / 2147483648"
    using round64_error_abs [of "v1 * 5" 23] m2 by auto
  define v2 where "v2 = v1 * 5 + d2"
  have s2: "jsmul (Num v1) (Num 5) = Num v2"
    unfolding v2_def by (rule jsmul_NumI) (rule d2(1))
  have e2: "\<bar>v2 - (5 * x - 43247750562290075 / 17592186044416)\<bar> \<le> 13 / 17179869184"
    using d2(2) e1 unfolding v2_def by linarith
  have m3: "\<bar>v2 / 9\<bar> < 1048576" using e2 assms by linarith
  obtain d3 where d3: "round64 (v2 / 9) = Num (v2 / 9 + d3)" "\<bar>d3\<bar> \<le> 1 / 17179869184"
    using round64_error_abs [of "v2 / 9" 20] m3 by auto
  define v3 where "v3 = v2 / 9 + d3"
  have s3: "jsdiv (Num v2) (Num 9) = Num v3"
    unfolding v3_def by (rule jsdiv_NumI) (simp, rule d3(1))
  have e3: "\<bar>v3 - (5 / 9 * x - 43247750562290075 / 158329674399744)\<bar> \<le> 11 / 77309411328"
    using d3(2) e2 unfolding v3_def by linarith
  have m4: "\<bar>v3 * 9\<bar> < 8388608" using e3 assms by linarith
  obtain d4 where d4: "round64 (v3 * 9) = Num (v3 * 9 + d4)" "\<bar>d4\<bar> \<le> 1 / 2147483648"
    using round64_error_abs [of "v3 * 9" 23] m4 by auto
  define v4 where "v4 = v3 * 9 + d4"
  have s4: "jsmul (Num v3) (Num 9) = Num v4"
    unfolding v4_def by (rule jsmul_NumI) (rule d4(1))
  have e4: "\<bar>v4 - (5 * x - 43247750562290075 / 17592186044416)\<bar> \<le> 15 / 8589934592"
    using d4(2) e3 unfolding v4_def by linarith
  have m5: "\<bar>v4 / 5\<bar> < 1048576" using e4 assms by linarith
  obtain d5 where d5: "round64 (v4 / 5) = Num (v4 / 5 + d5)" "\<bar>d5\<bar> \<le> 1 / 17179869184"
    using round64_error_abs [of "v4 / 5" 20] m5 by auto
  define v5 where "v5 = v4 / 5 + d5"
  have s5: "jsdiv (Num v4) (Num 5) = Num v5"
    unfolding v5_def by (rule jsdiv_NumI) (simp, rule d5(1))
  have e5: "\<bar>v5 - (x - 8649550112458015 / 17592186044416)\<bar> \<le> 7 / 17179869184"
    using d5(2) e4 unfolding v5_def by linarith
  have m6: "\<bar>v5 + 32\<bar> < 1048576" using e5 assms by linarith
  obtain d6 where d6: "round64 (v5 + 32) = Num (v5 + 32 + d6)" "\<bar>d6\<bar> \<le> 1 / 17179869184"
    using round64_error_abs [of "v5 + 32" 20] m6 by auto
  define v6 where "v6 = v5 + 32 + d6"
  have s6: "jsadd (Num v5) (Num 32) = Num v6"
    unfolding v6_def by (rule jsadd_NumI) (rule d6(1))
  have e6: "\<bar>v6 - (x - 8086600159036703 / 17592186044416)\<bar> \<le> 1 / 2147483648"
    using d6(2) e5 unfolding v6_def by linarith
  have m7: "\<bar>v6 - 32\<bar> < 1048576" using e6 assms by linarith
  obtain d7 where d7: "round64 (v6 - 32) = Num (v6 - 32 + d7)" "\<bar>d7\<bar> \<le> 1 / 17179869184"
    using round64_error_abs [of "v6 - 32" 20] m7 by auto
  define v7 where "v7 = v6 - 32 + d7"
  have s7: "jssub (Num v6) (Num 32) = Num v7"
    unfolding v7_def by (rule jssub_NumI) (rule d7(1))
  have e7: "\<bar>v7 - (x - 8649550112458015 / 17592186044416)\<bar> \<le> 9 / 17179869184"
    using d7(2) e6 unfolding v7_def by linarith
  have m8: "\<bar>v7 * 5\<bar> < 8388608" using e7 assms by linarith
  obtain d8 where d8: "round64 (v7 * 5) = Num (v7 * 5 + d8)" "\<bar>d8\<bar> \<le> 1 / 2147483648"
    using round64_error_abs [of "v7 * 5" 23] m8 by auto
  define v8 where "v8 = v7 * 5 + d8"
  have s8: "jsmul (Num v7) (Num 5) = Num v8"
    unfolding v8_def by (rule jsmul_NumI) (rule d8(1))
  have e8: "\<bar>v8 - (5 * x - 43247750562290075 / 17592186044416)\<bar> \<le> 53 / 17179869184"
    using d8(2) e7 unfolding v8_def by linarith
  have m9: "\<bar>v8 / 9\<bar> < 1048576" using e8 assms by linarith
  obtain d9 where d9: "round64 (v8 / 9) = Num (v8 / 9 + d9)" "\<bar>d9\<bar> \<le> 1 / 17179869184"
    using round64_error_abs [of "v8 / 9" 20] m9 by auto
  define v9 where "v9 = v8 / 9 + d9"
  have s9: "jsdiv (Num v8) (Num 9) = Num v9"
    unfolding v9_def by (rule jsdiv_NumI) (simp, rule d9(1))
  have e9: "\<bar>v9 - (5 / 9 * x - 43247750562290075 / 158329674399744)\<bar> \<le> 31 / 77309411328"
    using d9(2) e8 unfolding v9_def by linarith
  have m10: "\<bar>v9 * 9\<bar> < 8388608" using e9 assms by linarith
  obtain d10 where d10: "round64 (v9 * 9) = Num (v9 * 9 + d10)" "\<bar>d10\<bar> \<le> 1 / 2147483648"
    using round64_error_abs [of "v9 * 9" 23] m10 by auto
  define v10 where "v10 = v9 * 9 + d10"
  have s10: "jsmul (Num v9) (Num 9) = Num v10"
    unfolding v10_def by (rule jsmul_NumI) (rule d10(1))
  have e10: "\<bar>v10 - (5 * x - 43247750562290075 / 17592186044416)\<bar> \<le> 35 / 8589934592"
    using d10(2) e9 unfolding v10_def by linarith
  have m11: "\<bar>v10 / 5\<bar> < 1048576" using e10 assms by linarith
  obtain d11 where d11: "round64 (v10 / 5) = Num (v10 / 5 + d11)" "\<bar>d11\<bar> \<le> 1 / 17179869184"
    using round64_error_abs [of "v10 / 5" 20] m11 by auto
  define v11 where "v11 = v10 / 5 + d11"
  have s11: "jsdiv (Num v10) (Num 5) = Num v11"
    unfolding v11_def by (rule jsdiv_NumI) (simp, rule d11(1))
  have e11: "\<bar>v11 - (x - 8649550112458015 / 17592186044416)\<bar> \<le> 15 / 17179869184"
    using d11(2) e10 unfolding v11_def by linarith
  have m12: "\<bar>v11 + (8649550112458015 / 17592186044416)\<bar> < 1048576" using e11 assms by linarith
  obtain d12 where d12: "round64 (v11 + (8649550112458015 / 17592186044416)) = Num (v11 + (8649550112458015 / 17592186044416) + d12)" "\<bar>d12\<bar> \<le> 1 / 17179869184"
    using round64_error_abs [of "v11 + (8649550112458015 / 17592186044416)" 20] m12 by auto
  define v12 where "v12 = v11 + (8649550112458015 / 17592186044416) + d12"
  have s12: "jsadd (Num v11) (lit (49167 / 100)) = Num v12"
    unfolding v12_def lit_rankine by (rule jsadd_NumI) (rule d12(1))
  have e12: "\<bar>v12 - (x)\<bar> \<le> 1 / 1073741824"
    using d12(2) e11 unfolding v12_def by linarith
  have fwd: "convertTemperature (Num x) (Str ''R'') (Str ''F'') = Inr (Num v6)"
    by (simp only: convertTemperature_R_F s1 s2 s3 s4 s5 s6)
  have bwd: "convertTemperature (Num v6) (Str ''F'') (Str ''R'') = Inr (Num v12)"
    by (simp only: convertTemperature_F_R s7 s8 s9 s10 s11 s12)
  have "\<bar>v12 - x\<bar> \<le> 1 / 10 ^ 9" using e12 by simp
  with fwd bwd show ?thesis by blast
qed

lemma round_trip_R_K:
  assumes "\<bar>x\<bar> \<le> 1000000"
  shows "\<exists>y z. convertTemperature (Num x) (Str ''R'') (Str ''K'') = Inr (Num y)
           \<and> convertTemperature (Num y) (Str ''K'') (Str ''R'') = Inr (Num z)
           \<and> \<bar>z - x\<bar> \<le> 1 / 10 ^ 9"
proof -
  have m1: "\<bar>x - (8649550112458015 / 17592186044416)\<bar> < 1048576" using assms by linarith
  obtain d1 where d1: "round64 (x - (8649550112458015 / 17592186044416)) = Num (x - (8649550112458015 / 17592186044416) + d1)" "\<bar>d1\<bar> \<le> 1 / 17179869184"
    using round64_error_abs [of "x - (8649550112458015 / 17592186044416)" 20] m1 by auto
  define v1 where "v1 = x - (8649550112458015 / 17592186044416) + d1"
  have s1: "jssub (Num x) (lit (49167 / 100)) = Num v1"
    unfolding v1_def lit_rankine by (rule jssub_NumI) (rule d1(1))
  have e1: "\<bar>v1 - (x - 8649550112458015 / 17592186044416)\<bar> \<le> 1 / 17179869184"
    using d1(2) unfolding v1_def by linarith
  have m2: "\<bar>v1 * 5\<bar> < 8388608" using e1 assms by linarith
  obtain d2 where d2: "round64 (v1 * 5) = Num (v1 * 5 + d2)" "\<bar>d2\<bar> \<le> 1 / 2147483648"
    using round64_error_abs [of "v1 * 5" 23] m2 by auto
  define v2 where "v2 = v1 * 5 + d2"
  have s2: "jsmul (Num v1) (Num 5) = Num v2"
    unfolding v2_def by (rule jsmul_NumI) (rule d2(1))
  have e2: "\<bar>v2 - (5 * x - 43247750562290075 / 17592186044416)\<bar> \<le> 13 / 17179869184"
    using d2(2) e1 unfolding v2_def by linarith
  have m3: "\<bar>v2 / 9\<bar> < 1048576" using e2 assms by linarith
  obtain d3 where d3: "round64 (v2 / 9) = Num (v2 / 9 + d3)" "\<bar>d3\<bar> \<le> 1 / 17179869184"
    using round64_error_abs [of "v2 / 9" 20] m3 by auto
  define v3 where "v3 = v2 / 9 + d3"
  have s3: "jsdiv (Num v2) (Num 9) = Num v3"
    unfolding v3_def by (rule jsdiv_NumI) (simp, rule d3(1))
  have e3: "\<bar>v3 - (5 / 9 * x - 43247750562290075 / 158329674399744)\<bar> \<le> 11 / 77309411328"
    using d3(2) e2 unfolding v3_def by linarith
  have m4: "\<bar>v3 + (2402652809016115 / 8796093022208)\<bar> < 1048576" using e3 assms by linarith
  obtain d4 where d4: "round64 (v3 + (2402652809016115 / 8796093022208)) = Num (v3 + (2402652809016115 / 8796093022208) + d4)" "\<bar>d4\<bar> \<le> 1 / 17179869184"
    using round64_error_abs [of "v3 + (2402652809016115 / 8796093022208)" 20] m4 by auto
  define v4 where "v4 = v3 + (2402652809016115 / 8796093022208) + d4"
  have s4: "jsadd (Num v3) (lit (27315 / 100)) = Num v4"
    unfolding v4_def lit_kelvin by (rule jsadd_NumI) (rule d4(1))
  have e4: "\<bar>v4 - (5 / 9 * x - 5 / 158329674399744)\<bar> \<le> 31 / 154618822656"
    using d4(2) e3 unfolding v4_def by linarith
  have m5: "\<bar>v4 - (2402652809016115 / 8796093022208)\<bar> < 1048576" using e4 assms by linarith
  obtain d5 where d5: "round64 (v4 - (2402652809016115 / 8796093022208)) = Num (v4 - (2402652809016115 / 8796093022208) + d5)" "\<bar>d5\<bar> \<le> 1 / 17179869184"
    using round64_error_abs [of "v4 - (2402652809016115 / 8796093022208)" 20] m5 by auto
  define v5 where "v5 = v4 - (2402652809016115 / 8796093022208) + d5"
  have s5: "jssub (Num v4) (lit (27315 / 100)) = Num v5"
    unfolding v5_def lit_kelvin by (rule jssub_NumI) (rule d5(1))
  have e5: "\<bar>v5 - (5 / 9 * x - 43247750562290075 / 158329674399744)\<bar> \<le> 5 / 19327352832"
    using d5(2) e4 unfolding v5_def by linarith
  have m6: "\<bar>v5 * 9\<bar> < 8388608" using e5 assms by linarith
  obtain d6 where d6: "round64 (v5 * 9) = Num (v5 * 9 + d6)" "\<bar>d6\<bar> \<le> 1 / 2147483648"
    using round64_error_abs [of "v5 * 9" 23] m6 by auto
  define v6 where "v6 = v5 * 9 + d6"
  have s6: "jsmul (Num v5) (Num 9) = Num v6"
    unfolding v6_def by (rule jsmul_NumI) (rule d6(1))
  have e6: "\<bar>v6 - (5 * x - 43247750562290075 / 17592186044416)\<bar> \<le> 3 / 1073741824"
    using d6(2) e5 unfolding v6_def by linarith
  have m7: "\<bar>v6 / 5\<bar> < 1048576" using e6 assms by linarith
  obtain d7 where d7: "round64 (v6 / 5) = Num (v6 / 5 + d7)" "\<bar>d7\<bar> \<le> 1 / 17179869184"
    using round64_error_abs [of "v6 / 5" 20] m7 by auto
  define v7 where "v7 = v6 / 5 + d7"
  have s7: "jsdiv (Num v6) (Num 5) = Num v7"
    unfolding v7_def by (rule jsdiv_NumI) (simp, rule d7(1))
  have e7: "\<bar>v7 - (x - 8649550112458015 / 17592186044416)\<bar> \<le> 53 / 85899345920"
    using d7(2) e6 unfolding v7_def by linarith
  have m8: "\<bar>v7 + (8649550112458015 / 17592186044416)\<bar> < 1048576" using e7 assms by linarith
  obtain d8 where d8: "round64 (v7 + (8649550112458015 / 17592186044416)) = Num (v7 + (8649550112458015 / 17592186044416) + d8)" "\<bar>d8\<bar> \<le> 1 / 17179869184"
    using round64_error_abs [of "v7 + (8649550112458015 / 17592186044416)" 20] m8 by auto
  define v8 where "v8 = v7 + (8649550112458015 / 17592186044416) + d8"
  have s8: "jsadd (Num v7) (lit (49167 / 100)) = Num v8"
    unfolding v8_def lit_rankine by (rule jsadd_NumI) (rule d8(1))
  have e8: "\<bar>v8 - (x)\<bar> \<le> 29 / 42949672960"
    using d8(2) e7 unfolding v8_def by linarith
  have fwd: "convertTemperature (Num x) (Str ''R'') (Str ''K'') = Inr (Num v4)"
    by (simp only: convertTemperature_R_K s1 s2 s3 s4)
  have bwd: "convertTemperature (Num v4) (Str ''K'') (Str ''R'') = Inr (Num v8)"
    by (simp only: convertTemperature_K_R s5 s6 s7 s8)
  have "\<bar>v8 - x\<bar> \<le> 1 / 10 ^ 9" using e8 by simp
  with fwd bwd show ?thesis by blast
qed

text \<open>The ratio path: two roundings there and two back, each within the fraction
  \<open>2^-53\<close> of a value that stays below \<open>2^20\<close> when measured in the first unit.\<close>

lemma lit_in_range:
  assumes "1 / 16384 \<le> q" "q \<le> 33554432"
  shows "\<exists>r. lit q = Num r \<and> 1 / 32768 \<le> r \<and> r \<le> 67108864"
proof -
  have "\<bar>q\<bar> < 2 ^ 1023" using assms by simp
  then obtain d where d: "round64 q = Num (q + d)" "\<bar>d\<bar> \<le> \<bar>q\<bar> / 2 ^ 53 + 1 / 2 ^ 1075"
    using round64_error_rel by blast
  have t: "(1::rat) / 2 ^ 1075 \<le> 1 / 2 ^ 53" by simp
  have "\<bar>d\<bar> \<le> q / 9007199254740992 + 1 / 9007199254740992" using d(2) t assms by simp
  then have "1 / 32768 \<le> q + d \<and> q + d \<le> 67108864" using assms by linarith
  with d(1) show ?thesis unfolding lit_def by blast
qed

lemma scale_bound:
  fixes h :: rat
  assumes "0 < h" "\<bar>d\<bar> \<le> \<bar>w * h\<bar> / c + t" "1 / h \<le> G" "0 \<le> t"
  shows "\<bar>d / h\<bar> \<le> \<bar>w\<bar> / c + t * G"
proof -
  have "\<bar>d / h\<bar> = \<bar>d\<bar> / h" using assms(1) by simp
  also have "\<dots> \<le> (\<bar>w * h\<bar> / c + t) / h"
    using assms(1,2) by (simp add: divide_right_mono)
  also have "\<dots> = \<bar>w\<bar> / c + t * (1 / h)"
    using assms(1) by (simp add: abs_mult add_divide_distrib)
  also have "\<dots> \<le> \<bar>w\<bar> / c + t * G"
    using mult_left_mono [OF assms(3,4)] by simp
  finally show ?thesis .
qed

lemma round_step:
  assumes "0 < h" "h \<le> 2 ^ 41" "1 / h \<le> 2 ^ 41" "\<bar>w\<bar> \<le> 1048576"
  shows "\<exists>d. round64 (w * h) = Num ((w + d) * h) \<and> \<bar>d\<bar> \<le> 1 / 4294967296"
proof -
  have "\<bar>w * h\<bar> = \<bar>w\<bar> * h" using assms(1) by (simp add: abs_mult)
  also have "\<dots> \<le> 1048576 * 2 ^ 41"
    using assms(1,2,4) by (intro mult_mono) simp_all
  also have "\<dots> < 2 ^ 1023" by simp
  finally obtain d0 where d0: "round64 (w * h) = Num (w * h + d0)"
      "\<bar>d0\<bar> \<le> \<bar>w * h\<bar> / 2 ^ 53 + 1 / 2 ^ 1075"
    using round64_error_rel by blast
  have b: "\<bar>d0 / h\<bar> \<le> \<bar>w\<bar> / 2 ^ 53 + 1 / 2 ^ 1075 * 2 ^ 41"
    by (rule scale_bound [OF assms(1) d0(2) assms(3)]) simp
  have "(w + d0 / h) * h = w * h + d0" using assms(1) by (simp add: distrib_right)
  moreover have "\<bar>d0 / h\<bar> \<le> 1 / 4294967296" using b assms(4) by simp
  ultimately show ?thesis using d0(1) by metis
qed

lemma ratio_round_trip:
  assumes a: "1 / 32768 \<le> a" "a \<le> 67108864" and b: "1 / 32768 \<le> b" "b \<le> 67108864"
    and x: "\<bar>x\<bar> \<le> 1000000"
  shows "\<exists>y z. jsdiv (jsmul (Num x) (Num a)) (Num b) = Num y
           \<and> jsdiv (jsmul (Num y) (Num b)) (Num a) = Num z
           \<and> \<bar>z - x\<bar> \<le> 1 / 10 ^ 9"
proof -
  have a0: "0 < a" and b0: "0 < b" using a b by simp_all
  have ha: "a \<le> 2 ^ 41" "1 / a \<le> 2 ^ 41"
    using a a0 by (simp_all add: divide_le_eq)
  have "a / b \<le> 67108864 / (1 / 32768)"
    using a b by (intro frac_le) simp_all
  then have hab1: "a / b \<le> 2 ^ 41" by simp
  have "b / a \<le> 67108864 / (1 / 32768)"
    using a b by (intro frac_le) simp_all
  then have hab2: "1 / (a / b) \<le> 2 ^ 41" by simp
  have hab0: "0 < a / b" using a0 b0 by simp
  obtain d1 where d1: "round64 (x * a) = Num ((x + d1) * a)" "\<bar>d1\<bar> \<le> 1 / 4294967296"
    using round_step [OF a0 ha, of x] x by auto
  define w1 where "w1 = x + d1"
  have w1: "\<bar>w1\<bar> \<le> 1048576" using d1(2) x unfolding w1_def by linarith
  obtain d2 where d2: "round64 (w1 * (a / b)) = Num ((w1 + d2) * (a / b))" "\<bar>d2\<bar> \<le> 1 / 4294967296"
    using round_step [OF hab0 hab1 hab2 w1] by auto
  define w2 where "w2 = w1 + d2"
  have w2: "\<bar>w2\<bar> \<le> 1048576" using d1(2) d2(2) x unfolding w1_def w2_def by linarith
  obtain d3 where d3: "round64 (w2 * a) = Num ((w2 + d3) * a)" "\<bar>d3\<bar> \<le> 1 / 4294967296"
    using round_step [OF a0 ha w2] by auto
  define w3 where "w3 = w2 + d3"
  have w3: "\<bar>w3\<bar> \<le> 1048576" using d1(2) d2(2) d3(2) x unfolding w1_def w2_def w3_def by linarith
  obtain d4 where d4: "round64 (w3 * 1) = Num ((w3 + d4) * 1)" "\<bar>d4\<bar> \<le> 1 / 4294967296"
    using round_step [of 1 w3] w3 by auto
  define y where "y = w2 * (a / b)"
  define z where "z = w3 + d4"
  have 1: "jsmul (Num x) (Num a) = Num (w1 * a)" using d1(1) by (simp add: w1_def)
  have 2: "jsdiv (Num (w1 * a)) (Num b) = Num y"
    using d2(1) b0 by (simp add: y_def w2_def)
  have "y * b = w2 * a" using b0 by (simp add: y_def)
  then have 3: "jsmul (Num y) (Num b) = Num (w3 * a)" using d3(1) by (simp add: w3_def)
  have 4: "jsdiv (Num (w3 * a)) (Num a) = Num z"
    using d4(1) a0 by (simp add: z_def)
  have "\<bar>z - x\<bar> \<le> 1 / 1000000000"
    using d1(2) d2(2) d3(2) d4(2) unfolding z_def w3_def w2_def w1_def by linarith
  then have "\<bar>z - x\<bar> \<le> 1 / 10 ^ 9" by simp
  then show ?thesis using 1 2 3 4 by simp
qed

lemma temperature_round_trip:
  assumes "A \<in> {''C'', ''F'', ''K'', ''R''}" "B \<in> {''C'', ''F'', ''K'', ''R''}"
    and x: "\<bar>x\<bar> \<le> 1000000"
  shows "\<exists>y z. convertTemperature (Num x) (Str A) (Str B) = Inr (Num y)
           \<and> convertTemperature (Num y) (Str B) (Str A) = Inr (Num z)
           \<and> \<bar>z - x\<bar> \<le> 1 / 10 ^ 9"
proof -
  have A: "A = ''C'' \<or> A = ''F'' \<or> A = ''K'' \<or> A = ''R''" using assms(1) by simp
  have B: "B = ''C'' \<or> B = ''F'' \<or> B = ''K'' \<or> B = ''R''" using assms(2) by simp
  from A show ?thesis
  proof (elim disjE)
    assume a: "A = ''C''"
    from B show ?thesis
    proof (elim disjE)
      assume b: "B = ''C''"
      show ?thesis unfolding a b by (simp add: convertTemperature_def)
    next
      assume b: "B = ''F''"
      show ?thesis unfolding a b by (rule round_trip_C_F [OF x])
    next
      assume b: "B = ''K''"
      show ?thesis unfolding a b by (rule round_trip_C_K [OF x])
    next
      assume b: "B = ''R''"
      show ?thesis unfolding a b by (rule round_trip_C_R [OF x])
    qed
  next
    assume a: "A = ''F''"
    from B show ?thesis
    proof (elim disjE)
      assume b: "B = ''C''"
      show ?thesis unfolding a b by (rule round_trip_F_C [OF x])
    next
      assume b: "B = ''F''"
      show ?thesis unfolding a b by (simp add: convertTemperature_def)
    next
      assume b: "B = ''K''"
      show ?thesis unfolding a b by (rule round_trip_F_K [OF x])
    next
      assume b: "B = ''R''"
      show ?thesis unfolding a b by (rule round_trip_F_R [OF x])
    qed
  next
    assume a: "A = ''K''"
    from B show ?thesis
    proof (elim disjE)
      assume b: "B = ''C''"
      show ?thesis unfolding a b by (rule round_trip_K_C [OF x])
    next
      assume b: "B = ''F''"
      show ?thesis unfolding a b by (rule round_trip_K_F [OF x])
    next
      assume b: "B = ''K''"
      show ?thesis unfolding a b by (simp add: convertTemperature_def)
    next
      assume b: "B = ''R''"
      show ?thesis unfolding a b by (rule round_trip_K_R [OF x])
    qed
  next
    assume a: "A = ''R''"
    from B show ?thesis
    proof (elim disjE)
      assume b: "B = ''C''"
      show ?thesis unfolding a b by (rule round_trip_R_C [OF x])
    next
      assume b: "B = ''F''"
      show ?thesis unfolding a b by (rule round_trip_R_F [OF x])
    next
      assume b: "B = ''K''"
      show ?thesis unfolding a b by (rule round_trip_R_K [OF x])
    next
      assume b: "B = ''R''"
      show ?thesis unfolding a b by (simp add: convertTemperature_def)
    qed
  qed
qed

text \<open>
  C2. The claim: for every value and every two units of one measurement category,
  converting from the first unit to the second and back reproduces the value up to
  floating-point tolerance, the temperature round trips within 1e-9. In binary64 arithmetic
  this fails for large values: the spacing of the numbers grows with their magnitude, and
  the round trip of 15000000.03 degrees Fahrenheit through Celsius comes back as
  15000000.029999997, off by \<open>2^-29\<close>, about 1.86e-9 (the theorem after the witness below).
  Amended: for every value of magnitude at most \<open>10^6\<close> and every two units of one
  category of the table (ratio categories, and Celsius, Fahrenheit, Kelvin and Rankine, in
  particular F to C to F and K to C to K), both conversions return finite numbers and the
  round trip is within 1e-9 of the value.
\<close>

theorem convert_round_trip_within_tolerance:
  assumes "(m, units) \<in> set conversions" "(A, dA) \<in> set units" "(B, dB) \<in> set units"
    and x: "\<bar>x\<bar> \<le> 10 ^ 6"
  shows "\<exists>y z. convert_to (Num x) (Str A) (Str B) = Inr (Num y)
           \<and> convert_to (Num y) (Str B) (Str A) = Inr (Num z)
           \<and> \<bar>z - x\<bar> \<le> 1 / 10 ^ 9"
proof (cases "m = ''temperature''")
  case False
  obtain qA qB where q: "ratio dA = Some qA" "ratio dB = Some qB"
      "1 / 16384 \<le> qA" "qA \<le> 33554432" "1 / 16384 \<le> qB" "qB \<le> 33554432"
    using convert_to_ratio [OF assms(1,2,3) False] by blast
  have fwd: "convert_to (Num v) (Str A) (Str B) = Inr (jsdiv (jsmul (Num v) (lit qA)) (lit qB))" for v
    using convert_to_ratio [OF assms(1,2,3) False, of v] q(1,2) by auto
  have bwd: "convert_to (Num v) (Str B) (Str A) = Inr (jsdiv (jsmul (Num v) (lit qB)) (lit qA))" for v
    using convert_to_ratio [OF assms(1,3,2) False, of v] q(1,2) by auto
  obtain a where a: "lit qA = Num a" "1 / 32768 \<le> a" "a \<le> 67108864"
    using lit_in_range [OF q(3,4)] by blast
  obtain b where b: "lit qB = Num b" "1 / 32768 \<le> b" "b \<le> 67108864"
    using lit_in_range [OF q(5,6)] by blast
  have "\<bar>x\<bar> \<le> 1000000" using x by simp
  from ratio_round_trip [OF a(2,3) b(2,3) this] show ?thesis
    unfolding fwd bwd a(1) b(1) by simp
next
  case True
  have u: "map fst units = [''C'', ''F'', ''K'', ''R'']"
    using unit_in_table(1) [OF assms(1,2)] True temperature_units by simp
  have "A \<in> set (map fst units)" "B \<in> set (map fst units)"
    using assms(2,3) by force+
  then have AB: "A \<in> {''C'', ''F'', ''K'', ''R''}" "B \<in> {''C'', ''F'', ''K'', ''R''}"
    unfolding u by simp_all
  have c: "convert_to (Num v) (Str A) (Str B) = convertTemperature (Num v) (Str A) (Str B)"
          "convert_to (Num v) (Str B) (Str A) = convertTemperature (Num v) (Str B) (Str A)" for v
    unfolding convert_to_def this_value_Num Let_def
    using unit_in_table [OF assms(1,2)] unit_in_table [OF assms(1,3)] True by simp_all
  have "\<bar>x\<bar> \<le> 1000000" using x by simp
  from temperature_round_trip [OF AB this] show ?thesis unfolding c .
qed

theorem convert_round_trip_within_tolerance_witness:
  "\<exists>y z. convert_to (Num 5) (Str ''mi'') (Str ''km'') = Inr (Num y)
           \<and> convert_to (Num y) (Str ''km'') (Str ''mi'') = Inr (Num z)
           \<and> \<bar>z - 5\<bar> \<le> 1 / 10 ^ 9"
proof -
  have 1: "(''length'', snd (hd conversions)) \<in> set conversions" by (simp add: conversions_def)
  have 2: "(''mi'', \<lparr>name = ''mile'', ratio = Some (1609344 / 1000)\<rparr>) \<in> set (snd (hd conversions))"
    by (simp add: conversions_def)
  have 3: "(''km'', \<lparr>name = ''kilometer'', ratio = Some 1000\<rparr>) \<in> set (snd (hd conversions))"
    by (simp add: conversions_def)
  have 4: "\<bar>5 :: rat\<bar> \<le> 10 ^ 6" by simp
  show ?thesis using convert_round_trip_within_tolerance [OF 1 2 3 4] .
qed

text \<open>
  The decimal 15000000.03 denotes the binary64 value \<open>8053063696106127 / 2^29\<close>. From
  Fahrenheit to Celsius it becomes 8333315.572222222, and back 15000000.029999997, which
  differs from the input by more than 1e-9.
\<close>

theorem fahrenheit_round_trip_exceeds_tolerance:
  "lit (1500000003 / 100) = Num (8053063696106127 / 536870912)
   \<and> convert_to (Num (8053063696106127 / 536870912)) (Str ''F'') (Str ''C'') = Inr (Num (2236957365621373 / 268435456))
   \<and> convert_to (Num (2236957365621373 / 268435456)) (Str ''C'') (Str ''F'') = Inr (Num (4026531848053063 / 268435456))
   \<and> 1 / 10 ^ 9 < \<bar>4026531848053063 / 268435456 - 8053063696106127 / 536870912 :: rat\<bar>"
proof -
  have l: "lit (1500000003 / 100) = Num (8053063696106127 / 536870912)"
    unfolding lit_def
    by (rule round64_eqI [where e = "23" and m = 8053063696106127]) (simp_all add: power_int_minus_divide)
  have s1: "jssub (Num (8053063696106127 / 536870912)) (Num 32) = Num (8053046516236943 / 536870912)"
    by (rule jssub_NumI, rule round64_eqI [where e = "23" and m = 8053046516236943])
      (simp_all add: power_int_minus_divide)
  have s2: "jsmul (Num (8053046516236943 / 536870912)) (Num 5) = Num (5033154072648089 / 67108864)"
    by (rule jsmul_NumI, rule round64_eqI [where e = "26" and m = 5033154072648089])
      (simp_all add: power_int_minus_divide)
  have s3: "jsdiv (Num (5033154072648089 / 67108864)) (Num 9) = Num (2236957365621373 / 268435456)"
    by (rule jsdiv_NumI, simp, rule round64_eqI [where e = "22" and m = 8947829462485492])
      (simp_all add: power_int_minus_divide)
  have s4: "jsmul (Num (2236957365621373 / 268435456)) (Num 9) = Num (5033154072648089 / 67108864)"
    by (rule jsmul_NumI, rule round64_eqI [where e = "26" and m = 5033154072648089])
      (simp_all add: power_int_minus_divide)
  have s5: "jsdiv (Num (5033154072648089 / 67108864)) (Num 5) = Num (4026523258118471 / 268435456)"
    by (rule jsdiv_NumI, simp, rule round64_eqI [where e = "23" and m = 8053046516236942])
      (simp_all add: power_int_minus_divide)
  have s6: "jsadd (Num (4026523258118471 / 268435456)) (Num 32) = Num (4026531848053063 / 268435456)"
    by (rule jsadd_NumI, rule round64_eqI [where e = "23" and m = 8053063696106126])
      (simp_all add: power_int_minus_divide)
  have t: "findMeasure (Str ''F'') = Some ''temperature''" "findMeasure (Str ''C'') = Some ''temperature''"
    by code_simp+
  have fwd: "convert_to (Num (8053063696106127 / 536870912)) (Str ''F'') (Str ''C'') = Inr (Num (2236957365621373 / 268435456))"
    unfolding convert_to_temperature [OF t(1)] this_value_Num convertTemperature_F_C s1 s2 s3 ..
  have bwd: "convert_to (Num (2236957365621373 / 268435456)) (Str ''C'') (Str ''F'') = Inr (Num (4026531848053063 / 268435456))"
    unfolding convert_to_temperature [OF t(2)] this_value_Num convertTemperature_C_F s4 s5 s6 ..
  have "1 / 10 ^ 9 < \<bar>4026531848053063 / 268435456 - 8053063696106127 / 536870912 :: rat\<bar>" by simp
  with l fwd bwd show ?thesis by blast
qed

text \<open>
  C4. The claim: the pipeline rejects unknown units with an unsuccessful result naming both
  units. The lookup \<open>units[unit]\<close> of \<open>findMeasure\<close> also finds the members every object
  inherits, so the tokens \<open>toString\<close> and \<open>valueOf\<close>, which are units of no category,
  pass for length units: \<open>canConvert\<close> accepts them, the ratio path multiplies by an
  undefined ratio, and the pipeline answers with a successful result whose value is \<open>NaN\<close>.
  The other parts of the claim hold: units of the table from different categories are
  rejected (\<open>canConvert_table_units\<close>, \<open>handleConversion_rejects\<close>), a unit that is neither
  in the table nor an inherited name is rejected (\<open>canConvert_unknown\<close>), two units of one
  ratio category give \<open>value * fromRatio / toRatio\<close>, each operation rounded
  (\<open>convertUnits_ratio\<close>), and a
  temperature unit goes through \<open>convertTemperature\<close> (\<open>convert_to_temperature\<close>).
\<close>

theorem handleConversion_inherited_member:
  "handleConversion True (Some (Num 5, ''toString'', ''valueOf'')) ''5 toString to valueOf''
     = Inr (UnitSuccess NaN (Num 5) (Str ''toString'') (Str ''valueOf'')
              [NumText (Num 5), Txt '' '', Txt ''toString'', Txt '' = '', Fixed 6 NaN,
               Txt '' '', Txt ''valueOf''])
   \<and> ''toString'' \<notin> set (map fst (concat (map snd conversions)))
   \<and> ''valueOf'' \<notin> set (map fst (concat (map snd conversions)))"
  by code_simp

lemma canConvert_table_units:
  assumes "(m1, units1) \<in> set conversions" "(u1, d1) \<in> set units1"
    and "(m2, units2) \<in> set conversions" "(u2, d2) \<in> set units2"
  shows "canConvert True (Str u1) (Str u2) \<longleftrightarrow> m1 = m2"
  by (simp add: canConvert_def describe_table_unit [OF assms(1,2)]
      describe_table_unit [OF assms(3,4)])

lemma findMeasureIn_unknown:
  assumes "toKey u \<notin> set (map fst (concat (map snd cs)))"
    and "toKey u \<notin> set object_prototype_keys"
  shows "findMeasureIn cs u = None"
  using assms
proof (induction cs)
  case Nil
  then show ?case by simp
next
  case (Cons c cs)
  obtain m units where c: "c = (m, units)" by (cases c)
  have "map_of units (toKey u) = None"
    using Cons.prems(1) by (simp add: c map_of_eq_None_iff)
  then have "obj_get units (toKey u) = Undefined"
    using Cons.prems(2) by (simp add: obj_get_def)
  then show ?case using Cons by (simp add: c)
qed

lemma canConvert_unknown:
  assumes "toKey u \<notin> set (map fst (concat (map snd conversions)))"
    and "toKey u \<notin> set object_prototype_keys"
  shows "\<not> canConvert lib u v" "\<not> canConvert lib v u"
  using findMeasureIn_unknown [OF assms]
  by (simp_all add: canConvert_def describe_def findMeasure_def split: option.splits)

lemma handleConversion_rejects:
  assumes "\<not> canConvert lib (normalizeUnit a) (normalizeUnit b)"
  shows "handleConversion lib (Some (v, a, b)) q =
           Inr (UnitRejected
                  (''Cannot convert from '' @ toKey (normalizeUnit a) @ '' to ''
                     @ toKey (normalizeUnit b) @ ''. Units may be incompatible or not supported.'')
                  q (v, normalizeUnit a, normalizeUnit b))"
  using assms by (simp add: handleConversion_def Let_def)

lemma convertUnits_ratio:
  assumes "(m, units) \<in> set conversions" "(A, dA) \<in> set units" "(B, dB) \<in> set units"
    and "m \<noteq> ''temperature''"
  shows "\<exists>rA rB. ratio dA = Some rA \<and> ratio dB = Some rB \<and>
           convertUnits True (Num x) (Str A) (Str B) =
             Inr (UnitSuccess (jsdiv (jsmul (Num x) (lit rA)) (lit rB)) (Num x) (Str A) (Str B)
                    [NumText (Num x), Txt '' '', Txt A, Txt '' = '',
                     Fixed 6 (jsdiv (jsmul (Num x) (lit rA)) (lit rB)), Txt '' '', Txt B])"
  using convert_to_ratio [OF assms, of x] by (auto simp add: convertUnits_def)

section \<open>Currency conversion\<close>

lemma toUpperChar_not_lower: "\<not> (97 \<le> (of_char (toUpperChar c) :: nat) \<and> (of_char (toUpperChar c) :: nat) \<le> 122)"
  by (auto simp add: toUpperChar_def Let_def)

lemma toUpperCase_no_lower:
  "\<forall>c \<in> set (toUpperCase s). \<not> (97 \<le> (of_char c :: nat) \<and> (of_char c :: nat) \<le> 122)"
  using toUpperChar_not_lower by (auto simp add: toUpperCase_def)

lemma toUpperCase_not_inherited: "toUpperCase s \<notin> set object_prototype_keys"
proof
  assume a: "toUpperCase s \<in> set object_prototype_keys"
  have "\<forall>k \<in> set object_prototype_keys. \<exists>c \<in> set k. 97 \<le> (of_char c :: nat) \<and> (of_char c :: nat) \<le> 122"
    by (simp add: object_prototype_keys_def)
  with a toUpperCase_no_lower [of s] show False by blast
qed

lemma fallback_key_not_inherited:
  "toUpperCase a @ ''-'' @ toUpperCase b \<notin> set object_prototype_keys"
proof
  assume a: "toUpperCase a @ ''-'' @ toUpperCase b \<in> set object_prototype_keys"
  have "\<forall>k \<in> set object_prototype_keys. CHR ''-'' \<notin> set k"
    by (simp add: object_prototype_keys_def)
  with a show False by fastforce
qed

text \<open>
  C3. When the two currency tokens are equal up to letter case, \<open>convertCurrency\<close> returns
  a success result whose \<open>rate\<close> is 1 and whose \<open>result\<close> is the amount itself, whatever
  the amount, and the converter's state is returned as it was: the trace gains no fetch and
  no cache access, and the cache is untouched.
\<close>

theorem same_currency_identity:
  assumes "toLowerCase fromCurrency = toLowerCase toCurrency"
  shows "convertCurrency resp amount fromCurrency toCurrency s =
           (CurrencySuccess amount (Num 1) amount (toUpperCase fromCurrency)
              (toUpperCase toCurrency)
              [NumText amount, Txt '' '', Txt (toUpperCase fromCurrency), Txt '' = '',
               NumText amount, Txt '' '', Txt (toUpperCase toCurrency)]
              None,
            s)"
  using assms by (simp add: convertCurrency_def)

theorem same_currency_identity_witness:
  "convertCurrency \<lparr>latency = 0, outcome = Rejected ''Failed to fetch''\<rparr> (Num (25 / 2)) ''usd'' ''USD''
       \<lparr>cache = Map.empty, clock = 0, trace = []\<rparr> =
     (CurrencySuccess (Num (25 / 2)) (Num 1) (Num (25 / 2)) ''USD'' ''USD''
        [NumText (Num (25 / 2)), Txt '' '', Txt ''USD'', Txt '' = '', NumText (Num (25 / 2)),
         Txt '' '', Txt ''USD''] None,
      \<lparr>cache = Map.empty, clock = 0, trace = []\<rparr>)"
proof -
  have h: "toLowerCase ''usd'' = toLowerCase ''USD''" by code_simp
  have u: "toUpperCase ''usd'' = ''USD''" "toUpperCase ''USD'' = ''USD''" by code_simp+
  show ?thesis
    using same_currency_identity [OF h, of "\<lparr>latency = 0, outcome = Rejected ''Failed to fetch''\<rparr>"
        "Num (25 / 2)" "\<lparr>cache = Map.empty, clock = 0, trace = []\<rparr>"]
    by (simp only: u)
qed

lemma fetchedRate_Rejected: "fetchedRate (Rejected message) a b = Inl message"
  by (simp add: fetchedRate_def)

lemma fetchedRate_HttpError:
  "fetchedRate (HttpError status statusText) a b = Inl (''HTTP '' @ showNat status @ '': '' @ statusText)"
  by (simp add: fetchedRate_def)

lemma fetchedRate_missing:
  assumes "rates = None \<or> (\<exists>table. rates = Some table \<and> map_of table (toUpperCase b) = None)"
  shows "fetchedRate (Body rates) a b = Inl (''Exchange rate not available for '' @ a @ '' to '' @ b)"
  using assms by (auto simp add: fetchedRate_def)

lemma getExchangeRate_miss:
  assumes "\<forall>c. cache s (cacheKeyOf a b) = Some c \<longrightarrow> \<not> clock s - timestamp c < cacheTimeout"
  shows "getExchangeRate resp a b s =
     (let key = cacheKeyOf a b;
          s2 = s\<lparr>trace := trace s @ [CacheGet key, Fetch (apiBaseUrl @ ''/'' @ toUpperCase a)],
                 clock := clock s + int (latency resp)\<rparr>
      in case fetchedRate (outcome resp) a b of
           Inr r \<Rightarrow> (Inr r, s2\<lparr>cache := (cache s)(key \<mapsto> \<lparr>rate = r, timestamp = clock s + int (latency resp)\<rparr>),
                              trace := trace s @ [CacheGet key, Fetch (apiBaseUrl @ ''/'' @ toUpperCase a), CacheSet key]\<rparr>)
         | Inl message \<Rightarrow>
             (case getFallbackRate a b of Some fb \<Rightarrow> (Inr fb, s2) | None \<Rightarrow> (Inl message, s2)))"
  using assms
  by (cases "cache s (cacheKeyOf a b)") (auto simp add: getExchangeRate_def Let_def split: sum.splits option.splits)

lemma getExchangeRate_hit:
  assumes "cache s (cacheKeyOf a b) = Some c" "clock s - timestamp c < cacheTimeout"
  shows "getExchangeRate resp a b s = (Inr (rate c), s\<lparr>trace := trace s @ [CacheGet (cacheKeyOf a b)]\<rparr>)"
  using assms by (simp add: getExchangeRate_def Let_def)

lemma dash_split:
  assumes "CHR ''-'' \<notin> set u" "CHR ''-'' \<notin> set v"
  shows "(xs @ CHR ''-'' # ys = u @ CHR ''-'' # v) = (xs = u \<and> ys = v)"
  using assms
proof (induction u arbitrary: xs)
  case Nil
  then show ?case by (cases xs) auto
next
  case (Cons c u)
  then show ?case by (cases xs) auto
qed

lemma fallback_lookup:
  "map_of fallbackRates (x @ ''-'' @ y) =
     map_of [((''USD'', ''EUR''), 85 / 100), ((''EUR'', ''USD''), 118 / 100),
             ((''USD'', ''GBP''), 73 / 100), ((''GBP'', ''USD''), 137 / 100),
             ((''USD'', ''JPY''), 110), ((''JPY'', ''USD''), 9 / 1000),
             ((''EUR'', ''GBP''), 86 / 100), ((''GBP'', ''EUR''), 116 / 100),
             ((''USD'', ''CAD''), 125 / 100), ((''CAD'', ''USD''), 80 / 100),
             ((''USD'', ''AUD''), 135 / 100), ((''AUD'', ''USD''), 74 / 100)] (x, y)"
proof -
  have k: "(x @ CHR ''-'' # y = ''USD-EUR'') = (x = ''USD'' \<and> y = ''EUR'')"
      "(x @ CHR ''-'' # y = ''EUR-USD'') = (x = ''EUR'' \<and> y = ''USD'')"
      "(x @ CHR ''-'' # y = ''USD-GBP'') = (x = ''USD'' \<and> y = ''GBP'')"
      "(x @ CHR ''-'' # y = ''GBP-USD'') = (x = ''GBP'' \<and> y = ''USD'')"
      "(x @ CHR ''-'' # y = ''USD-JPY'') = (x = ''USD'' \<and> y = ''JPY'')"
      "(x @ CHR ''-'' # y = ''JPY-USD'') = (x = ''JPY'' \<and> y = ''USD'')"
      "(x @ CHR ''-'' # y = ''EUR-GBP'') = (x = ''EUR'' \<and> y = ''GBP'')"
      "(x @ CHR ''-'' # y = ''GBP-EUR'') = (x = ''GBP'' \<and> y = ''EUR'')"
      "(x @ CHR ''-'' # y = ''USD-CAD'') = (x = ''USD'' \<and> y = ''CAD'')"
      "(x @ CHR ''-'' # y = ''CAD-USD'') = (x = ''CAD'' \<and> y = ''USD'')"
      "(x @ CHR ''-'' # y = ''USD-AUD'') = (x = ''USD'' \<and> y = ''AUD'')"
      "(x @ CHR ''-'' # y = ''AUD-USD'') = (x = ''AUD'' \<and> y = ''USD'')"
    using dash_split [of "''USD''" "''EUR''" x y] dash_split [of "''EUR''" "''USD''" x y]
      dash_split [of "''USD''" "''GBP''" x y] dash_split [of "''GBP''" "''USD''" x y]
      dash_split [of "''USD''" "''JPY''" x y] dash_split [of "''JPY''" "''USD''" x y]
      dash_split [of "''EUR''" "''GBP''" x y] dash_split [of "''GBP''" "''EUR''" x y]
      dash_split [of "''USD''" "''CAD''" x y] dash_split [of "''CAD''" "''USD''" x y]
      dash_split [of "''USD''" "''AUD''" x y] dash_split [of "''AUD''" "''USD''" x y]
    by simp_all
  show ?thesis by (simp add: fallbackRates_def k)
qed

lemma fallbackRates_in_range:
  "list_all (\<lambda>(k, r). 1 / 16384 \<le> r \<and> r \<le> 33554432) fallbackRates"
  by code_simp

lemma fallback_truthy:
  assumes "map_of fallbackRates k = Some r"
  shows "truthyNum (lit r)"
proof -
  have "(k, r) \<in> set fallbackRates" using assms by (rule map_of_SomeD)
  then have "1 / 16384 \<le> r \<and> r \<le> 33554432"
    using fallbackRates_in_range unfolding list_all_iff by blast
  then obtain v where "lit r = Num v" "1 / 32768 \<le> v"
    using lit_in_range [of r] by blast
  then show ?thesis by simp
qed

lemma getFallbackRate_table:
  "getFallbackRate a b =
     map_option lit (map_of fallbackRates (toUpperCase a @ ''-'' @ toUpperCase b))"
  using fallback_truthy [of "toUpperCase a @ ''-'' @ toUpperCase b"]
  by (cases "map_of fallbackRates (toUpperCase a @ ''-'' @ toUpperCase b)")
    (simp_all add: getFallbackRate_def Let_def)

lemma lit_usd_eur: "lit (17 / 20) = Num (7656119366529843 / 9007199254740992)"
  unfolding lit_def
  by (rule round64_eqI [where e = "- 1" and m = 7656119366529843])
    (simp_all add: power_int_minus_divide)

text \<open>
  C6. Take two different currencies whose rate is not served from the cache, and let the
  fetch fail, or the response lack the target currency, with a message (the three ways are
  \<open>fetchedRate_Rejected\<close>, \<open>fetchedRate_HttpError\<close> and \<open>fetchedRate_missing\<close>). The
  hardcoded table has twelve ordered pairs. If the upper-cased pair is one of them,
  \<open>getExchangeRate\<close> answers with the number its decimal literal denotes, and
  \<open>convertCurrency\<close> returns a success result computed with that rate. If the pair is not
  one of them, \<open>getExchangeRate\<close> rethrows the message, and \<open>convertCurrency\<close> returns
  the failure result carrying that message, the amount and the two currency inputs as they
  were given. \<open>convertCurrency\<close> returns a result object on every path: the errors thrown
  inside are values of \<open>getExchangeRate\<close>, and none is left in its result.
\<close>

theorem fallback_or_error_result:
  assumes "toLowerCase a \<noteq> toLowerCase b"
    and "\<forall>c. cache s (cacheKeyOf a b) = Some c \<longrightarrow> \<not> clock s - timestamp c < cacheTimeout"
    and "fetchedRate (outcome resp) a b = Inl message"
  shows "case map_of [((''USD'', ''EUR''), 85 / 100), ((''EUR'', ''USD''), 118 / 100),
                      ((''USD'', ''GBP''), 73 / 100), ((''GBP'', ''USD''), 137 / 100),
                      ((''USD'', ''JPY''), 110), ((''JPY'', ''USD''), 9 / 1000),
                      ((''EUR'', ''GBP''), 86 / 100), ((''GBP'', ''EUR''), 116 / 100),
                      ((''USD'', ''CAD''), 125 / 100), ((''CAD'', ''USD''), 80 / 100),
                      ((''USD'', ''AUD''), 135 / 100), ((''AUD'', ''USD''), 74 / 100)]
                (toUpperCase a, toUpperCase b) of
           Some r \<Rightarrow>
             fst (getExchangeRate resp a b s) = Inr (lit r)
             \<and> fst (convertCurrency resp amount a b s) =
                 CurrencySuccess (jsmul amount (lit r)) (lit r) amount (toUpperCase a)
                   (toUpperCase b)
                   [NumText amount, Txt '' '', Txt (toUpperCase a), Txt '' = '',
                    Fixed 2 (jsmul amount (lit r)), Txt '' '', Txt (toUpperCase b)]
                   (Some (clock s + int (latency resp)))
         | None \<Rightarrow>
             fst (getExchangeRate resp a b s) = Inl message
             \<and> fst (convertCurrency resp amount a b s) = CurrencyFailure message amount a b"
proof -
  have g: "getFallbackRate a b =
     map_option lit
       (map_of [((''USD'', ''EUR''), 85 / 100), ((''EUR'', ''USD''), 118 / 100),
                ((''USD'', ''GBP''), 73 / 100), ((''GBP'', ''USD''), 137 / 100),
                ((''USD'', ''JPY''), 110), ((''JPY'', ''USD''), 9 / 1000),
                ((''EUR'', ''GBP''), 86 / 100), ((''GBP'', ''EUR''), 116 / 100),
                ((''USD'', ''CAD''), 125 / 100), ((''CAD'', ''USD''), 80 / 100),
                ((''USD'', ''AUD''), 135 / 100), ((''AUD'', ''USD''), 74 / 100)]
          (toUpperCase a, toUpperCase b))"
    unfolding getFallbackRate_table fallback_lookup ..
  show ?thesis
  proof (cases "getFallbackRate a b")
    case None
    then show ?thesis
      using assms(1,3) unfolding g
      by (simp add: convertCurrency_def getExchangeRate_miss [OF assms(2)] Let_def g
          split: option.splits)
  next
    case (Some fb)
    then show ?thesis
      using assms(1,3) unfolding g
      by (auto simp add: convertCurrency_def getExchangeRate_miss [OF assms(2)] Let_def g
          split: option.splits)
  qed
qed

theorem fallback_or_error_result_witness:
  "fst (getExchangeRate \<lparr>latency = 40, outcome = Rejected ''Failed to fetch''\<rparr> ''usd'' ''eur''
          \<lparr>cache = Map.empty, clock = 1000, trace = []\<rparr>)
       = Inr (Num (7656119366529843 / 9007199254740992))
   \<and> fst (convertCurrency \<lparr>latency = 40, outcome = Rejected ''Failed to fetch''\<rparr> (Num 50) ''usd''
          ''eur'' \<lparr>cache = Map.empty, clock = 1000, trace = []\<rparr>)
       = CurrencySuccess (Num (85 / 2)) (Num (7656119366529843 / 9007199254740992)) (Num 50)
           ''USD'' ''EUR''
           [NumText (Num 50), Txt '' '', Txt ''USD'', Txt '' = '', Fixed 2 (Num (85 / 2)),
            Txt '' '', Txt ''EUR'']
           (Some 1040)
   \<and> fst (getExchangeRate \<lparr>latency = 40, outcome = Rejected ''Failed to fetch''\<rparr> ''EUR'' ''CAD''
          \<lparr>cache = Map.empty, clock = 1000, trace = []\<rparr>) = Inl ''Failed to fetch''
   \<and> fst (convertCurrency \<lparr>latency = 40, outcome = Rejected ''Failed to fetch''\<rparr> (Num 50) ''EUR''
          ''CAD'' \<lparr>cache = Map.empty, clock = 1000, trace = []\<rparr>)
       = CurrencyFailure ''Failed to fetch'' (Num 50) ''EUR'' ''CAD''"
proof -
  have 1: "toLowerCase ''EUR'' \<noteq> toLowerCase ''CAD''" "toLowerCase ''usd'' \<noteq> toLowerCase ''eur''"
    by code_simp+
  have 2: "\<forall>c. cache \<lparr>cache = Map.empty, clock = 1000, trace = []\<rparr> (cacheKeyOf x y) = Some c
             \<longrightarrow> \<not> clock \<lparr>cache = Map.empty, clock = 1000, trace = []\<rparr> - timestamp c < cacheTimeout"
    for x y by simp
  have 3: "fetchedRate (outcome \<lparr>latency = 40, outcome = Rejected ''Failed to fetch''\<rparr>) x y
             = Inl ''Failed to fetch''" for x y
    by (simp add: fetchedRate_def)
  have u: "toUpperCase ''EUR'' = ''EUR''" "toUpperCase ''CAD'' = ''CAD''"
      "toUpperCase ''usd'' = ''USD''" "toUpperCase ''eur'' = ''EUR''"
    by code_simp+
  have j: "jsmul (Num 50) (Num (7656119366529843 / 9007199254740992)) = Num (85 / 2)"
    by (rule jsmul_NumI, rule round64_eqI [where e = 5 and m = 5981343255101440])
      (simp_all add: power_int_minus_divide)
  have p: "fst (getExchangeRate \<lparr>latency = 40, outcome = Rejected ''Failed to fetch''\<rparr> ''usd'' ''eur''
          \<lparr>cache = Map.empty, clock = 1000, trace = []\<rparr>)
       = Inr (Num (7656119366529843 / 9007199254740992))
   \<and> fst (convertCurrency \<lparr>latency = 40, outcome = Rejected ''Failed to fetch''\<rparr> (Num 50) ''usd''
          ''eur'' \<lparr>cache = Map.empty, clock = 1000, trace = []\<rparr>)
       = CurrencySuccess (Num (85 / 2)) (Num (7656119366529843 / 9007199254740992)) (Num 50)
           ''USD'' ''EUR''
           [NumText (Num 50), Txt '' '', Txt ''USD'', Txt '' = '', Fixed 2 (Num (85 / 2)),
            Txt '' '', Txt ''EUR'']
           (Some 1040)"
    using fallback_or_error_result [OF 1(2) 2 3, of "Num 50"]
    by (simp add: u lit_usd_eur j del: jsmul.simps)
  have q: "fst (getExchangeRate \<lparr>latency = 40, outcome = Rejected ''Failed to fetch''\<rparr> ''EUR'' ''CAD''
          \<lparr>cache = Map.empty, clock = 1000, trace = []\<rparr>) = Inl ''Failed to fetch''
   \<and> fst (convertCurrency \<lparr>latency = 40, outcome = Rejected ''Failed to fetch''\<rparr> (Num 50) ''EUR''
          ''CAD'' \<lparr>cache = Map.empty, clock = 1000, trace = []\<rparr>)
       = CurrencyFailure ''Failed to fetch'' (Num 50) ''EUR'' ''CAD''"
    using fallback_or_error_result [OF 1(1) 2 3, of "Num 50"]
    by (simp add: u)
  from p q show ?thesis by simp
qed

text \<open>
  C7. \<open>getExchangeRate\<close> issues no fetch exactly when the cache holds an entry under the
  lower-case key \<open>from-to\<close> whose age, the clock minus the stored timestamp, is strictly
  below ten minutes; it then returns the cached rate and leaves the cache alone. Otherwise
  it fetches the rates of the upper-cased source currency, and when the fetch succeeds it
  returns the new rate and stores it under that same key with the clock's reading at that
  moment.
\<close>

theorem cache_hit_iff_no_fetch:
  "((\<exists>c. cache s (toLowerCase a @ ''-'' @ toLowerCase b) = Some c
         \<and> clock s - timestamp c < 10 * 60 * 1000)
      \<longleftrightarrow> (\<forall>url. Fetch url \<notin> set (drop (length (trace s)) (trace (snd (getExchangeRate resp a b s))))))
   \<and> (\<forall>c. cache s (toLowerCase a @ ''-'' @ toLowerCase b) = Some c
            \<and> clock s - timestamp c < 10 * 60 * 1000
        \<longrightarrow> fst (getExchangeRate resp a b s) = Inr (rate c)
            \<and> cache (snd (getExchangeRate resp a b s)) = cache s)
   \<and> (\<not> (\<exists>c. cache s (toLowerCase a @ ''-'' @ toLowerCase b) = Some c
            \<and> clock s - timestamp c < 10 * 60 * 1000)
        \<longrightarrow> Fetch (apiBaseUrl @ ''/'' @ toUpperCase a)
              \<in> set (drop (length (trace s)) (trace (snd (getExchangeRate resp a b s))))
            \<and> (\<forall>r. fetchedRate (outcome resp) a b = Inr r \<longrightarrow>
                  fst (getExchangeRate resp a b s) = Inr r
                  \<and> clock (snd (getExchangeRate resp a b s)) = clock s + int (latency resp)
                  \<and> cache (snd (getExchangeRate resp a b s)) =
                      (cache s)(toLowerCase a @ ''-'' @ toLowerCase b \<mapsto>
                         \<lparr>rate = r, timestamp = clock (snd (getExchangeRate resp a b s))\<rparr>)))"
proof (cases "\<exists>c. cache s (cacheKeyOf a b) = Some c \<and> clock s - timestamp c < cacheTimeout")
  case True
  then obtain c where c: "cache s (cacheKeyOf a b) = Some c" "clock s - timestamp c < cacheTimeout"
    by blast
  have k: "cache s (toLowerCase a @ ''-'' @ toLowerCase b) = Some c" "clock s - timestamp c < 600000"
    using c by (simp_all add: cacheKeyOf_def cacheTimeout_def)
  show ?thesis
    using k by (auto simp add: getExchangeRate_hit [OF c])
next
  case False
  then have m: "\<forall>c. cache s (cacheKeyOf a b) = Some c \<longrightarrow> \<not> clock s - timestamp c < cacheTimeout"
    by blast
  have k: "\<not> (\<exists>c. cache s (toLowerCase a @ ''-'' @ toLowerCase b) = Some c
            \<and> clock s - timestamp c < 10 * 60 * 1000)"
    using False by (simp add: cacheKeyOf_def cacheTimeout_def)
  have f: "Fetch (apiBaseUrl @ ''/'' @ toUpperCase a)
              \<in> set (drop (length (trace s)) (trace (snd (getExchangeRate resp a b s))))"
    by (simp add: getExchangeRate_miss [OF m] Let_def split: sum.splits option.splits)
  have w: "\<forall>r. fetchedRate (outcome resp) a b = Inr r \<longrightarrow>
                  fst (getExchangeRate resp a b s) = Inr r
                  \<and> clock (snd (getExchangeRate resp a b s)) = clock s + int (latency resp)
                  \<and> cache (snd (getExchangeRate resp a b s)) =
                      (cache s)(toLowerCase a @ ''-'' @ toLowerCase b \<mapsto>
                         \<lparr>rate = r, timestamp = clock (snd (getExchangeRate resp a b s))\<rparr>)"
    by (simp add: getExchangeRate_miss [OF m] Let_def cacheKeyOf_def)
  from k f w show ?thesis by blast
qed

theorem cache_hit_iff_no_fetch_witness:
  "fst (getExchangeRate \<lparr>latency = 40, outcome = Body (Some [(''EUR'', Num (29 / 32))])\<rparr> ''usd'' ''eur''
          \<lparr>cache = [''usd-eur'' \<mapsto> \<lparr>rate = Num (7 / 8), timestamp = 1000\<rparr>], clock = 600999,
           trace = []\<rparr>) = Inr (Num (7 / 8))
   \<and> fst (getExchangeRate \<lparr>latency = 40, outcome = Body (Some [(''EUR'', Num (29 / 32))])\<rparr> ''usd'' ''eur''
          \<lparr>cache = [''usd-eur'' \<mapsto> \<lparr>rate = Num (7 / 8), timestamp = 1000\<rparr>], clock = 601000,
           trace = []\<rparr>) = Inr (Num (29 / 32))"
proof -
  have l: "toLowerCase ''usd'' = ''usd''" "toLowerCase ''eur'' = ''eur''" by code_simp+
  have r: "fetchedRate (Body (Some [(''EUR'', Num (29 / 32))])) ''usd'' ''eur'' = Inr (Num (29 / 32))"
    by code_simp
  have 1: "fst (getExchangeRate \<lparr>latency = 40, outcome = Body (Some [(''EUR'', Num (29 / 32))])\<rparr> ''usd'' ''eur''
          \<lparr>cache = [''usd-eur'' \<mapsto> \<lparr>rate = Num (7 / 8), timestamp = 1000\<rparr>], clock = 600999,
           trace = []\<rparr>) = Inr (Num (7 / 8))"
    using cache_hit_iff_no_fetch [THEN conjunct2, THEN conjunct1, of
        "\<lparr>cache = [''usd-eur'' \<mapsto> \<lparr>rate = Num (7 / 8), timestamp = 1000\<rparr>], clock = 600999, trace = []\<rparr>"
        "''usd''" "''eur''" "\<lparr>latency = 40, outcome = Body (Some [(''EUR'', Num (29 / 32))])\<rparr>"]
    by (simp add: l)
  have 2: "fst (getExchangeRate \<lparr>latency = 40, outcome = Body (Some [(''EUR'', Num (29 / 32))])\<rparr> ''usd'' ''eur''
          \<lparr>cache = [''usd-eur'' \<mapsto> \<lparr>rate = Num (7 / 8), timestamp = 1000\<rparr>], clock = 601000,
           trace = []\<rparr>) = Inr (Num (29 / 32))"
    using cache_hit_iff_no_fetch [THEN conjunct2, THEN conjunct2, of
        "\<lparr>cache = [''usd-eur'' \<mapsto> \<lparr>rate = Num (7 / 8), timestamp = 1000\<rparr>], clock = 601000, trace = []\<rparr>"
        "''usd''" "''eur''" "\<lparr>latency = 40, outcome = Body (Some [(''EUR'', Num (29 / 32))])\<rparr>"]
    by (simp add: l r)
  from 1 2 show ?thesis by simp
qed

text \<open>
  C10. A call of \<open>getExchangeRate\<close> either leaves the cache as it was or has fetched
  successfully and stored the fetched rate. A call answered from the hardcoded table leaves
  the cache unchanged, so every later lookup of the pair, at a clock that has not gone back
  and with the pair's cache entry still as it was, fetches again.
\<close>

theorem fallback_leaves_cache:
  "(cache (snd (getExchangeRate resp a b s)) = cache s
      \<or> (\<exists>r. fetchedRate (outcome resp) a b = Inr r
              \<and> cache (snd (getExchangeRate resp a b s)) =
                  (cache s)(cacheKeyOf a b \<mapsto>
                     \<lparr>rate = r, timestamp = clock s + int (latency resp)\<rparr>)))
   \<and> ((\<forall>c. cache s (cacheKeyOf a b) = Some c \<longrightarrow> \<not> clock s - timestamp c < cacheTimeout)
        \<and> fetchedRate (outcome resp) a b = Inl message
        \<and> getFallbackRate a b = Some fb
      \<longrightarrow> fst (getExchangeRate resp a b s) = Inr fb
          \<and> cache (snd (getExchangeRate resp a b s)) = cache s
          \<and> (\<forall>resp' s'. cache s' (cacheKeyOf a b) = cache s (cacheKeyOf a b)
                  \<and> clock (snd (getExchangeRate resp a b s)) \<le> clock s'
                \<longrightarrow> Fetch (apiBaseUrl @ ''/'' @ toUpperCase a)
                      \<in> set (drop (length (trace s')) (trace (snd (getExchangeRate resp' a b s'))))))"
proof -
  have 1: "cache (snd (getExchangeRate resp a b s)) = cache s
      \<or> (\<exists>r. fetchedRate (outcome resp) a b = Inr r
              \<and> cache (snd (getExchangeRate resp a b s)) =
                  (cache s)(cacheKeyOf a b \<mapsto>
                     \<lparr>rate = r, timestamp = clock s + int (latency resp)\<rparr>))"
    by (simp add: getExchangeRate_def Let_def split: option.splits sum.splits)
  have 2: "fst (getExchangeRate resp a b s) = Inr fb
          \<and> cache (snd (getExchangeRate resp a b s)) = cache s
          \<and> (\<forall>resp' s'. cache s' (cacheKeyOf a b) = cache s (cacheKeyOf a b)
                  \<and> clock (snd (getExchangeRate resp a b s)) \<le> clock s'
                \<longrightarrow> Fetch (apiBaseUrl @ ''/'' @ toUpperCase a)
                      \<in> set (drop (length (trace s')) (trace (snd (getExchangeRate resp' a b s')))))"
    if m: "\<forall>c. cache s (cacheKeyOf a b) = Some c \<longrightarrow> \<not> clock s - timestamp c < cacheTimeout"
      and f: "fetchedRate (outcome resp) a b = Inl message"
      and g: "getFallbackRate a b = Some fb"
  proof -
    have e: "getExchangeRate resp a b s =
        (Inr fb, s\<lparr>trace := trace s @ [CacheGet (cacheKeyOf a b), Fetch (apiBaseUrl @ ''/'' @ toUpperCase a)],
                  clock := clock s + int (latency resp)\<rparr>)"
      by (simp add: getExchangeRate_miss [OF m] f g Let_def)
    have "Fetch (apiBaseUrl @ ''/'' @ toUpperCase a)
            \<in> set (drop (length (trace s')) (trace (snd (getExchangeRate resp' a b s'))))"
      if c: "cache s' (cacheKeyOf a b) = cache s (cacheKeyOf a b)"
        and t: "clock s + int (latency resp) \<le> clock s'" for resp' s'
    proof -
      have m': "\<forall>c. cache s' (cacheKeyOf a b) = Some c \<longrightarrow> \<not> clock s' - timestamp c < cacheTimeout"
        using m c t by auto
      show ?thesis
        by (simp add: getExchangeRate_miss [OF m'] Let_def split: sum.splits option.splits)
    qed
    then show ?thesis by (simp add: e)
  qed
  from 1 2 show ?thesis by blast
qed

theorem fallback_leaves_cache_witness:
  "fst (getExchangeRate \<lparr>latency = 40, outcome = HttpError 503 ''Service Unavailable''\<rparr> ''usd'' ''eur''
          \<lparr>cache = Map.empty, clock = 1000, trace = []\<rparr>) = Inr (Num (7656119366529843 / 9007199254740992))
   \<and> cache (snd (getExchangeRate \<lparr>latency = 40, outcome = HttpError 503 ''Service Unavailable''\<rparr>
          ''usd'' ''eur'' \<lparr>cache = Map.empty, clock = 1000, trace = []\<rparr>)) = Map.empty"
proof -
  have f: "fetchedRate (HttpError 503 ''Service Unavailable'') ''usd'' ''eur''
             = Inl (''HTTP '' @ showNat 503 @ '': Service Unavailable'')"
    by (simp add: fetchedRate_def)
  have u: "toUpperCase ''usd'' = ''USD''" "toUpperCase ''eur'' = ''EUR''" by code_simp+
  have g: "getFallbackRate ''usd'' ''eur'' = Some (Num (7656119366529843 / 9007199254740992))"
    using getFallbackRate_table [of "''usd''" "''eur''"] fallback_lookup [of "''USD''" "''EUR''"]
    by (simp add: u lit_usd_eur)
  show ?thesis
    using fallback_leaves_cache [of "\<lparr>latency = 40, outcome = HttpError 503 ''Service Unavailable''\<rparr>"
        "''usd''" "''eur''" "\<lparr>cache = Map.empty, clock = 1000, trace = []\<rparr>"
        "''HTTP '' @ showNat 503 @ '': Service Unavailable''" "Num (7656119366529843 / 9007199254740992)"]
    by (simp add: f g)
qed

section \<open>Clock expressions of the timezone branch\<close>

lemma hours24_cases:
  "hours24 (Some ''AM'') 12 = 0" "hours24 (Some ''PM'') 12 = 12"
  "h < 12 \<Longrightarrow> hours24 (Some ''PM'') h = h + 12"
  by (simp_all add: hours24_def)

lemma setHours_same_day:
  assumes "1 \<le> dayOfMonth today" "dayOfMonth today \<le> daysInMonth (fullYear today) (monthIndex today)"
    and "0 \<le> h" "h < 24" "0 \<le> mi" "mi < 60"
  shows "setHours today h mi =
           \<lparr>fullYear = fullYear today, monthIndex = monthIndex today,
            dayOfMonth = dayOfMonth today, msOfDay = h * 3600000 + mi * 60000\<rparr>"
proof -
  have "0 \<le> h * 3600000 + mi * 60000" "h * 3600000 + mi * 60000 < 86400000"
    using assms by auto
  then have "(h * 3600000 + mi * 60000) div 86400000 = 0"
            "(h * 3600000 + mi * 60000) mod 86400000 = h * 3600000 + mi * 60000"
    by simp_all
  then show ?thesis
    using assms(1,2) by (simp add: setHours_def Let_def normDay_in_month)
qed

lemma getHours_setHours:
  assumes "0 \<le> h" "0 \<le> mi" "mi < 60"
  shows "getHours \<lparr>fullYear = y, monthIndex = m, dayOfMonth = d, msOfDay = h * 3600000 + mi * 60000\<rparr> = h"
    and "getMinutes \<lparr>fullYear = y, monthIndex = m, dayOfMonth = d, msOfDay = h * 3600000 + mi * 60000\<rparr> = mi"
proof -
  have a: "h * 3600000 + mi * 60000 = mi * 60000 + h * 3600000" by simp
  have "(mi * 60000 + h * 3600000) div 3600000 = h"
    using assms by (simp add: div_pos_pos_trivial)
  moreover have "(mi * 60000 + h * 3600000) mod 3600000 = mi * 60000"
    using assms by (simp add: mod_pos_pos_trivial)
  ultimately show "getHours \<lparr>fullYear = y, monthIndex = m, dayOfMonth = d, msOfDay = h * 3600000 + mi * 60000\<rparr> = h"
    "getMinutes \<lparr>fullYear = y, monthIndex = m, dayOfMonth = d, msOfDay = h * 3600000 + mi * 60000\<rparr> = mi"
    unfolding a by (simp_all add: getHours_def getMinutes_def)
qed

text \<open>
  C8. In the timezone branch the clock expression is normalised so that 12 AM is hour 0,
  12 PM stays hour 12 and a PM marker adds 12 to every hour below 12. Whenever the
  expression has a clock time, the date handed to \<open>convertTimezone\<close> is today's date with
  its time of day set to the normalised hours and the minutes. The normalised hour of a
  12-hour clock (an hour up to 12) is below 24, and for hours below 24 and minutes below 60
  the date handed on is today's calendar date at exactly that time.
\<close>

theorem timezone_clock_normalization:
  assumes "timeParts (time @ (if CHR ''M'' \<in> set time then [] else '' PM'')) = Some (g1, g2, g3)"
  shows "hours24 (Some ''AM'') 12 = 0 \<and> hours24 (Some ''PM'') 12 = 12
         \<and> (\<forall>h. h < 12 \<longrightarrow> hours24 (Some ''PM'') h = h + 12)
         \<and> (\<forall>period h. h \<le> 12 \<longrightarrow> hours24 period h < 24)
         \<and> handleDateTimeRequest_timezone convertTimezone today time fromTimezone toTimezone =
             convertTimezone
               (setHours today (int (hours24 (map_option toUpperCase g3) (parseInt g1)))
                  (int (parseInt (case g2 of Some m \<Rightarrow> m | None \<Rightarrow> ''0''))))
               fromTimezone toTimezone
         \<and> (1 \<le> dayOfMonth today
              \<and> dayOfMonth today \<le> daysInMonth (fullYear today) (monthIndex today)
              \<and> hours24 (map_option toUpperCase g3) (parseInt g1) < 24
              \<and> parseInt (case g2 of Some m \<Rightarrow> m | None \<Rightarrow> ''0'') < 60
            \<longrightarrow> setHours today (int (hours24 (map_option toUpperCase g3) (parseInt g1)))
                  (int (parseInt (case g2 of Some m \<Rightarrow> m | None \<Rightarrow> ''0''))) =
                \<lparr>fullYear = fullYear today, monthIndex = monthIndex today,
                 dayOfMonth = dayOfMonth today,
                 msOfDay = int (hours24 (map_option toUpperCase g3) (parseInt g1)) * 3600000
                   + int (parseInt (case g2 of Some m \<Rightarrow> m | None \<Rightarrow> ''0'')) * 60000\<rparr>)"
proof -
  have 1: "handleDateTimeRequest_timezone convertTimezone today time fromTimezone toTimezone =
             convertTimezone
               (setHours today (int (hours24 (map_option toUpperCase g3) (parseInt g1)))
                  (int (parseInt (case g2 of Some m \<Rightarrow> m | None \<Rightarrow> ''0''))))
               fromTimezone toTimezone"
    using assms by (simp add: handleDateTimeRequest_timezone_def todayWithTime_def Let_def)
  have 2: "setHours today (int H) (int M) =
             \<lparr>fullYear = fullYear today, monthIndex = monthIndex today,
              dayOfMonth = dayOfMonth today, msOfDay = int H * 3600000 + int M * 60000\<rparr>"
    if "1 \<le> dayOfMonth today" "dayOfMonth today \<le> daysInMonth (fullYear today) (monthIndex today)"
      "H < 24" "M < 60" for H M :: nat
    using that by (intro setHours_same_day) simp_all
  have 3: "\<forall>period h. h \<le> 12 \<longrightarrow> hours24 period h < 24"
    by (simp add: hours24_def)
  from 1 2 3 hours24_cases show ?thesis by blast
qed

theorem timezone_clock_normalization_witness:
  "handleDateTimeRequest_timezone (\<lambda>d f t. (d, f, t))
       \<lparr>fullYear = 2026, monthIndex = 10, dayOfMonth = 2, msOfDay = 45000000\<rparr> ''12 AM'' ''PST'' ''EST''
     = (\<lparr>fullYear = 2026, monthIndex = 10, dayOfMonth = 2, msOfDay = 0\<rparr>, ''PST'', ''EST'')
   \<and> handleDateTimeRequest_timezone (\<lambda>d f t. (d, f, t))
       \<lparr>fullYear = 2026, monthIndex = 10, dayOfMonth = 2, msOfDay = 45000000\<rparr> ''3:30 pm'' ''PST'' ''EST''
     = (\<lparr>fullYear = 2026, monthIndex = 10, dayOfMonth = 2, msOfDay = 55800000\<rparr>, ''PST'', ''EST'')"
proof -
  let ?today = "\<lparr>fullYear = 2026, monthIndex = 10, dayOfMonth = 2, msOfDay = 45000000\<rparr>"
  have a: "timeParts (''12 AM'' @ (if CHR ''M'' \<in> set ''12 AM'' then [] else '' PM''))
             = Some (''12'', None, Some ''AM'')"
    by code_simp
  have b: "timeParts (''3:30 pm'' @ (if CHR ''M'' \<in> set ''3:30 pm'' then [] else '' PM''))
             = Some (''3'', Some ''30'', Some ''pm'')"
    by code_simp
  have v: "hours24 (map_option toUpperCase (Some ''AM'')) (parseInt ''12'') = 0"
          "parseInt (case None of Some m \<Rightarrow> m | None \<Rightarrow> ''0'') = 0"
          "hours24 (map_option toUpperCase (Some ''pm'')) (parseInt ''3'') = 15"
          "parseInt (case Some ''30'' of Some m \<Rightarrow> m | None \<Rightarrow> ''0'') = 30"
    by code_simp+
  have d: "daysInMonth 2026 10 = 30" by code_simp
  have 1: "handleDateTimeRequest_timezone (\<lambda>d f t. (d, f, t)) ?today ''12 AM'' ''PST'' ''EST''
     = (\<lparr>fullYear = 2026, monthIndex = 10, dayOfMonth = 2, msOfDay = 0\<rparr>, ''PST'', ''EST'')"
    using timezone_clock_normalization [OF a, of "\<lambda>d f t. (d, f, t)" ?today "''PST''" "''EST''"]
    unfolding v by (simp add: d)
  have 2: "handleDateTimeRequest_timezone (\<lambda>d f t. (d, f, t)) ?today ''3:30 pm'' ''PST'' ''EST''
     = (\<lparr>fullYear = 2026, monthIndex = 10, dayOfMonth = 2, msOfDay = 55800000\<rparr>, ''PST'', ''EST'')"
    using timezone_clock_normalization [OF b, of "\<lambda>d f t. (d, f, t)" ?today "''PST''" "''EST''"]
    unfolding v by (simp add: d)
  from 1 2 show ?thesis by simp
qed

section \<open>Conversation history\<close>

lemma lastN_length: "length (lastN n xs) \<le> n"
  by (simp add: lastN_def)

lemma lastN_short: "length xs \<le> n \<Longrightarrow> lastN n xs = xs"
  by (simp add: lastN_def)

lemma lastN_append_lastN: "lastN n (lastN n xs @ ys) = lastN n (xs @ ys)"
proof (cases "length xs \<le> n")
  case True
  then show ?thesis by (simp add: lastN_short)
next
  case False
  then show ?thesis by (simp add: lastN_def add.commute)
qed

lemma slice_lastN:
  "(if length xs > 10 then drop (length xs - 10) xs else xs) = lastN 10 xs"
  by (simp add: lastN_def)

lemma processQuery_history:
  "conversationHistory (snd (processQuery env q a)) =
     (if exchangeOf env q a = [] then conversationHistory a
      else lastN 10 (conversationHistory a @ exchangeOf env q a))"
  by (simp add: exchangeOf_def processQuery_def queryFailure_def Let_def slice_lastN
      split: sum.splits)

lemma processQuery_history_bounded:
  assumes "length (conversationHistory a) \<le> 10"
  shows "conversationHistory (snd (processQuery env q a)) =
           lastN 10 (conversationHistory a @ exchangeOf env q a)"
        "length (conversationHistory (snd (processQuery env q a))) \<le> 10"
  using assms by (simp_all add: processQuery_history lastN_short lastN_length)

lemma processQueries_history:
  assumes "length (conversationHistory a) \<le> 10"
  shows "conversationHistory (processQueries calls a) =
           lastN 10 (conversationHistory a @ transcript calls a)"
  using assms
proof (induction calls arbitrary: a)
  case Nil
  then show ?case by (simp add: processQueries_def lastN_short)
next
  case (Cons c calls)
  obtain env q where c: "c = (env, q)" by (cases c)
  let ?a' = "snd (processQuery env q a)"
  have s: "processQueries (c # calls) a = processQueries calls ?a'"
    by (simp add: processQueries_def c)
  have "conversationHistory (processQueries calls ?a') =
          lastN 10 (conversationHistory ?a' @ transcript calls ?a')"
    using Cons.IH processQuery_history_bounded(2) [OF Cons.prems] by blast
  also have "\<dots> = lastN 10 (conversationHistory a @ exchangeOf env q a @ transcript calls ?a')"
    using lastN_append_lastN [of 10 "conversationHistory a @ exchangeOf env q a" "transcript calls ?a'"]
    by (simp add: processQuery_history_bounded(1) [OF Cons.prems])
  finally show ?case unfolding s by (simp add: c)
qed

lemma transcript_exchanges: "transcript calls a = concat (exchanges calls a)"
  by (induction calls a rule: transcript.induct) simp_all

lemma exchangeOf_length: "exchangeOf env q a = [] \<or> length (exchangeOf env q a) = 2"
  by (simp add: exchangeOf_def split: query_result.splits)

lemma exchanges_pairs: "\<forall>e \<in> set (exchanges calls a). length e = 2"
proof (induction calls a rule: exchanges.induct)
  case (1 a)
  then show ?case by simp
next
  case (2 env q calls a)
  then show ?case using exchangeOf_length [of env q a] by auto
qed

lemma drop_concat_pairs:
  assumes "\<forall>e \<in> set xss. length e = 2"
  shows "drop (2 * k) (concat xss) = concat (drop k xss)"
  using assms
proof (induction xss arbitrary: k)
  case Nil
  then show ?case by simp
next
  case (Cons xs xss)
  show ?case
  proof (cases k)
    case 0
    then show ?thesis by simp
  next
    case (Suc j)
    have "length xs = 2" using Cons.prems by simp
    then show ?thesis using Cons.IH [of j] Cons.prems by (simp add: Suc)
  qed
qed

lemma length_concat_pairs:
  assumes "\<forall>e \<in> set xss. length e = 2"
  shows "length (concat xss) = 2 * length xss"
  using assms by (induction xss) simp_all

lemma lastN_concat_pairs:
  assumes "\<forall>e \<in> set xss. length e = 2"
  shows "lastN 10 (concat xss) = concat (lastN 5 xss)"
proof -
  have "length (concat xss) - 10 = 2 * (length xss - 5)"
    using length_concat_pairs [OF assms] by simp
  then show ?thesis using drop_concat_pairs [OF assms] by (simp add: lastN_def)
qed

text \<open>
  C9. A successful \<open>processQuery\<close> appends the user entry and the model entry and keeps
  the last 10 entries of the list; a failed one leaves the history as it was. Starting
  from a new agent, after any sequence of calls the history has at most 10 entries: it
  consists of the most recent five of the exchanges appended so far.
\<close>

theorem history_bounded:
  "(\<forall>analysis toolResults finalResponse.
       fst (processQuery env q a) = QuerySuccess q analysis toolResults finalResponse \<longrightarrow>
         conversationHistory (snd (processQuery env q a)) =
           lastN 10 (conversationHistory a @ [\<lparr>role = ''user'', parts_text = q\<rparr>,
                                               \<lparr>role = ''model'', parts_text = finalResponse\<rparr>])
         \<and> length (conversationHistory (snd (processQuery env q a))) \<le> 10)
   \<and> (\<forall>e m. fst (processQuery env q a) = QueryFailure q e m \<longrightarrow>
         conversationHistory (snd (processQuery env q a)) = conversationHistory a)
   \<and> length (conversationHistory (processQueries calls newAgent)) \<le> 10
   \<and> conversationHistory (processQueries calls newAgent) =
       concat (lastN 5 (exchanges calls newAgent))"
proof -
  have 1: "conversationHistory (snd (processQuery env q a)) =
           lastN 10 (conversationHistory a @ [\<lparr>role = ''user'', parts_text = q\<rparr>,
                                               \<lparr>role = ''model'', parts_text = finalResponse\<rparr>])
         \<and> length (conversationHistory (snd (processQuery env q a))) \<le> 10"
    if "fst (processQuery env q a) = QuerySuccess q analysis toolResults finalResponse"
    for analysis toolResults finalResponse
    using that by (simp add: processQuery_history exchangeOf_def lastN_length)
  have 2: "conversationHistory (snd (processQuery env q a)) = conversationHistory a"
    if "fst (processQuery env q a) = QueryFailure q e m" for e m
    using that by (simp add: processQuery_history exchangeOf_def)
  have 3: "conversationHistory (processQueries calls newAgent) = lastN 10 (transcript calls newAgent)"
    using processQueries_history [of newAgent calls] by (simp add: newAgent_def)
  have 4: "lastN 10 (transcript calls newAgent) = concat (lastN 5 (exchanges calls newAgent))"
    unfolding transcript_exchanges by (rule lastN_concat_pairs [OF exchanges_pairs])
  from 1 2 3 4 lastN_length [of 10 "transcript calls newAgent"] show ?thesis by auto
qed

theorem history_bounded_witness:
  "conversationHistory (snd (processQuery
      \<lparr>analyzeQuery = (\<lambda>q h. if q = ''boom'' then Inl ''analysis failed'' else Inr ()),
       executeToolCalls = (\<lambda>q an. Inr ()),
       generateFinalResponse = (\<lambda>q tr h. Inr (''re: '' @ q))\<rparr> ''a'' newAgent)) =
     [\<lparr>role = ''user'', parts_text = ''a''\<rparr>, \<lparr>role = ''model'', parts_text = ''re: a''\<rparr>]
   \<and> conversationHistory (snd (processQuery
      \<lparr>analyzeQuery = (\<lambda>q h. if q = ''boom'' then Inl ''analysis failed'' else Inr ()),
       executeToolCalls = (\<lambda>q an. Inr ()),
       generateFinalResponse = (\<lambda>q tr h. Inr (''re: '' @ q))\<rparr> ''boom'' newAgent)) = []"
proof -
  let ?env = "\<lparr>analyzeQuery = (\<lambda>q h. if q = ''boom'' then Inl ''analysis failed'' else Inr ()),
       executeToolCalls = (\<lambda>q an. Inr ()),
       generateFinalResponse = (\<lambda>q tr h. Inr (''re: '' @ q))\<rparr> :: (unit, unit) steps"
  have s: "fst (processQuery ?env ''a'' newAgent) = QuerySuccess ''a'' () () ''re: a''"
    by (simp add: processQuery_def newAgent_def)
  have f: "fst (processQuery ?env ''boom'' newAgent)
             = QueryFailure ''boom'' ''analysis failed''
                 (''I encountered an error processing your request: '' @ ''analysis failed'')"
    by (simp add: processQuery_def newAgent_def queryFailure_def)
  have 1: "conversationHistory (snd (processQuery ?env ''a'' newAgent)) =
     [\<lparr>role = ''user'', parts_text = ''a''\<rparr>, \<lparr>role = ''model'', parts_text = ''re: a''\<rparr>]"
    using history_bounded [THEN conjunct1, rule_format, OF s]
    by (simp add: newAgent_def lastN_def)
  have 2: "conversationHistory (snd (processQuery ?env ''boom'' newAgent)) = []"
    using history_bounded [THEN conjunct2, THEN conjunct1, rule_format, OF f]
    by (simp add: newAgent_def)
  from 1 2 show ?thesis by simp
qed

end
